theory Spec2Isabelle
  imports Main "HOL-Library.Sublist"
begin

section \<open>Values shared by the two engines\<close>

text \<open>
  Text is a list of code units; \<open>length\<close> and \<open>drop\<close> are JavaScript's \<open>.length\<close> and
  \<open>.slice(n)\<close>. Where the case and the kind of a character matter (the echo guard), code
  units up to \<open>0xFF\<close> are modelled. A JavaScript \<open>Error\<close> is its message.
\<close>

datatype error = Error string

record citation =
  title :: string
  url :: string

text \<open>The object an engine resolves with: \<open>{ answer }\<close> or \<open>{ answer, sources }\<close>.\<close>

record answer_only =
  answer :: string

record sourced_answer = answer_only +
  sources :: "citation list"

text \<open>
  What one call of \<open>extractAnswer\<close> returns: \<open>{ answerText, isLoading }\<close>, with
  \<open>sources\<close> in the Perplexity server (\<open>extractedSources\<close> here, as the answer
  object has a field \<open>sources\<close> too) and \<open>modelResponseExists\<close> in the Gemini
  server.
\<close>

record sample =
  answerText :: string
  isLoading :: bool

record perplexity_extraction = sample +
  extractedSources :: "citation list"

record gemini_extraction = sample +
  modelResponseExists :: bool

section \<open>Submitting the query\<close>

text \<open>
  \<open>submitQuery\<close> (both servers) scrolls the page, then walks a list of selectors:
  \<^verbatim>\<open>
  for (const selector of selectors) {
      try {
          const elements = await page.$$(selector);
          for (const element of elements) {
              const isVisible = await element.evaluate(el => ...);
              if (!isVisible) continue;
              await element.click();  ... clear, insert the text, confirm ...
              return true;
          }
      } catch { continue; }
  }
  return false;
  \<close>
  The page answers each selector with an exception or with the elements it matches; an
  element answers the visibility probe with an exception, with \<open>false\<close> (display none,
  hidden, zero height or width) or with \<open>true\<close>, and for a visible element the
  interaction that follows succeeds or throws. An exception anywhere inside the \<open>try\<close>
  abandons the current selector. The scroll before the loop is outside every \<open>try\<close>.
\<close>

datatype probe = ProbeThrows | NotVisible | Visible bool

datatype lookup = LookupThrows | Elements "probe list"

record input_page =
  scrollOutcome :: "error option"
  candidates :: "string \<Rightarrow> lookup"

fun tryElements :: "probe list \<Rightarrow> bool" where
  "tryElements [] = False"
| "tryElements (ProbeThrows # els) = False"
| "tryElements (NotVisible # els) = tryElements els"
| "tryElements (Visible interacts # els) = interacts"

fun trySelectors :: "(string \<Rightarrow> lookup) \<Rightarrow> string list \<Rightarrow> bool" where
  "trySelectors page [] = False"
| "trySelectors page (selector # rest) =
     (case page selector of
        LookupThrows \<Rightarrow> trySelectors page rest
      | Elements els \<Rightarrow> if tryElements els then True else trySelectors page rest)"

definition perplexitySelectors :: "string list" where
  \<open>perplexitySelectors =
     [''textarea'',
      ''[contenteditable="true"]'',
      ''input[type="text"]'',
      ''[placeholder*="Ask"]'',
      ''[placeholder*="Search"]'',
      ''[placeholder*="follow"]'',
      ''[role="textbox"]'']\<close>

definition geminiSelectors :: "string list" where
  \<open>geminiSelectors =
     [''.ql-editor'',
      ''rich-textarea .ql-editor'',
      ''rich-textarea [contenteditable="true"]'',
      ''[contenteditable="true"]'',
      ''textarea'',
      ''[aria-label*="prompt" i]'',
      ''[aria-label*="Enter a prompt" i]'',
      ''[placeholder*="Enter a prompt" i]'',
      ''[placeholder*="Ask Gemini" i]'',
      ''input[type="text"]'',
      ''[role="textbox"]'']\<close>

text \<open>\<open>submitQuery\<close> of \<open>server.js\<close>: \<open>Inl\<close> is the exception it lets escape.\<close>

definition submitQuery :: "input_page \<Rightarrow> error + bool" where
  "submitQuery page =
     (case scrollOutcome page of
        Some err \<Rightarrow> Inl err
      | None \<Rightarrow> Inr (trySelectors (candidates page) perplexitySelectors))"

text \<open>\<open>submitQuery\<close> of \<open>gemini-server.js\<close>.\<close>

definition geminiSubmitQuery :: "input_page \<Rightarrow> error + bool" where
  "geminiSubmitQuery page =
     (case scrollOutcome page of
        Some err \<Rightarrow> Inl err
      | None \<Rightarrow> Inr (trySelectors (candidates page) geminiSelectors))"

section \<open>Reading the answer from the page\<close>

text \<open>
  \<open>extractAnswer\<close> runs inside the page. The document is modelled by what it answers to
  \<open>querySelectorAll\<close>, and an element by the texts and the ancestor tests the code asks
  of it. The attribute \<open>data-prev-len\<close> that \<open>extractAnswer\<close> leaves on the body is
  \<open>prevLen\<close> (\<open>0\<close> when absent).
\<close>

record 'el dom =
  querySelectorAll :: "string \<Rightarrow> 'el list"
  prevLen :: nat

definition keepLonger :: "string \<Rightarrow> string \<Rightarrow> string" where
  "keepLonger best t = (if length t > length best then t else best)"

subsection \<open>Perplexity (\<open>server.js\<close>)\<close>

text \<open>
  \<open>cleanedText\<close> is \<open>(clone.innerText || clone.textContent || '').trim()\<close> and
  \<open>cleanedInnerText\<close> is \<open>(clone.innerText || '').trim()\<close>, both on the clone with the
  citation badges removed. \<open>citationEls\<close> lists, for each element carrying
  \<open>data-pplx-citation-url\<close>, that url and its label; \<open>externalLinks\<close> lists the
  \<open>href\<close> and trimmed text of the external links.
\<close>

record perplexity_element =
  cleanedText :: string
  cleanedInnerText :: string

record perplexity_dom = "perplexity_element dom" +
  citationEls :: "(string \<times> string) list"
  externalLinks :: "(string \<times> string) list"

fun joinParagraphs :: "string list \<Rightarrow> string" where
  "joinParagraphs [] = []"
| "joinParagraphs [p] = p"
| "joinParagraphs (p # ps) = p @ [CHR 0x0A, CHR 0x0A] @ joinParagraphs ps"

definition fallbackSels :: "string list" where
  \<open>fallbackSels =
     [''[class*="MarkdownBlock"]'', ''[class*="answer"]'',
      ''[class*="response"]'', ''[data-testid*="answer"]'',
      ''article'', ''main'']\<close>

definition proseSelector :: string where
  "proseSelector = ''.prose.dark'' @ [CHR 0x5C] @ '':prose-invert''"

definition addCitation :: "citation list \<Rightarrow> string \<times> string \<Rightarrow> citation list" where
  "addCitation acc c =
     (case c of (u, label) \<Rightarrow>
        if u \<noteq> [] \<and> u \<notin> set (map url acc)
        then acc @ [\<lparr>title = (if label \<noteq> [] then label else u), url = u\<rparr>]
        else acc)"

definition addLink :: "citation list \<Rightarrow> string \<times> string \<Rightarrow> citation list" where
  "addLink acc l =
     (case l of (u, t) \<Rightarrow>
        if u \<noteq> [] \<and> u \<notin> set (map url acc) \<and> length t > 2 \<and> length t < 200
        then acc @ [\<lparr>title = t, url = u\<rparr>]
        else acc)"

definition extractAnswer ::
  "perplexity_dom \<Rightarrow> perplexity_extraction \<times> perplexity_dom" where
  \<open>extractAnswer doc =
     (let paragraphs = filter (\<lambda>text. length text > 5)
                         (map cleanedText (querySelectorAll doc proseSelector));
          joined = joinParagraphs paragraphs;
          best =
            (if length joined < 30
             then foldl keepLonger joined
                    (concat (map (\<lambda>sel. map cleanedInnerText (querySelectorAll doc sel))
                       fallbackSels))
             else joined);
          cited = foldl addCitation [] (citationEls doc);
          srcs = (if cited = [] then foldl addLink [] (externalLinks doc) else cited);
          spinner = (querySelectorAll doc ''[class*="animate-spin"]'' \<noteq> [] \<or>
                     querySelectorAll doc ''[class*="animate-pulse"]'' \<noteq> [] \<or>
                     querySelectorAll doc ''[class*="Spinner"]'' \<noteq> [] \<or>
                     querySelectorAll doc ''.loading-spinner'' \<noteq> []);
          isGrowing = (length best > prevLen doc \<and> prevLen doc > 0)
      in (\<lparr>answerText = best, isLoading = (spinner \<or> isGrowing),
            extractedSources = srcs\<rparr>,
          doc\<lparr>prevLen := length best\<rparr>))\<close>

subsection \<open>Gemini (\<open>gemini-server.js\<close>)\<close>

text \<open>
  \<open>cleanText\<close> is the helper of that name applied to the element; \<open>strippedText\<close>
  is the text of strategy 5 (only the visually hidden spans and the buttons removed);
  \<open>inUserQuery\<close> is \<open>el.closest('user-query') || el.closest('[class*="user-query"]')\<close>
  and \<open>inEditor\<close> is the test for \<open>.ql-editor\<close>, \<open>rich-textarea\<close> and
  \<open>[role="textbox"]\<close> ancestors.
\<close>

record gemini_element =
  cleanText :: string
  strippedText :: string
  inUserQuery :: bool
  inEditor :: bool

definition keepLastOf :: "gemini_element list \<Rightarrow> string \<Rightarrow> string" where
  "keepLastOf els best =
     (if els \<noteq> [] then keepLonger best (cleanText (last els)) else best)"

definition strategy3Selectors :: "string list" where
  \<open>strategy3Selectors =
     [''message-content .markdown'',
      ''.markdown-main-panel'',
      ''response-container .markdown'',
      ''[data-speaker="model"] .markdown'',
      ''[data-role="assistant"] .markdown'',
      ''[data-speaker="model"]'',
      ''[data-role="assistant"]'']\<close>

definition strategy2Selector :: string where
  "strategy2Selector =
     ''.response-container-content .markdown, '' @
     ''.response-container-content message-content .markdown, '' @
     ''.response-container-content''"

text \<open>Strategies 1 to 5: the best reading of the answer, before the echo guard.\<close>

definition geminiReading :: "gemini_element dom \<Rightarrow> string" where
  \<open>geminiReading doc =
     (let q = querySelectorAll doc;
          a1 = (if q ''model-response'' \<noteq> [] then
                  (let b = keepLastOf (q ''model-response .markdown'') []
                   in if length b < 30 then keepLastOf (q ''model-response'') b else b)
                else []);
          a2 = (if length a1 < 30
                then foldl keepLonger a1
                       (map cleanText (filter (\<lambda>el. \<not> inUserQuery el) (q strategy2Selector)))
                else a1);
          a3 = (if length a2 < 30
                then foldl (\<lambda>acc sel. keepLastOf (filter (\<lambda>el. \<not> inUserQuery el) (q sel)) acc)
                       a2 strategy3Selectors
                else a2);
          a4 = (if length a3 < 30
                then foldl keepLonger a3
                       (map cleanText
                          (filter (\<lambda>el. \<not> inUserQuery el \<and> \<not> inEditor el)
                             (q ''[class*="markdown"], [class*="Markdown"]'')))
                else a3)
      in if length a4 < 30
         then (case q ''model-response'' of
                 [] \<Rightarrow> a4
               | el # _ \<Rightarrow> keepLonger a4 (strippedText el))
         else a4)\<close>

text \<open>
  The echo guard:
  \<^verbatim>\<open>
  if (inputQuery && answerText) {
      const norm = s => s.replace(/\s+/g, ' ').trim().toLowerCase();
      const normAnswer = norm(answerText);
      const normQuery = norm(inputQuery);
      if (normAnswer === normQuery ||
          normAnswer.startsWith(normQuery.slice(0, 120)) ||
          normAnswer.startsWith('you said ' + normQuery.slice(0, 100)) ||
          normAnswer.replace(/^you said\s*/i, '').startsWith(normQuery.slice(0, 120)))
          answerText = '';
  }
  \<close>
\<close>

definition isSpace :: "char \<Rightarrow> bool" where
  "isSpace c \<longleftrightarrow>
     c \<in> {CHR 0x09, CHR 0x0A, CHR 0x0B, CHR 0x0C, CHR 0x0D, CHR 0x20, CHR 0xA0}"

definition lowerChar :: "char \<Rightarrow> char" where
  "lowerChar c =
     (let n = (of_char c :: nat)
      in if (65 \<le> n \<and> n \<le> 90) \<or> (192 \<le> n \<and> n \<le> 222 \<and> n \<noteq> 215)
         then char_of (n + 32) else c)"

function collapseSpaces :: "string \<Rightarrow> string" where
  "collapseSpaces [] = []"
| "collapseSpaces (c # cs) =
     (if isSpace c then CHR 0x20 # collapseSpaces (dropWhile isSpace cs)
      else c # collapseSpaces cs)"
  by pat_completeness auto
termination
  by (relation "measure length") (auto simp: length_dropWhile_le less_Suc_eq_le)

definition trim :: "string \<Rightarrow> string" where
  "trim s = rev (dropWhile isSpace (rev (dropWhile isSpace s)))"

definition norm :: "string \<Rightarrow> string" where
  "norm s = map lowerChar (trim (collapseSpaces s))"

definition dropYouSaid :: "string \<Rightarrow> string" where
  "dropYouSaid s =
     (if map lowerChar (take 8 s) = ''you said'' then dropWhile isSpace (drop 8 s) else s)"

definition echoGuard :: "string \<Rightarrow> string \<Rightarrow> string" where
  "echoGuard inputQuery best =
     (if inputQuery \<noteq> [] \<and> best \<noteq> [] then
        (let normAnswer = norm best;
             normQuery = norm inputQuery
         in if normAnswer = normQuery \<or>
               prefix (take 120 normQuery) normAnswer \<or>
               prefix (''you said '' @ take 100 normQuery) normAnswer \<or>
               prefix (take 120 normQuery) (dropYouSaid normAnswer)
            then [] else best)
      else best)"

definition geminiExtractAnswer ::
  "gemini_element dom \<Rightarrow> string \<Rightarrow> gemini_extraction \<times> gemini_element dom" where
  \<open>geminiExtractAnswer doc query =
     (let best = echoGuard query (geminiReading doc);
          stillGenerating = (querySelectorAll doc ''pending-response'' \<noteq> []);
          isGrowing = (length best > prevLen doc \<and> prevLen doc > 0)
      in (\<lparr>answerText = best, isLoading = (stillGenerating \<or> isGrowing),
            modelResponseExists = (querySelectorAll doc ''model-response'' \<noteq> [])\<rparr>,
          doc\<lparr>prevLen := length best\<rparr>))\<close>

section \<open>The polling loop\<close>

text \<open>
  The working state of one execution: the three variables of the source, and \<open>chunks\<close>,
  the strings passed to \<open>onChunk\<close> so far, in order. \<open>onChunk\<close> itself is modelled by
  whether the caller supplied it.
\<close>

record poll_state =
  lastText :: string
  stableCount :: nat
  lastChunkedLength :: nat
  chunks :: "string list"

definition initialPollState :: poll_state where
  "initialPollState = \<lparr>lastText = [], stableCount = 0, lastChunkedLength = 0, chunks = []\<rparr>"

text \<open>
  \<^verbatim>\<open>
  if (onChunk && extraction.answerText.length > lastChunkedLength) {
      const newContent = extraction.answerText.slice(lastChunkedLength);
      onChunk(newContent);
      lastChunkedLength = extraction.answerText.length;
  }
  \<close>
\<close>

definition emitChunk :: "bool \<Rightarrow> string \<Rightarrow> poll_state \<Rightarrow> poll_state" where
  "emitChunk onChunk txt st =
     (if onChunk \<and> length txt > lastChunkedLength st
      then st\<lparr>chunks := chunks st @ [drop (lastChunkedLength st) txt],
              lastChunkedLength := length txt\<rparr>
      else st)"

text \<open>One pass through the loop body either returns from the function or goes on.\<close>

datatype 'a iter = Return 'a poll_state | Continue poll_state

text \<open>
  The body of the loop of \<open>queryPerplexity\<close> (\<open>server.js\<close>), after \<open>extractAnswer\<close>
  has returned:
  \<^verbatim>\<open>
  if (extraction.answerText) {
      ... onChunk ...
      if (extraction.answerText === lastText) {
          stableCount++;
          if ((!extraction.isLoading && stableCount >= 3) || stableCount >= 8) {
              return { answer: extraction.answerText, sources: extraction.sources };
          }
      } else {
          stableCount = 0;
      }
      lastText = extraction.answerText;
  }
  \<close>
\<close>

definition perplexityPoll ::
  "bool \<Rightarrow> poll_state \<Rightarrow> perplexity_extraction \<Rightarrow> sourced_answer iter" where
  "perplexityPoll onChunk st extraction =
     (if answerText extraction \<noteq> [] then
        (let st1 = emitChunk onChunk (answerText extraction) st
         in if answerText extraction = lastText st1 then
              (let st2 = st1\<lparr>stableCount := stableCount st1 + 1\<rparr>
               in if (\<not> isLoading extraction \<and> stableCount st2 \<ge> 3) \<or> stableCount st2 \<ge> 8
                  then Return \<lparr>answer = answerText extraction,
                               sources = extractedSources extraction\<rparr> st2
                  else Continue (st2\<lparr>lastText := answerText extraction\<rparr>))
            else Continue (st1\<lparr>stableCount := 0, lastText := answerText extraction\<rparr>))
      else Continue st)"

text \<open>
  The body of the loop of \<open>queryGemini\<close> (\<open>gemini-server.js\<close>):
  \<^verbatim>\<open>
  if (extraction.answerText && extraction.answerText.length > 10) {
      ... onChunk ...
      if (extraction.answerText === lastText) {
          stableCount++;
          const doneThreshold = extraction.modelResponseExists ? 2 : 5;
          if ((!extraction.isLoading && stableCount >= doneThreshold) || stableCount >= 10) {
              return { answer: extraction.answerText };
          }
      } else {
          stableCount = 0;
      }
      lastText = extraction.answerText;
  } else if (extraction.modelResponseExists && lastText) {
      return { answer: lastText };
  }
  \<close>
\<close>

definition geminiPoll ::
  "bool \<Rightarrow> poll_state \<Rightarrow> gemini_extraction \<Rightarrow> answer_only iter" where
  "geminiPoll onChunk st extraction =
     (if answerText extraction \<noteq> [] \<and> length (answerText extraction) > 10 then
        (let st1 = emitChunk onChunk (answerText extraction) st
         in if answerText extraction = lastText st1 then
              (let st2 = st1\<lparr>stableCount := stableCount st1 + 1\<rparr>;
                   doneThreshold = (if modelResponseExists extraction then 2 else 5)
               in if (\<not> isLoading extraction \<and> stableCount st2 \<ge> doneThreshold)
                     \<or> stableCount st2 \<ge> 10
                  then Return \<lparr>answer = answerText extraction\<rparr> st2
                  else Continue (st2\<lparr>lastText := answerText extraction\<rparr>))
            else Continue (st1\<lparr>stableCount := 0, lastText := answerText extraction\<rparr>))
      else if modelResponseExists extraction \<and> lastText st \<noteq> []
      then Return \<lparr>answer = lastText st\<rparr> st
      else Continue st)"

text \<open>
  The loop itself, \<open>while (Date.now() - start < MAX_TIMEOUT) { ...; await sleep(1000) }\<close>.
  The page and the clock are the environment: poll number \<open>i\<close> makes
  \<open>extractAnswer\<close> throw or return an extraction, and \<open>lag\<close> is the time in
  milliseconds this pass takes beyond the 1000 ms of the timer. \<open>elapsed\<close> is
  \<open>Date.now() - start\<close> when the loop condition is evaluated. The result records how
  the loop was left, the state then, the number of calls of \<open>extractAnswer\<close> made
  (\<open>polled\<close>) and the value of \<open>elapsed\<close> at the last evaluation of the loop condition
  (\<open>clock\<close>). An exception of \<open>extractAnswer\<close> is caught nowhere in the loop.
\<close>

record 'e poll =
  lag :: nat
  outcome :: "error + 'e"

datatype 'a loop_exit = Returned 'a | Threw error | DeadlineReached

record 'a loop_result =
  exit :: "'a loop_exit"
  final :: poll_state
  polled :: nat
  clock :: nat

definition MAX_TIMEOUT :: nat where
  "MAX_TIMEOUT = 120000"

function perplexityLoop ::
  "(nat \<Rightarrow> perplexity_extraction poll) \<Rightarrow> bool \<Rightarrow> nat \<Rightarrow> nat \<Rightarrow> poll_state
     \<Rightarrow> sourced_answer loop_result" where
  "perplexityLoop polls onChunk i elapsed st =
     (if elapsed < MAX_TIMEOUT then
        (case outcome (polls i) of
           Inl err \<Rightarrow> \<lparr>exit = Threw err, final = st, polled = Suc i, clock = elapsed\<rparr>
         | Inr extraction \<Rightarrow>
             (case perplexityPoll onChunk st extraction of
                Return result st' \<Rightarrow>
                  \<lparr>exit = Returned result, final = st', polled = Suc i, clock = elapsed\<rparr>
              | Continue st' \<Rightarrow>
                  perplexityLoop polls onChunk (Suc i) (elapsed + 1000 + lag (polls i)) st'))
      else \<lparr>exit = DeadlineReached, final = st, polled = i, clock = elapsed\<rparr>)"
  by pat_completeness auto
termination
  by (relation "measure (\<lambda>(polls, onChunk, i, elapsed, st). MAX_TIMEOUT - elapsed)") auto

declare perplexityLoop.simps [simp del]

text \<open>
  In \<open>gemini-server.js\<close> the loop condition is \<open>Date.now() - start < 120000\<close>, whatever
  \<open>MAX_TIMEOUT\<close> is there.
\<close>

function geminiLoop ::
  "(nat \<Rightarrow> gemini_extraction poll) \<Rightarrow> bool \<Rightarrow> nat \<Rightarrow> nat \<Rightarrow> poll_state
     \<Rightarrow> answer_only loop_result" where
  "geminiLoop polls onChunk i elapsed st =
     (if elapsed < 120000 then
        (case outcome (polls i) of
           Inl err \<Rightarrow> \<lparr>exit = Threw err, final = st, polled = Suc i, clock = elapsed\<rparr>
         | Inr extraction \<Rightarrow>
             (case geminiPoll onChunk st extraction of
                Return result st' \<Rightarrow>
                  \<lparr>exit = Returned result, final = st', polled = Suc i, clock = elapsed\<rparr>
              | Continue st' \<Rightarrow>
                  geminiLoop polls onChunk (Suc i) (elapsed + 1000 + lag (polls i)) st'))
      else \<lparr>exit = DeadlineReached, final = st, polled = i, clock = elapsed\<rparr>)"
  by pat_completeness auto
termination
  by (relation "measure (\<lambda>(polls, onChunk, i, elapsed, st). 120000 - elapsed)") auto

declare geminiLoop.simps [simp del]

text \<open>
  After the loop:
  \<^verbatim>\<open>
  if (lastText) { return { answer: lastText, sources: [] }; }
  throw new Error('Timeout: no answer received from Perplexity');
  \<close>
  and in \<open>gemini-server.js\<close> \<open>return { answer: lastText }\<close> and the message
  \<open>'Timeout: no answer received from Gemini'\<close>. \<open>Inl\<close> is the error the promise is
  rejected with, \<open>Inr\<close> the value it is resolved with.
\<close>

definition perplexityOutcome :: "sourced_answer loop_result \<Rightarrow> error + sourced_answer" where
  "perplexityOutcome r =
     (case exit r of
        Returned result \<Rightarrow> Inr result
      | Threw err \<Rightarrow> Inl err
      | DeadlineReached \<Rightarrow>
          if lastText (final r) \<noteq> []
          then Inr \<lparr>answer = lastText (final r), sources = []\<rparr>
          else Inl (Error ''Timeout: no answer received from Perplexity''))"

definition geminiOutcome :: "answer_only loop_result \<Rightarrow> error + answer_only" where
  "geminiOutcome r =
     (case exit r of
        Returned result \<Rightarrow> Inr result
      | Threw err \<Rightarrow> Inl err
      | DeadlineReached \<Rightarrow>
          if lastText (final r) \<noteq> []
          then Inr \<lparr>answer = lastText (final r)\<rparr>
          else Inl (Error ''Timeout: no answer received from Gemini''))"

section \<open>The two engines\<close>

text \<open>
  One execution, from the \<open>try\<close> of \<open>queryPerplexity\<close> / \<open>queryGemini\<close> on, with the page
  that \<open>createPage\<close> has returned; \<open>createPage\<close> itself, and a call from its first
  statement on, follow in the next section. The environment of an execution says what the
  page does: whether \<open>page.goto\<close> throws, how the page answers \<open>submitQuery\<close>, how late
  the first evaluation of the loop condition is (\<open>startLag\<close>), what the polls return, and
  whether \<open>page.close()\<close> and \<open>context.close()\<close> reject.
\<close>

record 'e session =
  gotoOutcome :: "error option"
  inputPage :: input_page
  startLag :: nat
  polls :: "nat \<Rightarrow> 'e poll"
  pageClose :: "error option"
  contextClose :: "error option"

text \<open>
  In \<open>queryGemini\<close> two more calls outside any \<open>try\<close>/\<open>catch\<close> can throw: the
  \<open>page.evaluate\<close> that dismisses dialogs, and the debug dump (\<open>page.content()\<close> and
  \<open>fs.writeFileSync\<close>) made when \<open>submitQuery\<close> returned false.
\<close>

record gemini_session = "gemini_extraction session" +
  dismissOutcome :: "error option"
  debugDumpOutcome :: "error option"

datatype resource = Page | BrowserContext

text \<open>
  What an execution leaves behind: the value its promise settles with, the result of the
  polling loop when the loop was entered, and the resources on which \<open>close()\<close> has been
  called, in order.
\<close>

record 'a execution =
  settled :: "error + 'a"
  polling :: "'a loop_result option"
  released :: "resource list"

text \<open>\<open>p.catch(() => { })\<close>: a rejection of \<open>p\<close> is swallowed.\<close>

definition catchAll :: "error option \<Rightarrow> error option" where
  "catchAll p = None"

text \<open>
  The \<open>try\<close> block of \<open>queryPerplexity\<close>: navigation, \<open>submitQuery\<close>, the 5 s
  wait after \<open>start = Date.now()\<close>, the loop, and the statements after the loop.
\<close>

definition perplexityTry ::
  "perplexity_extraction session \<Rightarrow> string \<Rightarrow> bool
     \<Rightarrow> (error + sourced_answer) \<times> sourced_answer loop_result option" where
  "perplexityTry page query onChunk =
     (case gotoOutcome page of
        Some err \<Rightarrow> (Inl err, None)
      | None \<Rightarrow>
          (case submitQuery (inputPage page) of
             Inl err \<Rightarrow> (Inl err, None)
           | Inr submitted \<Rightarrow>
               if \<not> submitted
               then (Inl (Error ''Could not find input field on Perplexity page''), None)
               else
                 (let r = perplexityLoop (polls page) onChunk 0 (5000 + startLag page)
                            initialPollState
                  in (perplexityOutcome r, Some r))))"

text \<open>
  \<open>finally { await page.close().catch(() => { }); await context.close().catch(() => { }); }\<close>:
  an exception escaping the \<open>finally\<close> block would replace the result of the \<open>try\<close>.
\<close>

definition queryPerplexity ::
  "perplexity_extraction session \<Rightarrow> string \<Rightarrow> bool \<Rightarrow> sourced_answer execution" where
  "queryPerplexity page query onChunk =
     (case perplexityTry page query onChunk of
        (result, loop) \<Rightarrow>
          (case catchAll (pageClose page) of
             Some err \<Rightarrow> \<lparr>settled = Inl err, polling = loop, released = [Page]\<rparr>
           | None \<Rightarrow>
               (case catchAll (contextClose page) of
                  Some err \<Rightarrow>
                    \<lparr>settled = Inl err, polling = loop, released = [Page, BrowserContext]\<rparr>
                | None \<Rightarrow>
                    \<lparr>settled = result, polling = loop, released = [Page, BrowserContext]\<rparr>)))"

text \<open>
  The \<open>try\<close> block of \<open>queryGemini\<close>. The waits for \<open>pending-response\<close> and for the
  end of the generation, and the debug snapshot, are each inside a \<open>try\<close>/\<open>catch\<close> of
  their own and come before \<open>start = Date.now()\<close>, so they leave no trace here.
\<close>

definition geminiTry ::
  "gemini_session \<Rightarrow> string \<Rightarrow> bool \<Rightarrow> (error + answer_only) \<times> answer_only loop_result option"
  where
  "geminiTry page query onChunk =
     (case gotoOutcome page of
        Some err \<Rightarrow> (Inl err, None)
      | None \<Rightarrow>
          (case dismissOutcome page of
             Some err \<Rightarrow> (Inl err, None)
           | None \<Rightarrow>
               (case geminiSubmitQuery (inputPage page) of
                  Inl err \<Rightarrow> (Inl err, None)
                | Inr submitted \<Rightarrow>
                    if \<not> submitted
                    then
                      (case debugDumpOutcome page of
                         Some err \<Rightarrow> (Inl err, None)
                       | None \<Rightarrow>
                           (Inl (Error ''Could not find input field on Gemini page''), None))
                    else
                      (let r = geminiLoop (polls page) onChunk 0 (startLag page)
                                 initialPollState
                       in (geminiOutcome r, Some r)))))"

text \<open>
  \<open>createPage\<close> of \<open>gemini-server.js\<close> opens the page in the default context and
  returns \<open>context: null\<close>; \<open>finally { await page.close().catch(() => { }); }\<close>.
\<close>

definition queryGemini :: "gemini_session \<Rightarrow> string \<Rightarrow> bool \<Rightarrow> answer_only execution" where
  "queryGemini page query onChunk =
     (case geminiTry page query onChunk of
        (result, loop) \<Rightarrow>
          (case catchAll (pageClose page) of
             Some err \<Rightarrow> \<lparr>settled = Inl err, polling = loop, released = [Page]\<rparr>
           | None \<Rightarrow> \<lparr>settled = result, polling = loop, released = [Page]\<rparr>))"

text \<open>The deltas a caller has received: the chunks of the loop, none if it never ran.\<close>

definition deltas :: "'a execution \<Rightarrow> string list" where
  "deltas ex = (case polling ex of None \<Rightarrow> [] | Some r \<Rightarrow> chunks (final r))"

section \<open>A call as a whole: \<open>createPage\<close>, then the \<open>try\<close> statement\<close>

text \<open>
  \<open>queryPerplexity\<close> and \<open>queryGemini\<close> begin with
  \<^verbatim>\<open>const { page, context } = await createPage();\<close>, before their \<open>try\<close>. In \<open>server.js\<close>:
  \<^verbatim>\<open>
  async function createPage() {
      const b = await ensureBrowser();
      const context = await b.createBrowserContext();
      const page = await context.newPage();
      await page.evaluateOnNewDocument(() => { ... });
      await page.setUserAgent('Mozilla/5.0 ...');
      return { page, context };
  }
  \<close>
  and in \<open>gemini-server.js\<close>:
  \<^verbatim>\<open>
  async function createPage() {
      const b = await ensureBrowser();
      // Open a regular page in the default context so it's visible in the browser window
      const page = await b.newPage();
      await page.evaluateOnNewDocument(() => { ... });
      await page.setUserAgent('Mozilla/5.0 ...');
      await page.bringToFront();
      return { page, context: null };
  }
  \<close>
  The second \<open>queryGemini\<close> of \<open>gemini-server.js\<close> (from line 1038 on) and the unified
  server create and close a context as \<open>server.js\<close> does.
  Every awaited call may reject, and \<open>createPage\<close> has no \<open>try\<close> of its own: the
  rejection leaves \<open>createPage\<close> and then \<open>queryPerplexity\<close> / \<open>queryGemini\<close>, whose
  \<open>try\<close> statement has not been entered. The environment says for each awaited call
  whether it rejects.
\<close>

datatype create_step =
  EnsureBrowser | CreateBrowserContext | NewPage | EvaluateOnNewDocument | SetUserAgent
  | BringToFront

text \<open>
  What \<open>createPage\<close> leaves behind: \<open>None\<close> when it has returned the page, or the
  error it was left with; and what it has opened until then, in order.
\<close>

record creation =
  createOutcome :: "error option"
  created :: "resource list"

definition createPage :: "(create_step \<Rightarrow> error option) \<Rightarrow> creation" where
  "createPage browser =
     (case browser EnsureBrowser of
        Some err \<Rightarrow> \<lparr>createOutcome = Some err, created = []\<rparr>
      | None \<Rightarrow>
          (case browser CreateBrowserContext of
             Some err \<Rightarrow> \<lparr>createOutcome = Some err, created = []\<rparr>
           | None \<Rightarrow>
               (case browser NewPage of
                  Some err \<Rightarrow> \<lparr>createOutcome = Some err, created = [BrowserContext]\<rparr>
                | None \<Rightarrow>
                    (case browser EvaluateOnNewDocument of
                       Some err \<Rightarrow>
                         \<lparr>createOutcome = Some err, created = [BrowserContext, Page]\<rparr>
                     | None \<Rightarrow>
                         (case browser SetUserAgent of
                            Some err \<Rightarrow>
                              \<lparr>createOutcome = Some err, created = [BrowserContext, Page]\<rparr>
                          | None \<Rightarrow>
                              \<lparr>createOutcome = None, created = [BrowserContext, Page]\<rparr>)))))"

definition geminiCreatePage :: "(create_step \<Rightarrow> error option) \<Rightarrow> creation" where
  "geminiCreatePage browser =
     (case browser EnsureBrowser of
        Some err \<Rightarrow> \<lparr>createOutcome = Some err, created = []\<rparr>
      | None \<Rightarrow>
          (case browser NewPage of
             Some err \<Rightarrow> \<lparr>createOutcome = Some err, created = []\<rparr>
           | None \<Rightarrow>
               (case browser EvaluateOnNewDocument of
                  Some err \<Rightarrow> \<lparr>createOutcome = Some err, created = [Page]\<rparr>
                | None \<Rightarrow>
                    (case browser SetUserAgent of
                       Some err \<Rightarrow> \<lparr>createOutcome = Some err, created = [Page]\<rparr>
                     | None \<Rightarrow>
                         (case browser BringToFront of
                            Some err \<Rightarrow> \<lparr>createOutcome = Some err, created = [Page]\<rparr>
                          | None \<Rightarrow> \<lparr>createOutcome = None, created = [Page]\<rparr>)))))"

text \<open>
  What a call leaves behind: the value its promise settles with, the execution of the
  \<open>try\<close> statement when it was entered, what \<open>createPage\<close> has opened, and the calls
  of \<open>close()\<close> with their outcomes (\<open>None\<close>: fulfilled), in order.
\<close>

record 'a call =
  promise :: "error + 'a"
  tryStatement :: "'a execution option"
  opened :: "resource list"
  closeCalls :: "(resource \<times> error option) list"

definition closeOutcome :: "('e, 'z) session_scheme \<Rightarrow> resource \<Rightarrow> error option" where
  "closeOutcome page r = (case r of Page \<Rightarrow> pageClose page | BrowserContext \<Rightarrow> contextClose page)"

definition callQueryPerplexity ::
  "(create_step \<Rightarrow> error option) \<Rightarrow> perplexity_extraction session \<Rightarrow> string \<Rightarrow> bool
     \<Rightarrow> sourced_answer call" where
  "callQueryPerplexity browser page query onChunk =
     (case createOutcome (createPage browser) of
        Some err \<Rightarrow>
          \<lparr>promise = Inl err, tryStatement = None, opened = created (createPage browser),
           closeCalls = []\<rparr>
      | None \<Rightarrow>
          (let ex = queryPerplexity page query onChunk
           in \<lparr>promise = settled ex, tryStatement = Some ex,
               opened = created (createPage browser),
               closeCalls = map (\<lambda>r. (r, closeOutcome page r)) (released ex)\<rparr>))"

definition callQueryGemini ::
  "(create_step \<Rightarrow> error option) \<Rightarrow> gemini_session \<Rightarrow> string \<Rightarrow> bool \<Rightarrow> answer_only call"
  where
  "callQueryGemini browser page query onChunk =
     (case createOutcome (geminiCreatePage browser) of
        Some err \<Rightarrow>
          \<lparr>promise = Inl err, tryStatement = None, opened = created (geminiCreatePage browser),
           closeCalls = []\<rparr>
      | None \<Rightarrow>
          (let ex = queryGemini page query onChunk
           in \<lparr>promise = settled ex, tryStatement = Some ex,
               opened = created (geminiCreatePage browser),
               closeCalls = map (\<lambda>r. (r, closeOutcome page r)) (released ex)\<rparr>))"

text \<open>What a call has opened and no fulfilled \<open>close()\<close> has closed.\<close>

definition notClosed :: "'a call \<Rightarrow> resource list" where
  "notClosed c = filter (\<lambda>r. (r, None) \<notin> set (closeCalls c)) (opened c)"

section \<open>Describing what the polls show\<close>

text \<open>
  The vocabulary of the statements below. \<open>textOf\<close> is the text a poll delivers (none
  when \<open>extractAnswer\<close> threw), \<open>showsText\<close> says that a poll delivers a given text,
  \<open>showsAtMost10\<close> that it delivers a text of at most 10 code units,
  \<open>idle\<close> that it delivers \<open>isLoading = false\<close>.
\<close>

definition textOf :: "'m sample_scheme poll \<Rightarrow> string" where
  "textOf p = (case outcome p of Inl err \<Rightarrow> [] | Inr e \<Rightarrow> answerText e)"

definition showsText :: "'m sample_scheme poll \<Rightarrow> string \<Rightarrow> bool" where
  "showsText p t = (case outcome p of Inl err \<Rightarrow> False | Inr e \<Rightarrow> answerText e = t)"

definition showsAtMost10 :: "'m sample_scheme poll \<Rightarrow> bool" where
  "showsAtMost10 p = (case outcome p of Inl err \<Rightarrow> False | Inr e \<Rightarrow> length (answerText e) \<le> 10)"

definition idle :: "'m sample_scheme poll \<Rightarrow> bool" where
  "idle p = (case outcome p of Inl err \<Rightarrow> False | Inr e \<Rightarrow> \<not> isLoading e)"

definition sourcesOf :: "perplexity_extraction poll \<Rightarrow> citation list" where
  "sourcesOf p = (case outcome p of Inl err \<Rightarrow> [] | Inr e \<Rightarrow> extractedSources e)"

definition modelDone :: "gemini_extraction poll \<Rightarrow> bool" where
  "modelDone p = (case outcome p of Inl err \<Rightarrow> False | Inr e \<Rightarrow> modelResponseExists e)"

text \<open>
  The value of \<open>Date.now() - start\<close> at the loop condition \<open>n\<close> passes after the one
  that poll \<open>i\<close> follows, when none of these passes leaves the loop.
\<close>

fun elapsedAfter :: "(nat \<Rightarrow> 'e poll) \<Rightarrow> nat \<Rightarrow> nat \<Rightarrow> nat \<Rightarrow> nat" where
  "elapsedAfter ps i elapsed 0 = elapsed"
| "elapsedAfter ps i elapsed (Suc n) = elapsedAfter ps (Suc i) (elapsed + 1000 + lag (ps i)) n"

text \<open>
  The texts that the first \<open>n\<close> polls delivered and that the engine takes into account:
  the non-empty ones in \<open>server.js\<close>, those longer than 10 in \<open>gemini-server.js\<close>.
\<close>

definition nonEmpty :: "string \<Rightarrow> bool" where
  "nonEmpty t \<longleftrightarrow> t \<noteq> []"

definition longerThan10 :: "string \<Rightarrow> bool" where
  "longerThan10 t \<longleftrightarrow> length t > 10"

definition observedTexts ::
  "(string \<Rightarrow> bool) \<Rightarrow> (nat \<Rightarrow> 'm sample_scheme poll) \<Rightarrow> nat \<Rightarrow> string list" where
  "observedTexts accepted ps n = filter accepted (map (\<lambda>j. textOf (ps j)) [0..<n])"

definition lastOr :: "string list \<Rightarrow> string" where
  "lastOr ts = (if ts = [] then [] else last ts)"

text \<open>
  A sequence of polls in which \<open>extractAnswer\<close> never throws; one in which no
  accepted text equals the accepted text before it, so that \<open>stableCount\<close> never
  leaves 0; and, for \<open>gemini-server.js\<close>, one in which no short sample comes with a
  \<open>model-response\<close> element once a longer text has been accepted.
\<close>

definition neverThrows :: "(nat \<Rightarrow> 'e poll) \<Rightarrow> bool" where
  "neverThrows ps \<longleftrightarrow> (\<forall>k. \<exists>e. outcome (ps k) = Inr e)"

definition neverRepeats :: "(string \<Rightarrow> bool) \<Rightarrow> (nat \<Rightarrow> 'm sample_scheme poll) \<Rightarrow> bool" where
  "neverRepeats accepted ps \<longleftrightarrow>
     (\<forall>k. accepted (textOf (ps k)) \<longrightarrow>
        textOf (ps k) \<noteq> lastOr (observedTexts accepted ps k))"

definition noFallback :: "(nat \<Rightarrow> gemini_extraction poll) \<Rightarrow> bool" where
  "noFallback ps \<longleftrightarrow>
     (\<forall>k. showsAtMost10 (ps k) \<and> modelDone (ps k) \<longrightarrow>
        observedTexts longerThan10 ps k = [])"

text \<open>
  Append-only growth: of any two accepted texts, the earlier is a prefix of the later.
\<close>

definition appendOnly :: "(string \<Rightarrow> bool) \<Rightarrow> (nat \<Rightarrow> 'm sample_scheme poll) \<Rightarrow> bool" where
  "appendOnly accepted ps \<longleftrightarrow>
     (\<forall>i j. i \<le> j \<and> accepted (textOf (ps i)) \<and> accepted (textOf (ps j)) \<longrightarrow>
        prefix (textOf (ps i)) (textOf (ps j)))"

text \<open>The state a pass through the loop body leaves.\<close>

fun afterPass :: "'a iter \<Rightarrow> poll_state" where
  "afterPass (Return result st) = st"
| "afterPass (Continue st) = st"

section \<open>Request queue (one query at a time)\<close>

text \<open>
  The three servers share the same queue code (\<open>enqueue\<close> / \<open>processQueue\<close> in
  \<open>server.js\<close>, \<open>gemini-server.js\<close> and the unified server):
  \<^verbatim>\<open>
  const requestQueue = [];
  let processing = false;

  function enqueue(task) {
      return new Promise((resolve, reject) => {
          requestQueue.push({ task, resolve, reject });
          processQueue();
      });
  }

  async function processQueue() {
      if (processing || requestQueue.length === 0) return;
      processing = true;
      const { task, resolve, reject } = requestQueue.shift();
      try { const result = await task(); resolve(result); }
      catch (err) { reject(err); }
      finally {
          processing = false;
          if (requestQueue.length > 0) processQueue();
      }
  }
  \<close>
  JavaScript runs these functions on one thread, so the observable events are the calls
  of \<open>enqueue\<close> and the resumptions of \<open>processQueue\<close> after \<open>await task()\<close>, when the
  promise of a running task has settled. A job is identified by the number of the
  \<open>enqueue\<close> call that created it. Besides the two variables of the source the
  state carries three observation fields: the jobs whose task function has been called and
  whose promise has not settled yet (\<open>executing\<close>), the log of task starts
  (\<open>started\<close>) and the log of \<open>resolve\<close>/\<open>reject\<close> calls (\<open>settledJobs\<close>).
\<close>

record queue_state =
  requestQueue :: "nat list"
  processing :: bool
  enqueued :: nat
  executing :: "nat list"
  started :: "nat list"
  settledJobs :: "(nat \<times> bool) list"

definition initialQueue :: queue_state where
  "initialQueue =
     \<lparr>requestQueue = [], processing = False, enqueued = 0,
      executing = [], started = [], settledJobs = []\<rparr>"

text \<open>The synchronous part of \<open>processQueue\<close>, up to \<open>await task()\<close>.\<close>

definition processQueue :: "queue_state \<Rightarrow> queue_state" where
  "processQueue q =
     (if processing q \<or> requestQueue q = [] then q
      else
        (case requestQueue q of
           [] \<Rightarrow> q
         | job # rest \<Rightarrow>
             q\<lparr>processing := True, requestQueue := rest,
               executing := job # executing q, started := started q @ [job]\<rparr>))"

definition enqueue :: "queue_state \<Rightarrow> queue_state" where
  "enqueue q =
     processQueue
       (q\<lparr>requestQueue := requestQueue q @ [enqueued q], enqueued := Suc (enqueued q)\<rparr>)"

text \<open>
  The rest of \<open>processQueue\<close>, run when the promise of job \<open>job\<close> has settled:
  \<open>ok\<close> says whether it was fulfilled (\<open>resolve\<close>) or rejected (\<open>reject\<close>). Only a
  job that is executing can settle.
\<close>

definition taskSettled :: "nat \<Rightarrow> bool \<Rightarrow> queue_state \<Rightarrow> queue_state" where
  "taskSettled job ok q =
     (if job \<in> set (executing q) then
        (let q1 = q\<lparr>settledJobs := settledJobs q @ [(job, ok)],
                    executing := removeAll job (executing q)\<rparr>;
             q2 = q1\<lparr>processing := False\<rparr>
         in if requestQueue q2 \<noteq> [] then processQueue q2 else q2)
      else q)"

datatype queue_event = Enqueue | TaskSettled nat bool

fun queueStep :: "queue_state \<Rightarrow> queue_event \<Rightarrow> queue_state" where
  "queueStep q Enqueue = enqueue q"
| "queueStep q (TaskSettled job ok) = taskSettled job ok q"

definition runQueue :: "queue_event list \<Rightarrow> queue_state" where
  "runQueue evs = foldl queueStep initialQueue evs"

text \<open>The invariant of the queue that the serialization properties follow from.\<close>

definition queueInv :: "queue_state \<Rightarrow> bool" where
  "queueInv q \<longleftrightarrow>
     length (executing q) \<le> 1 \<and>
     (processing q \<longleftrightarrow> executing q \<noteq> []) \<and>
     (requestQueue q \<noteq> [] \<longrightarrow> processing q) \<and>
     started q @ requestQueue q = [0..<enqueued q] \<and>
     map fst (settledJobs q) @ executing q = started q"

section \<open>Example executions\<close>

text \<open>
  Concrete pages and poll sequences, used below to instantiate the theorems. A poll of
  \<open>perplexitySample txt busy ms\<close> returns the text \<open>txt\<close> with \<open>isLoading = busy\<close>
  and takes \<open>ms\<close> milliseconds beyond the timer.
\<close>

definition perplexitySample :: "string \<Rightarrow> bool \<Rightarrow> nat \<Rightarrow> perplexity_extraction poll" where
  "perplexitySample txt busy ms =
     \<lparr>lag = ms, outcome = Inr \<lparr>answerText = txt, isLoading = busy, extractedSources = []\<rparr>\<rparr>"

definition geminiSample :: "string \<Rightarrow> bool \<Rightarrow> bool \<Rightarrow> nat \<Rightarrow> gemini_extraction poll" where
  "geminiSample txt busy done ms =
     \<lparr>lag = ms,
      outcome = Inr \<lparr>answerText = txt, isLoading = busy, modelResponseExists = done\<rparr>\<rparr>"

definition failedPoll :: "string \<Rightarrow> 'e poll" where
  "failedPoll msg = \<lparr>lag = 0, outcome = Inl (Error msg)\<rparr>"

text \<open>A page whose \<open>textarea\<close> is visible and takes the query.\<close>

definition readyPage :: input_page where
  "readyPage =
     \<lparr>scrollOutcome = None,
      candidates = (\<lambda>sel. if sel = ''textarea'' then Elements [Visible True] else Elements [])\<rparr>"

text \<open>A page on which every selector matches one element, and none is visible.\<close>

definition hiddenPage :: input_page where
  "hiddenPage = \<lparr>scrollOutcome = None, candidates = (\<lambda>sel. Elements [NotVisible])\<rparr>"

definition sessionWith :: "input_page \<Rightarrow> (nat \<Rightarrow> 'e poll) \<Rightarrow> 'e session" where
  "sessionWith page ps =
     \<lparr>gotoOutcome = None, inputPage = page, startLag = 0, polls = ps,
      pageClose = None, contextClose = None\<rparr>"

definition geminiSessionWith ::
  "input_page \<Rightarrow> (nat \<Rightarrow> gemini_extraction poll) \<Rightarrow> gemini_session" where
  "geminiSessionWith page ps =
     \<lparr>gotoOutcome = None, inputPage = page, startLag = 0, polls = ps,
      pageClose = None, contextClose = None,
      dismissOutcome = None, debugDumpOutcome = None\<rparr>"

text \<open>
  A browser in which every call of \<open>createPage\<close> is fulfilled, and one in which a
  single call rejects.
\<close>

definition healthyBrowser :: "create_step \<Rightarrow> error option" where
  "healthyBrowser step = None"

definition rejectingAt :: "create_step \<Rightarrow> error \<Rightarrow> create_step \<Rightarrow> error option" where
  "rejectingAt failing err step = (if step = failing then Some err else None)"

text \<open>The text is there from the first poll and never changes.\<close>

definition steady :: "bool \<Rightarrow> nat \<Rightarrow> perplexity_extraction poll" where
  "steady busy k = perplexitySample ''Paris'' busy 0"

definition geminiSteady :: "bool \<Rightarrow> bool \<Rightarrow> nat \<Rightarrow> gemini_extraction poll" where
  "geminiSteady busy done k = geminiSample ''Paris is the capital.'' busy done 0"

text \<open>Nothing is ever rendered; the spinner stays (\<open>blank True\<close>) or not.\<close>

definition blank :: "bool \<Rightarrow> nat \<Rightarrow> perplexity_extraction poll" where
  "blank busy k = perplexitySample [] busy 0"

definition geminiBrief :: "nat \<Rightarrow> gemini_extraction poll" where
  "geminiBrief k = geminiSample ''Just a sec'' False True 0"

text \<open>Gemini answers with one short word, and \<open>pending-response\<close> never goes away.\<close>

definition geminiShortAnswer :: "nat \<Rightarrow> gemini_extraction poll" where
  "geminiShortAnswer k = geminiSample ''Paris'' True False 0"

text \<open>The spinner disappears one poll after the third repeat of the text.\<close>

definition lateIdle :: "nat \<Rightarrow> perplexity_extraction poll" where
  "lateIdle k = perplexitySample ''Paris'' (k < 4) 0"

text \<open>Five polls see an empty page without spinner, then the answer is there.\<close>

definition lateAnswer :: "nat \<Rightarrow> perplexity_extraction poll" where
  "lateAnswer k = perplexitySample (if k < 5 then [] else ''The answer.'') False 0"

text \<open>
  Gemini shows a short text for five polls, with \<open>model-response\<close> present and nothing
  loading, then a longer one.
\<close>

definition geminiLateAnswer :: "nat \<Rightarrow> gemini_extraction poll" where
  "geminiLateAnswer k =
     geminiSample (if k < 5 then ''Paris'' else ''Paris is the capital.'') (k = 5) True 0"

text \<open>The page first shows a placeholder, then replaces it by the answer.\<close>

definition rewritten :: "nat \<Rightarrow> perplexity_extraction poll" where
  "rewritten k =
     (if k = 0 then perplexitySample ''Thinking...'' True 0
      else perplexitySample ''The answer is 42.'' (k = 1) 0)"

text \<open>The answer grows once and then stays.\<close>

definition growing :: "nat \<Rightarrow> perplexity_extraction poll" where
  "growing k = perplexitySample (if k = 0 then ''Par'' else ''Paris'') (k = 1) 0"

definition geminiGrowing :: "nat \<Rightarrow> gemini_extraction poll" where
  "geminiGrowing k =
     geminiSample (if k = 0 then ''Paris is the'' else ''Paris is the capital.'') (k = 1) True 0"

text \<open>The third call of \<open>extractAnswer\<close> throws; every other poll shows the answer.\<close>

definition oneBadRead :: "nat \<Rightarrow> perplexity_extraction poll" where
  "oneBadRead k =
     (if k = 2 then failedPoll ''Execution context was destroyed''
      else perplexitySample ''Paris'' False 0)"

definition geminiOneBadRead :: "nat \<Rightarrow> gemini_extraction poll" where
  "geminiOneBadRead k =
     (if k = 2 then failedPoll ''Execution context was destroyed''
      else geminiSample ''Paris is the capital.'' False True 0)"

text \<open>
  The text flips between two values on every poll, and each call of \<open>extractAnswer\<close>
  takes half a second.
\<close>

definition pingPong :: "nat \<Rightarrow> perplexity_extraction poll" where
  "pingPong k = perplexitySample (if even k then ''ping'' else ''pong'') False 500"

definition geminiPingPong :: "nat \<Rightarrow> gemini_extraction poll" where
  "geminiPingPong k = geminiSample (if even k then ''ping'' else ''pong'') False False 500"

text \<open>A Gemini page showing the echoed question, and the same on Perplexity.\<close>

definition echoElement :: gemini_element where
  "echoElement =
     \<lparr>cleanText = ''You said What is X?'', strippedText = ''You said What is X?'',
      inUserQuery = False, inEditor = False\<rparr>"

definition geminiEchoDoc :: "gemini_element dom" where
  "geminiEchoDoc =
     \<lparr>querySelectorAll =
        (\<lambda>sel. if sel = ''model-response'' \<or> sel = ''model-response .markdown''
               then [echoElement] else []),
      prevLen = 0\<rparr>"

definition perplexityEchoDoc :: perplexity_dom where
  "perplexityEchoDoc =
     \<lparr>querySelectorAll =
        (\<lambda>sel. if sel = proseSelector
               then [\<lparr>cleanedText = ''You said What is X?'',
                      cleanedInnerText = ''You said What is X?''\<rparr>]
               else []),
      prevLen = 0, citationEls = [], externalLinks = []\<rparr>"

section \<open>Polling loop of \<open>server.js\<close>: lemmas\<close>

lemma emitChunk_lastText [simp]: "lastText (emitChunk oc t st) = lastText st"
  by (simp add: emitChunk_def)

lemma emitChunk_stableCount [simp]: "stableCount (emitChunk oc t st) = stableCount st"
  by (simp add: emitChunk_def)

lemma elapsedAfter_ge: "el \<le> elapsedAfter ps i el n"
proof (induction n arbitrary: i el)
  case 0
  show ?case by simp
next
  case (Suc n)
  have "el \<le> el + 1000 + lag (ps i)" by simp
  also have "\<dots> \<le> elapsedAfter ps (Suc i) (el + 1000 + lag (ps i)) n" by (rule Suc.IH)
  finally show ?case by simp
qed

lemma elapsedAfter_numeral:
  "elapsedAfter ps i el (numeral k) =
     elapsedAfter ps (Suc i) (el + 1000 + lag (ps i)) (pred_numeral k)"
  by (simp add: numeral_eq_Suc)

lemma showsText_D: "showsText p t \<Longrightarrow> \<exists>e. outcome p = Inr e \<and> answerText e = t"
  by (auto simp: showsText_def split: sum.splits)

lemma perplexityLoop_deadline:
  "\<not> el < MAX_TIMEOUT \<Longrightarrow>
   perplexityLoop ps oc i el st = \<lparr>exit = DeadlineReached, final = st, polled = i, clock = el\<rparr>"
  by (subst perplexityLoop.simps) simp

lemma perplexityLoop_threw:
  "el < MAX_TIMEOUT \<Longrightarrow> outcome (ps i) = Inl err \<Longrightarrow>
   perplexityLoop ps oc i el st = \<lparr>exit = Threw err, final = st, polled = Suc i, clock = el\<rparr>"
  by (subst perplexityLoop.simps) simp

lemma perplexityLoop_return:
  "el < MAX_TIMEOUT \<Longrightarrow> outcome (ps i) = Inr e \<Longrightarrow> perplexityPoll oc st e = Return a st' \<Longrightarrow>
   perplexityLoop ps oc i el st = \<lparr>exit = Returned a, final = st', polled = Suc i, clock = el\<rparr>"
  by (subst perplexityLoop.simps) simp

lemma perplexityLoop_continue:
  "el < MAX_TIMEOUT \<Longrightarrow> outcome (ps i) = Inr e \<Longrightarrow> perplexityPoll oc st e = Continue st' \<Longrightarrow>
   perplexityLoop ps oc i el st = perplexityLoop ps oc (Suc i) (el + 1000 + lag (ps i)) st'"
  by (subst perplexityLoop.simps) simp

subsection \<open>The loop body of \<open>server.js\<close>\<close>

lemma perplexityPoll_empty: "answerText e = [] \<Longrightarrow> perplexityPoll oc st e = Continue st"
  by (simp add: perplexityPoll_def)

lemma perplexityPoll_new:
  "answerText e \<noteq> [] \<Longrightarrow> lastText st \<noteq> answerText e \<Longrightarrow>
   perplexityPoll oc st e =
     Continue ((emitChunk oc (answerText e) st)\<lparr>stableCount := 0, lastText := answerText e\<rparr>)"
  by (auto simp: perplexityPoll_def Let_def)

lemma perplexityPoll_repeat:
  "answerText e \<noteq> [] \<Longrightarrow> lastText st = answerText e \<Longrightarrow>
   perplexityPoll oc st e =
     (if (\<not> isLoading e \<and> 2 \<le> stableCount st) \<or> 7 \<le> stableCount st
      then Return \<lparr>answer = answerText e, sources = extractedSources e\<rparr>
             ((emitChunk oc (answerText e) st)\<lparr>stableCount := Suc (stableCount st)\<rparr>)
      else Continue ((emitChunk oc (answerText e) st)
                       \<lparr>stableCount := Suc (stableCount st), lastText := answerText e\<rparr>))"
  by (auto simp: perplexityPoll_def Let_def)

subsection \<open>Runs of one text in \<open>server.js\<close>\<close>

lemma perplexityLoop_run:
  assumes "t \<noteq> []" "lastText st = t"
    and "\<forall>j\<le>m. showsText (ps (i + j)) t"
    and "7 \<le> stableCount st + m"
    and "elapsedAfter ps i el m < MAX_TIMEOUT"
  shows "\<exists>j\<le>m. exit (perplexityLoop ps oc i el st) =
            Returned \<lparr>answer = t, sources = sourcesOf (ps (i + j))\<rparr> \<and>
          polled (perplexityLoop ps oc i el st) = Suc (i + j)"
  using assms
proof (induction m arbitrary: i el st)
  case 0
  from "0.prems"(3) obtain e where e: "outcome (ps i) = Inr e" "answerText e = t"
    using showsText_D [of "ps i" t] by auto
  from "0.prems" have el: "el < MAX_TIMEOUT" by simp
  from "0.prems" e have "perplexityPoll oc st e =
      Return \<lparr>answer = t, sources = extractedSources e\<rparr>
        ((emitChunk oc t st)\<lparr>stableCount := Suc (stableCount st)\<rparr>)"
    by (simp add: perplexityPoll_repeat)
  with el e show ?case
    by (simp add: perplexityLoop_return sourcesOf_def)
next
  case (Suc m)
  from Suc.prems(3) obtain e where e: "outcome (ps i) = Inr e" "answerText e = t"
    using showsText_D [of "ps i" t] by force
  have "el \<le> elapsedAfter ps i el (Suc m)" by (rule elapsedAfter_ge)
  with Suc.prems have el: "el < MAX_TIMEOUT" by simp
  show ?case
  proof (cases "(\<not> isLoading e \<and> 2 \<le> stableCount st) \<or> 7 \<le> stableCount st")
    case True
    with Suc.prems e have "perplexityPoll oc st e =
      Return \<lparr>answer = t, sources = extractedSources e\<rparr>
        ((emitChunk oc t st)\<lparr>stableCount := Suc (stableCount st)\<rparr>)"
      by (simp add: perplexityPoll_repeat)
    with el e have "exit (perplexityLoop ps oc i el st) =
            Returned \<lparr>answer = t, sources = sourcesOf (ps (i + 0))\<rparr> \<and>
          polled (perplexityLoop ps oc i el st) = Suc (i + 0)"
      by (simp add: perplexityLoop_return sourcesOf_def)
    then show ?thesis by blast
  next
    case False
    define st' where "st' = (emitChunk oc t st)\<lparr>stableCount := Suc (stableCount st), lastText := t\<rparr>"
    from False Suc.prems e have "perplexityPoll oc st e = Continue st'"
      by (simp add: perplexityPoll_repeat st'_def)
    with el e have unfold: "perplexityLoop ps oc i el st =
        perplexityLoop ps oc (Suc i) (el + 1000 + lag (ps i)) st'"
      by (simp add: perplexityLoop_continue)
    have shows': "\<forall>j\<le>m. showsText (ps (Suc i + j)) t"
    proof (intro allI impI)
      fix j assume "j \<le> m"
      then have "Suc j \<le> Suc m" by simp
      with Suc.prems(3) have "showsText (ps (i + Suc j)) t" by blast
      then show "showsText (ps (Suc i + j)) t" by simp
    qed
    have "\<exists>j\<le>m. exit (perplexityLoop ps oc (Suc i) (el + 1000 + lag (ps i)) st') =
            Returned \<lparr>answer = t, sources = sourcesOf (ps (Suc i + j))\<rparr> \<and>
          polled (perplexityLoop ps oc (Suc i) (el + 1000 + lag (ps i)) st') = Suc (Suc i + j)"
    proof (rule Suc.IH)
      show "t \<noteq> []" by (rule Suc.prems(1))
      show "lastText st' = t" by (simp add: st'_def)
      show "\<forall>j\<le>m. showsText (ps (Suc i + j)) t" by (rule shows')
      from Suc.prems(4) show "7 \<le> stableCount st' + m" by (simp add: st'_def)
      from Suc.prems(5) show "elapsedAfter ps (Suc i) (el + 1000 + lag (ps i)) m < MAX_TIMEOUT"
        by simp
    qed
    then obtain j where j: "j \<le> m"
      "exit (perplexityLoop ps oc (Suc i) (el + 1000 + lag (ps i)) st') =
            Returned \<lparr>answer = t, sources = sourcesOf (ps (Suc i + j))\<rparr>"
      "polled (perplexityLoop ps oc (Suc i) (el + 1000 + lag (ps i)) st') = Suc (Suc i + j)"
      by blast
    from j have "Suc j \<le> Suc m \<and> exit (perplexityLoop ps oc i el st) =
            Returned \<lparr>answer = t, sources = sourcesOf (ps (i + Suc j))\<rparr> \<and>
          polled (perplexityLoop ps oc i el st) = Suc (i + Suc j)"
      by (simp add: unfold)
    then show ?thesis by blast
  qed
qed


lemma perplexityLoop_stable_general:
  assumes "t \<noteq> []"
    and "\<forall>j\<le>8. showsText (ps (i + j)) t"
    and "elapsedAfter ps i el 8 < MAX_TIMEOUT"
  shows "\<exists>j\<le>8. exit (perplexityLoop ps oc i el st) =
            Returned \<lparr>answer = t, sources = sourcesOf (ps (i + j))\<rparr> \<and>
          polled (perplexityLoop ps oc i el st) = Suc (i + j)"
proof (cases "lastText st = t")
  case True
  show ?thesis
    by (rule perplexityLoop_run [OF assms(1) True assms(2) _ assms(3)]) simp
next
  case False
  from assms(2) obtain e where e: "outcome (ps i) = Inr e" "answerText e = t"
    using showsText_D [of "ps i" t] by force
  have "el \<le> elapsedAfter ps i el 8" by (rule elapsedAfter_ge)
  with assms(3) have el: "el < MAX_TIMEOUT" by simp
  define st' where "st' = (emitChunk oc t st)\<lparr>stableCount := 0, lastText := t\<rparr>"
  from False assms(1) e have "perplexityPoll oc st e = Continue st'"
    by (simp add: perplexityPoll_new st'_def)
  with el e have unfold: "perplexityLoop ps oc i el st =
      perplexityLoop ps oc (Suc i) (el + 1000 + lag (ps i)) st'"
    by (simp add: perplexityLoop_continue)
  have "\<exists>j\<le>7. exit (perplexityLoop ps oc (Suc i) (el + 1000 + lag (ps i)) st') =
            Returned \<lparr>answer = t, sources = sourcesOf (ps (Suc i + j))\<rparr> \<and>
          polled (perplexityLoop ps oc (Suc i) (el + 1000 + lag (ps i)) st') = Suc (Suc i + j)"
  proof (rule perplexityLoop_run [OF assms(1)])
    show "lastText st' = t" by (simp add: st'_def)
    show "\<forall>j\<le>7. showsText (ps (Suc i + j)) t"
    proof (intro allI impI)
      fix j :: nat assume "j \<le> 7"
      then have "Suc j \<le> 8" by simp
      with assms(2) have "showsText (ps (i + Suc j)) t" by blast
      then show "showsText (ps (Suc i + j)) t" by simp
    qed
    show "7 \<le> stableCount st' + 7" by simp
    from assms(3) show "elapsedAfter ps (Suc i) (el + 1000 + lag (ps i)) 7 < MAX_TIMEOUT"
      by (simp add: eval_nat_numeral)
  qed
  then obtain j where j: "j \<le> 7"
      "exit (perplexityLoop ps oc (Suc i) (el + 1000 + lag (ps i)) st') =
            Returned \<lparr>answer = t, sources = sourcesOf (ps (Suc i + j))\<rparr>"
      "polled (perplexityLoop ps oc (Suc i) (el + 1000 + lag (ps i)) st') = Suc (Suc i + j)"
    by blast
  then have "Suc j \<le> 8 \<and> exit (perplexityLoop ps oc i el st) =
            Returned \<lparr>answer = t, sources = sourcesOf (ps (i + Suc j))\<rparr> \<and>
          polled (perplexityLoop ps oc i el st) = Suc (i + Suc j)"
    by (simp add: unfold)
  then show ?thesis by blast
qed

lemma perplexityLoop_early:
  assumes "t \<noteq> []" "lastText st \<noteq> t"
    and "\<forall>j\<le>3. showsText (ps (i + j)) t"
    and "idle (ps (i + 3))"
    and "elapsedAfter ps i el 3 < MAX_TIMEOUT"
  shows "exit (perplexityLoop ps oc i el st) =
            Returned \<lparr>answer = t, sources = sourcesOf (ps (i + 3))\<rparr> \<and>
          polled (perplexityLoop ps oc i el st) = i + 4"
proof -
  define el1 where "el1 = el + 1000 + lag (ps i)"
  define el2 where "el2 = el1 + 1000 + lag (ps (Suc i))"
  define el3 where "el3 = el2 + 1000 + lag (ps (Suc (Suc i)))"
  from assms(5) have el3: "el3 < MAX_TIMEOUT"
    by (simp add: eval_nat_numeral el1_def el2_def el3_def)
  then have el2: "el2 < MAX_TIMEOUT" and el1: "el1 < MAX_TIMEOUT" and el0: "el < MAX_TIMEOUT"
    by (simp_all add: el1_def el2_def el3_def)
  have "showsText (ps (i + 0)) t" "showsText (ps (i + 1)) t"
    "showsText (ps (i + 2)) t" "showsText (ps (i + 3)) t"
    using assms(3) [rule_format, of 0] assms(3) [rule_format, of 1]
      assms(3) [rule_format, of 2] assms(3) [rule_format, of 3]
    by simp_all
  then obtain e0 e1 e2 e3 where
    e0: "outcome (ps i) = Inr e0" "answerText e0 = t" and
    e1: "outcome (ps (Suc i)) = Inr e1" "answerText e1 = t" and
    e2: "outcome (ps (Suc (Suc i))) = Inr e2" "answerText e2 = t" and
    e3: "outcome (ps (i + 3)) = Inr e3" "answerText e3 = t"
    by (auto dest!: showsText_D)
  from assms(4) e3 have idle3: "\<not> isLoading e3"
    by (simp add: idle_def)
  define st1 where "st1 = (emitChunk oc t st)\<lparr>stableCount := 0, lastText := t\<rparr>"
  define st2 where "st2 = (emitChunk oc t st1)\<lparr>stableCount := Suc 0, lastText := t\<rparr>"
  define st3 where "st3 = (emitChunk oc t st2)\<lparr>stableCount := Suc (Suc 0), lastText := t\<rparr>"
  have p0: "perplexityPoll oc st e0 = Continue st1"
    using assms(1,2) e0 by (simp add: perplexityPoll_new st1_def)
  have p1: "perplexityPoll oc st1 e1 = Continue st2"
    using assms(1) e1 by (simp add: perplexityPoll_repeat st1_def st2_def)
  have p2: "perplexityPoll oc st2 e2 = Continue st3"
    using assms(1) e2 by (simp add: perplexityPoll_repeat st2_def st3_def)
  have p3: "perplexityPoll oc st3 e3 =
      Return \<lparr>answer = t, sources = extractedSources e3\<rparr>
        ((emitChunk oc t st3)\<lparr>stableCount := Suc (stableCount st3)\<rparr>)"
    using assms(1) e3 idle3 by (simp add: perplexityPoll_repeat st3_def)
  have "perplexityLoop ps oc i el st = perplexityLoop ps oc (Suc i) el1 st1"
    using el0 e0 p0 by (simp add: perplexityLoop_continue el1_def)
  also have "\<dots> = perplexityLoop ps oc (Suc (Suc i)) el2 st2"
    using el1 e1 p1 by (simp add: perplexityLoop_continue el2_def)
  also have "\<dots> = perplexityLoop ps oc (Suc (Suc (Suc i))) el3 st3"
    using el2 e2 p2 by (simp add: perplexityLoop_continue el3_def)
  also have "\<dots> = \<lparr>exit = Returned \<lparr>answer = t, sources = extractedSources e3\<rparr>,
      final = (emitChunk oc t st3)\<lparr>stableCount := Suc (stableCount st3)\<rparr>,
      polled = Suc (Suc (Suc (Suc i))), clock = el3\<rparr>"
    using el3 e3 p3 by (simp add: perplexityLoop_return eval_nat_numeral)
  finally show ?thesis
    using e3 by (simp add: sourcesOf_def)
qed

subsection \<open>An invariant rule for the loop of \<open>server.js\<close>\<close>

lemma perplexityLoop_rule:
  assumes init: "I i el st"
    and step: "\<And>i el st e st'. \<lbrakk>I i el st; el < MAX_TIMEOUT; outcome (ps i) = Inr e;
        perplexityPoll oc st e = Continue st'\<rbrakk> \<Longrightarrow> I (Suc i) (el + 1000 + lag (ps i)) st'"
    and deadline: "\<And>i el st. \<lbrakk>I i el st; \<not> el < MAX_TIMEOUT\<rbrakk> \<Longrightarrow>
        Q \<lparr>exit = DeadlineReached, final = st, polled = i, clock = el\<rparr>"
    and threw: "\<And>i el st err. \<lbrakk>I i el st; el < MAX_TIMEOUT; outcome (ps i) = Inl err\<rbrakk> \<Longrightarrow>
        Q \<lparr>exit = Threw err, final = st, polled = Suc i, clock = el\<rparr>"
    and return: "\<And>i el st e a st'. \<lbrakk>I i el st; el < MAX_TIMEOUT; outcome (ps i) = Inr e;
        perplexityPoll oc st e = Return a st'\<rbrakk> \<Longrightarrow>
        Q \<lparr>exit = Returned a, final = st', polled = Suc i, clock = el\<rparr>"
  shows "Q (perplexityLoop ps oc i el st)"
  using assms
proof (induction ps oc i el st rule: perplexityLoop.induct)
  case (1 ps oc i el st)
  note init = "1.prems"(1) and step = "1.prems"(2) and deadline = "1.prems"(3)
    and threw = "1.prems"(4) and return = "1.prems"(5)
  show ?case
  proof (cases "el < MAX_TIMEOUT")
    case False
    with init deadline show ?thesis
      by (simp add: perplexityLoop_deadline)
  next
    case True
    show ?thesis
    proof (cases "outcome (ps i)")
      case (Inl err)
      with True init threw show ?thesis
        by (simp add: perplexityLoop_threw)
    next
      case (Inr e)
      show ?thesis
      proof (cases "perplexityPoll oc st e")
        case (Return a st')
        with True Inr init return show ?thesis
          by (simp add: perplexityLoop_return)
      next
        case (Continue st')
        with True Inr init have "I (Suc i) (el + 1000 + lag (ps i)) st'"
          by (simp add: step)
        with True Inr Continue have "Q (perplexityLoop ps oc (Suc i) (el + 1000 + lag (ps i)) st')"
          using step deadline threw return by (rule "1.IH")
        with True Inr Continue show ?thesis
          by (simp add: perplexityLoop_continue)
      qed
    qed
  qed
qed


lemma showsText_textOf: "showsText p t \<Longrightarrow> textOf p = t"
  by (auto simp: showsText_def textOf_def split: sum.splits)

lemma observedTexts_Suc:
  "observedTexts accepted ps (Suc n) =
     (if accepted (textOf (ps n)) then observedTexts accepted ps n @ [textOf (ps n)]
      else observedTexts accepted ps n)"
  by (simp add: observedTexts_def)

lemma perplexityPoll_lastText:
  "perplexityPoll oc st e = Continue st' \<Longrightarrow>
   lastText st' = (if answerText e \<noteq> [] then answerText e else lastText st)"
  by (auto simp: perplexityPoll_def Let_def split: if_splits)

subsection \<open>Samples the Perplexity loop passes over\<close>

lemma perplexityLoop_all_empty:
  assumes "\<forall>k. showsText (ps k) []"
  shows "exit (perplexityLoop ps oc i el st) = DeadlineReached \<and>
         final (perplexityLoop ps oc i el st) = st \<and>
         MAX_TIMEOUT \<le> clock (perplexityLoop ps oc i el st)"
proof (rule perplexityLoop_rule [where I = "\<lambda>i el s. s = st"
      and Q = "\<lambda>r. exit r = DeadlineReached \<and> final r = st \<and> MAX_TIMEOUT \<le> clock r"])
  show "st = st" ..
next
  fix i el s e s'
  assume "s = st" "outcome (ps i) = Inr e" "perplexityPoll oc s e = Continue s'"
  moreover from assms have "showsText (ps i) []" ..
  ultimately show "s' = st"
    by (simp add: showsText_def perplexityPoll_empty)
next
  fix i el s
  assume "s = st" "\<not> el < MAX_TIMEOUT"
  then show "exit \<lparr>exit = DeadlineReached, final = s, polled = i, clock = el\<rparr> = DeadlineReached \<and>
      final \<lparr>exit = DeadlineReached, final = s, polled = i, clock = el\<rparr> = st \<and>
      MAX_TIMEOUT \<le> clock \<lparr>exit = DeadlineReached, final = s, polled = i, clock = el\<rparr>"
    by simp
next
  fix i el s err
  assume "outcome (ps i) = Inl err"
  moreover from assms have "showsText (ps i) []" ..
  ultimately show "exit \<lparr>exit = Threw err, final = s, polled = Suc i, clock = el\<rparr> = DeadlineReached \<and>
      final \<lparr>exit = Threw err, final = s, polled = Suc i, clock = el\<rparr> = st \<and>
      MAX_TIMEOUT \<le> clock \<lparr>exit = Threw err, final = s, polled = Suc i, clock = el\<rparr>"
    by (simp add: showsText_def)
next
  fix i el s e a s'
  assume "outcome (ps i) = Inr e" "perplexityPoll oc s e = Return a s'"
  moreover from assms have "showsText (ps i) []" ..
  ultimately show "exit \<lparr>exit = Returned a, final = s', polled = Suc i, clock = el\<rparr> = DeadlineReached \<and>
      final \<lparr>exit = Returned a, final = s', polled = Suc i, clock = el\<rparr> = st \<and>
      MAX_TIMEOUT \<le> clock \<lparr>exit = Returned a, final = s', polled = Suc i, clock = el\<rparr>"
    by (simp add: showsText_def perplexityPoll_empty)
qed


subsection \<open>Leaving the Perplexity loop by the deadline\<close>

lemma perplexityLoop_at_deadline:
  fixes ps :: "nat \<Rightarrow> perplexity_extraction poll" and oc :: bool and el :: nat
  defines "r \<equiv> perplexityLoop ps oc 0 el initialPollState"
  assumes "exit r = DeadlineReached"
  shows "MAX_TIMEOUT \<le> clock r"
    and "0 < polled r \<Longrightarrow> clock r < MAX_TIMEOUT + 1000 + lag (ps (polled r - 1))"
    and "lastText (final r) = lastOr (observedTexts nonEmpty ps (polled r))"
proof -
  let ?I = "\<lambda>i el (st::poll_state). lastText st = lastOr (observedTexts nonEmpty ps i) \<and>
      (0 < i \<longrightarrow> el < MAX_TIMEOUT + 1000 + lag (ps (i - 1)))"
  let ?Q = "\<lambda>r::sourced_answer loop_result. exit r = DeadlineReached \<longrightarrow>
      MAX_TIMEOUT \<le> clock r \<and>
      (0 < polled r \<longrightarrow> clock r < MAX_TIMEOUT + 1000 + lag (ps (polled r - 1))) \<and>
      lastText (final r) = lastOr (observedTexts nonEmpty ps (polled r))"
  have "?Q (perplexityLoop ps oc 0 el initialPollState)"
  proof (rule perplexityLoop_rule [where I = ?I and Q = ?Q])
    show "?I 0 el initialPollState"
      by (simp add: initialPollState_def observedTexts_def lastOr_def)
  next
    fix i el st e st'
    assume I: "?I i el st" and el: "el < MAX_TIMEOUT" and e: "outcome (ps i) = Inr e"
      and p: "perplexityPoll oc st e = Continue st'"
    from e have "textOf (ps i) = answerText e"
      by (simp add: textOf_def)
    with I perplexityPoll_lastText [OF p] el
    show "?I (Suc i) (el + 1000 + lag (ps i)) st'"
      by (simp add: observedTexts_Suc nonEmpty_def lastOr_def)
  next
    fix i el st
    assume "?I i el st" "\<not> el < MAX_TIMEOUT"
    then show "?Q \<lparr>exit = DeadlineReached, final = st, polled = i, clock = el\<rparr>"
      by simp
  next
    fix i el st err
    show "?Q \<lparr>exit = Threw err, final = st, polled = Suc i, clock = el\<rparr>"
      by simp
  next
    fix i el st' a
    show "?Q \<lparr>exit = Returned a, final = st', polled = Suc i, clock = el\<rparr>"
      by simp
  qed
  with assms show "MAX_TIMEOUT \<le> clock r"
    and "0 < polled r \<Longrightarrow> clock r < MAX_TIMEOUT + 1000 + lag (ps (polled r - 1))"
    and "lastText (final r) = lastOr (observedTexts nonEmpty ps (polled r))"
    by simp_all
qed

subsection \<open>Emitting chunks\<close>

lemma emitChunk_monotone: "lastChunkedLength st \<le> lastChunkedLength (emitChunk oc t st)"
  by (simp add: emitChunk_def)

lemma emitChunk_total:
  "length (concat (chunks st)) = lastChunkedLength st \<Longrightarrow>
   length (concat (chunks (emitChunk oc t st))) = lastChunkedLength (emitChunk oc t st)"
  by (simp add: emitChunk_def)

lemma emitChunk_extends:
  assumes "concat (chunks st) = lastText st" "lastChunkedLength st = length (lastText st)"
    and "prefix (lastText st) t"
  shows "concat (chunks (emitChunk True t st)) = t"
    and "lastChunkedLength (emitChunk True t st) = length t"
proof -
  from assms(3) obtain d where d: "t = lastText st @ d"
    by (auto simp: prefix_def)
  with assms(1,2) show "concat (chunks (emitChunk True t st)) = t"
    and "lastChunkedLength (emitChunk True t st) = length t"
    by (auto simp: emitChunk_def)
qed

subsection \<open>Append-only growth in \<open>server.js\<close>\<close>

lemma perplexityPoll_chunks:
  "chunks (afterPass (perplexityPoll oc st e)) =
     (if answerText e \<noteq> [] then chunks (emitChunk oc (answerText e) st) else chunks st)"
  "lastChunkedLength (afterPass (perplexityPoll oc st e)) =
     (if answerText e \<noteq> [] then lastChunkedLength (emitChunk oc (answerText e) st)
      else lastChunkedLength st)"
  by (simp_all add: perplexityPoll_def Let_def)

lemma perplexityPoll_Return:
  assumes "perplexityPoll oc st e = Return a st'"
  shows "answerText e \<noteq> []" "answer a = answerText e" "lastText st = answerText e"
  using assms by (auto simp: perplexityPoll_def Let_def split: if_splits)

lemma appendOnly_D:
  "appendOnly accepted ps \<Longrightarrow> i \<le> j \<Longrightarrow> accepted (textOf (ps i)) \<Longrightarrow> accepted (textOf (ps j)) \<Longrightarrow>
   prefix (textOf (ps i)) (textOf (ps j))"
  by (auto simp: appendOnly_def)

lemma perplexityLoop_gapless:
  fixes ps :: "nat \<Rightarrow> perplexity_extraction poll" and el :: nat
  assumes ao: "appendOnly nonEmpty ps"
    and res: "perplexityOutcome (perplexityLoop ps True 0 el initialPollState) = Inr a"
  shows "concat (chunks (final (perplexityLoop ps True 0 el initialPollState))) = answer a"
proof -
  let ?I = "\<lambda>i (el::nat) (st::poll_state). concat (chunks st) = lastText st \<and>
      lastChunkedLength st = length (lastText st) \<and>
      (\<forall>j\<ge>i. nonEmpty (textOf (ps j)) \<longrightarrow> prefix (lastText st) (textOf (ps j)))"
  let ?Q = "\<lambda>r::sourced_answer loop_result.
      \<forall>a. perplexityOutcome r = Inr a \<longrightarrow> concat (chunks (final r)) = answer a"
  have "?Q (perplexityLoop ps True 0 el initialPollState)"
  proof (rule perplexityLoop_rule [where I = ?I and Q = ?Q])
    show "?I 0 el initialPollState"
      by (simp add: initialPollState_def)
  next
    fix i el st e st'
    assume I: "?I i el st" and e: "outcome (ps i) = Inr e"
      and p: "perplexityPoll True st e = Continue st'"
    have t: "textOf (ps i) = answerText e"
      using e by (simp add: textOf_def)
    show "?I (Suc i) (el + 1000 + lag (ps i)) st'"
    proof (cases "answerText e = []")
      case True
      with p have "st' = st" by (simp add: perplexityPoll_empty)
      with I show ?thesis by simp
    next
      case False
      from I have "nonEmpty (textOf (ps i)) \<longrightarrow> prefix (lastText st) (textOf (ps i))"
        by blast
      with False t have pre: "prefix (lastText st) (answerText e)"
        by (simp add: nonEmpty_def)
      from p have st': "st' = afterPass (perplexityPoll True st e)" by simp
      from False I pre have "concat (chunks st') = answerText e"
        and "lastChunkedLength st' = length (answerText e)"
        by (simp_all add: st' perplexityPoll_chunks emitChunk_extends)
      moreover from False have "lastText st' = answerText e"
        using perplexityPoll_lastText [OF p] by simp
      moreover have "prefix (answerText e) (textOf (ps j))"
        if "Suc i \<le> j" "nonEmpty (textOf (ps j))" for j
        using appendOnly_D [OF ao, of i j] that False t by (simp add: nonEmpty_def)
      ultimately show ?thesis by simp
    qed
  next
    fix i el st
    assume "?I i el st"
    then show "?Q \<lparr>exit = DeadlineReached, final = st, polled = i, clock = el\<rparr>"
      by (auto simp: perplexityOutcome_def split: if_splits)
  next
    fix i el st err
    show "?Q \<lparr>exit = Threw err, final = st, polled = Suc i, clock = el\<rparr>"
      by (simp add: perplexityOutcome_def)
  next
    fix i el st e a st'
    assume I: "?I i el st" and e: "outcome (ps i) = Inr e"
      and p: "perplexityPoll True st e = Return a st'"
    note r = perplexityPoll_Return [OF p]
    from p have st': "st' = afterPass (perplexityPoll True st e)" by simp
    from r I have "concat (chunks st') = answerText e"
      by (simp add: st' perplexityPoll_chunks emitChunk_extends)
    with r show "?Q \<lparr>exit = Returned a, final = st', polled = Suc i, clock = el\<rparr>"
      by (simp add: perplexityOutcome_def)
  qed
  with res show ?thesis by simp
qed

section \<open>Polling loop of \<open>gemini-server.js\<close>: lemmas\<close>

lemma geminiLoop_deadline:
  "\<not> el < 120000 \<Longrightarrow>
   geminiLoop ps oc i el st = \<lparr>exit = DeadlineReached, final = st, polled = i, clock = el\<rparr>"
  by (subst geminiLoop.simps) simp

lemma geminiLoop_threw:
  "el < 120000 \<Longrightarrow> outcome (ps i) = Inl err \<Longrightarrow>
   geminiLoop ps oc i el st = \<lparr>exit = Threw err, final = st, polled = Suc i, clock = el\<rparr>"
  by (subst geminiLoop.simps) simp

lemma geminiLoop_return:
  "el < 120000 \<Longrightarrow> outcome (ps i) = Inr e \<Longrightarrow> geminiPoll oc st e = Return a st' \<Longrightarrow>
   geminiLoop ps oc i el st = \<lparr>exit = Returned a, final = st', polled = Suc i, clock = el\<rparr>"
  by (subst geminiLoop.simps) simp

lemma geminiLoop_continue:
  "el < 120000 \<Longrightarrow> outcome (ps i) = Inr e \<Longrightarrow> geminiPoll oc st e = Continue st' \<Longrightarrow>
   geminiLoop ps oc i el st = geminiLoop ps oc (Suc i) (el + 1000 + lag (ps i)) st'"
  by (subst geminiLoop.simps) simp


subsection \<open>The loop body of \<open>gemini-server.js\<close>\<close>

lemma geminiPoll_short:
  "length (answerText e) \<le> 10 \<Longrightarrow>
   geminiPoll oc st e =
     (if modelResponseExists e \<and> lastText st \<noteq> [] then Return \<lparr>answer = lastText st\<rparr> st
      else Continue st)"
  by (simp add: geminiPoll_def)

lemma geminiPoll_new:
  "10 < length (answerText e) \<Longrightarrow> lastText st \<noteq> answerText e \<Longrightarrow>
   geminiPoll oc st e =
     Continue ((emitChunk oc (answerText e) st)\<lparr>stableCount := 0, lastText := answerText e\<rparr>)"
  by (auto simp: geminiPoll_def Let_def)

lemma geminiPoll_repeat:
  "10 < length (answerText e) \<Longrightarrow> lastText st = answerText e \<Longrightarrow>
   geminiPoll oc st e =
     (if (\<not> isLoading e \<and> (if modelResponseExists e then 1 else 4) \<le> stableCount st)
         \<or> 9 \<le> stableCount st
      then Return \<lparr>answer = answerText e\<rparr>
             ((emitChunk oc (answerText e) st)\<lparr>stableCount := Suc (stableCount st)\<rparr>)
      else Continue ((emitChunk oc (answerText e) st)
                       \<lparr>stableCount := Suc (stableCount st), lastText := answerText e\<rparr>))"
  by (auto simp: geminiPoll_def Let_def)

lemma geminiPoll_lastText:
  "geminiPoll oc st e = Continue st' \<Longrightarrow>
   lastText st' = (if 10 < length (answerText e) then answerText e else lastText st)"
  by (auto simp: geminiPoll_def Let_def split: if_splits)

subsection \<open>Runs of one text in \<open>gemini-server.js\<close>\<close>

lemma geminiLoop_run:
  assumes "10 < length t" "lastText st = t"
    and "\<forall>j\<le>m. showsText (ps (i + j)) t"
    and "9 \<le> stableCount st + m"
    and "elapsedAfter ps i el m < 120000"
  shows "\<exists>j\<le>m. exit (geminiLoop ps oc i el st) =
            Returned \<lparr>answer = t\<rparr> \<and>
          polled (geminiLoop ps oc i el st) = Suc (i + j)"
  using assms
proof (induction m arbitrary: i el st)
  case 0
  from "0.prems"(3) obtain e where e: "outcome (ps i) = Inr e" "answerText e = t"
    using showsText_D [of "ps i" t] by auto
  from "0.prems" have el: "el < 120000" by simp
  from "0.prems" e have "geminiPoll oc st e =
      Return \<lparr>answer = t\<rparr>
        ((emitChunk oc t st)\<lparr>stableCount := Suc (stableCount st)\<rparr>)"
    by (simp add: geminiPoll_repeat)
  with el e show ?case
    by (simp add: geminiLoop_return)
next
  case (Suc m)
  from Suc.prems(3) obtain e where e: "outcome (ps i) = Inr e" "answerText e = t"
    using showsText_D [of "ps i" t] by force
  have "el \<le> elapsedAfter ps i el (Suc m)" by (rule elapsedAfter_ge)
  with Suc.prems have el: "el < 120000" by simp
  show ?case
  proof (cases "(\<not> isLoading e \<and> (if modelResponseExists e then 1 else 4) \<le> stableCount st)
        \<or> 9 \<le> stableCount st")
    case True
    with Suc.prems e have "geminiPoll oc st e =
      Return \<lparr>answer = t\<rparr>
        ((emitChunk oc t st)\<lparr>stableCount := Suc (stableCount st)\<rparr>)"
      by (simp add: geminiPoll_repeat)
    with el e have "exit (geminiLoop ps oc i el st) =
            Returned \<lparr>answer = t\<rparr> \<and>
          polled (geminiLoop ps oc i el st) = Suc (i + 0)"
      by (simp add: geminiLoop_return)
    then show ?thesis by blast
  next
    case False
    define st' where "st' = (emitChunk oc t st)\<lparr>stableCount := Suc (stableCount st), lastText := t\<rparr>"
    from False Suc.prems e have "geminiPoll oc st e = Continue st'"
      by (simp add: geminiPoll_repeat st'_def)
    with el e have unfold: "geminiLoop ps oc i el st =
        geminiLoop ps oc (Suc i) (el + 1000 + lag (ps i)) st'"
      by (simp add: geminiLoop_continue)
    have shows': "\<forall>j\<le>m. showsText (ps (Suc i + j)) t"
    proof (intro allI impI)
      fix j assume "j \<le> m"
      then have "Suc j \<le> Suc m" by simp
      with Suc.prems(3) have "showsText (ps (i + Suc j)) t" by blast
      then show "showsText (ps (Suc i + j)) t" by simp
    qed
    have "\<exists>j\<le>m. exit (geminiLoop ps oc (Suc i) (el + 1000 + lag (ps i)) st') =
            Returned \<lparr>answer = t\<rparr> \<and>
          polled (geminiLoop ps oc (Suc i) (el + 1000 + lag (ps i)) st') = Suc (Suc i + j)"
    proof (rule Suc.IH)
      show "10 < length t" by (rule Suc.prems(1))
      show "lastText st' = t" by (simp add: st'_def)
      show "\<forall>j\<le>m. showsText (ps (Suc i + j)) t" by (rule shows')
      from Suc.prems(4) show "9 \<le> stableCount st' + m" by (simp add: st'_def)
      from Suc.prems(5) show "elapsedAfter ps (Suc i) (el + 1000 + lag (ps i)) m < 120000"
        by simp
    qed
    then obtain j where j: "j \<le> m"
      "exit (geminiLoop ps oc (Suc i) (el + 1000 + lag (ps i)) st') =
            Returned \<lparr>answer = t\<rparr>"
      "polled (geminiLoop ps oc (Suc i) (el + 1000 + lag (ps i)) st') = Suc (Suc i + j)"
      by blast
    from j have "Suc j \<le> Suc m \<and> exit (geminiLoop ps oc i el st) =
            Returned \<lparr>answer = t\<rparr> \<and>
          polled (geminiLoop ps oc i el st) = Suc (i + Suc j)"
      by (simp add: unfold)
    then show ?thesis by blast
  qed
qed


lemma geminiLoop_stable_general:
  assumes "10 < length t"
    and "\<forall>j\<le>10. showsText (ps (i + j)) t"
    and "elapsedAfter ps i el 10 < 120000"
  shows "\<exists>j\<le>10. exit (geminiLoop ps oc i el st) =
            Returned \<lparr>answer = t\<rparr> \<and>
          polled (geminiLoop ps oc i el st) = Suc (i + j)"
proof (cases "lastText st = t")
  case True
  show ?thesis
    by (rule geminiLoop_run [OF assms(1) True assms(2) _ assms(3)]) simp
next
  case False
  from assms(2) obtain e where e: "outcome (ps i) = Inr e" "answerText e = t"
    using showsText_D [of "ps i" t] by force
  have "el \<le> elapsedAfter ps i el 10" by (rule elapsedAfter_ge)
  with assms(3) have el: "el < 120000" by simp
  define st' where "st' = (emitChunk oc t st)\<lparr>stableCount := 0, lastText := t\<rparr>"
  from False assms(1) e have "geminiPoll oc st e = Continue st'"
    by (simp add: geminiPoll_new st'_def)
  with el e have unfold: "geminiLoop ps oc i el st =
      geminiLoop ps oc (Suc i) (el + 1000 + lag (ps i)) st'"
    by (simp add: geminiLoop_continue)
  have "\<exists>j\<le>9. exit (geminiLoop ps oc (Suc i) (el + 1000 + lag (ps i)) st') =
            Returned \<lparr>answer = t\<rparr> \<and>
          polled (geminiLoop ps oc (Suc i) (el + 1000 + lag (ps i)) st') = Suc (Suc i + j)"
  proof (rule geminiLoop_run [OF assms(1)])
    show "lastText st' = t" by (simp add: st'_def)
    show "\<forall>j\<le>9. showsText (ps (Suc i + j)) t"
    proof (intro allI impI)
      fix j :: nat assume "j \<le> 9"
      then have "Suc j \<le> 10" by simp
      with assms(2) have "showsText (ps (i + Suc j)) t" by blast
      then show "showsText (ps (Suc i + j)) t" by simp
    qed
    show "9 \<le> stableCount st' + 9" by simp
    from assms(3) show "elapsedAfter ps (Suc i) (el + 1000 + lag (ps i)) 9 < 120000"
      by (simp add: elapsedAfter_numeral)
  qed
  then obtain j where j: "j \<le> 9"
      "exit (geminiLoop ps oc (Suc i) (el + 1000 + lag (ps i)) st') =
            Returned \<lparr>answer = t\<rparr>"
      "polled (geminiLoop ps oc (Suc i) (el + 1000 + lag (ps i)) st') = Suc (Suc i + j)"
    by blast
  then have "Suc j \<le> 10 \<and> exit (geminiLoop ps oc i el st) =
            Returned \<lparr>answer = t\<rparr> \<and>
          polled (geminiLoop ps oc i el st) = Suc (i + Suc j)"
    by (simp add: unfold)
  then show ?thesis by blast
qed

subsection \<open>An invariant rule for the loop of \<open>gemini-server.js\<close>\<close>

lemma geminiLoop_rule:
  assumes init: "I i el st"
    and step: "\<And>i el st e st'. \<lbrakk>I i el st; el < 120000; outcome (ps i) = Inr e;
        geminiPoll oc st e = Continue st'\<rbrakk> \<Longrightarrow> I (Suc i) (el + 1000 + lag (ps i)) st'"
    and deadline: "\<And>i el st. \<lbrakk>I i el st; \<not> el < 120000\<rbrakk> \<Longrightarrow>
        Q \<lparr>exit = DeadlineReached, final = st, polled = i, clock = el\<rparr>"
    and threw: "\<And>i el st err. \<lbrakk>I i el st; el < 120000; outcome (ps i) = Inl err\<rbrakk> \<Longrightarrow>
        Q \<lparr>exit = Threw err, final = st, polled = Suc i, clock = el\<rparr>"
    and return: "\<And>i el st e a st'. \<lbrakk>I i el st; el < 120000; outcome (ps i) = Inr e;
        geminiPoll oc st e = Return a st'\<rbrakk> \<Longrightarrow>
        Q \<lparr>exit = Returned a, final = st', polled = Suc i, clock = el\<rparr>"
  shows "Q (geminiLoop ps oc i el st)"
  using assms
proof (induction ps oc i el st rule: geminiLoop.induct)
  case (1 ps oc i el st)
  note init = "1.prems"(1) and step = "1.prems"(2) and deadline = "1.prems"(3)
    and threw = "1.prems"(4) and return = "1.prems"(5)
  show ?case
  proof (cases "el < 120000")
    case False
    with init deadline show ?thesis
      by (simp add: geminiLoop_deadline)
  next
    case True
    show ?thesis
    proof (cases "outcome (ps i)")
      case (Inl err)
      with True init threw show ?thesis
        by (simp add: geminiLoop_threw)
    next
      case (Inr e)
      show ?thesis
      proof (cases "geminiPoll oc st e")
        case (Return a st')
        with True Inr init return show ?thesis
          by (simp add: geminiLoop_return)
      next
        case (Continue st')
        with True Inr init have "I (Suc i) (el + 1000 + lag (ps i)) st'"
          by (simp add: step)
        with True Inr Continue have "Q (geminiLoop ps oc (Suc i) (el + 1000 + lag (ps i)) st')"
          using step deadline threw return by (rule "1.IH")
        with True Inr Continue show ?thesis
          by (simp add: geminiLoop_continue)
      qed
    qed
  qed
qed


subsection \<open>Leaving the Gemini loop by the deadline\<close>

lemma geminiLoop_at_deadline:
  fixes ps :: "nat \<Rightarrow> gemini_extraction poll" and oc :: bool and el :: nat
  defines "r \<equiv> geminiLoop ps oc 0 el initialPollState"
  assumes "exit r = DeadlineReached"
  shows "120000 \<le> clock r"
    and "0 < polled r \<Longrightarrow> clock r < 120000 + 1000 + lag (ps (polled r - 1))"
    and "lastText (final r) = lastOr (observedTexts longerThan10 ps (polled r))"
proof -
  let ?I = "\<lambda>i el (st::poll_state). lastText st = lastOr (observedTexts longerThan10 ps i) \<and>
      (0 < i \<longrightarrow> el < 120000 + 1000 + lag (ps (i - 1)))"
  let ?Q = "\<lambda>r::answer_only loop_result. exit r = DeadlineReached \<longrightarrow>
      120000 \<le> clock r \<and>
      (0 < polled r \<longrightarrow> clock r < 120000 + 1000 + lag (ps (polled r - 1))) \<and>
      lastText (final r) = lastOr (observedTexts longerThan10 ps (polled r))"
  have "?Q (geminiLoop ps oc 0 el initialPollState)"
  proof (rule geminiLoop_rule [where I = ?I and Q = ?Q])
    show "?I 0 el initialPollState"
      by (simp add: initialPollState_def observedTexts_def lastOr_def)
  next
    fix i el st e st'
    assume I: "?I i el st" and el: "el < 120000" and e: "outcome (ps i) = Inr e"
      and p: "geminiPoll oc st e = Continue st'"
    from e have "textOf (ps i) = answerText e"
      by (simp add: textOf_def)
    with I geminiPoll_lastText [OF p] el
    show "?I (Suc i) (el + 1000 + lag (ps i)) st'"
      by (simp add: observedTexts_Suc longerThan10_def lastOr_def)
  next
    fix i el st
    assume "?I i el st" "\<not> el < 120000"
    then show "?Q \<lparr>exit = DeadlineReached, final = st, polled = i, clock = el\<rparr>"
      by simp
  next
    fix i el st err
    show "?Q \<lparr>exit = Threw err, final = st, polled = Suc i, clock = el\<rparr>"
      by simp
  next
    fix i el st' a
    show "?Q \<lparr>exit = Returned a, final = st', polled = Suc i, clock = el\<rparr>"
      by simp
  qed
  with assms show "120000 \<le> clock r"
    and "0 < polled r \<Longrightarrow> clock r < 120000 + 1000 + lag (ps (polled r - 1))"
    and "lastText (final r) = lastOr (observedTexts longerThan10 ps (polled r))"
    by simp_all
qed

subsection \<open>Append-only growth in \<open>gemini-server.js\<close>\<close>

lemma geminiPoll_chunks:
  "chunks (afterPass (geminiPoll oc st e)) =
     (if 10 < length (answerText e) then chunks (emitChunk oc (answerText e) st) else chunks st)"
  "lastChunkedLength (afterPass (geminiPoll oc st e)) =
     (if 10 < length (answerText e) then lastChunkedLength (emitChunk oc (answerText e) st)
      else lastChunkedLength st)"
  by (auto simp: geminiPoll_def Let_def)

lemma geminiPoll_Return:
  assumes "geminiPoll oc st e = Return a st'"
  shows "(10 < length (answerText e) \<and> answer a = answerText e \<and> lastText st = answerText e) \<or>
         (\<not> 10 < length (answerText e) \<and> answer a = lastText st \<and> st' = st)"
  using assms by (auto simp: geminiPoll_def Let_def split: if_splits)

lemma geminiLoop_gapless:
  fixes ps :: "nat \<Rightarrow> gemini_extraction poll" and el :: nat
  assumes ao: "appendOnly longerThan10 ps"
    and res: "geminiOutcome (geminiLoop ps True 0 el initialPollState) = Inr a"
  shows "concat (chunks (final (geminiLoop ps True 0 el initialPollState))) = answer a"
proof -
  let ?I = "\<lambda>i (el::nat) (st::poll_state). concat (chunks st) = lastText st \<and>
      lastChunkedLength st = length (lastText st) \<and>
      (\<forall>j\<ge>i. longerThan10 (textOf (ps j)) \<longrightarrow> prefix (lastText st) (textOf (ps j)))"
  let ?Q = "\<lambda>r::answer_only loop_result.
      \<forall>a. geminiOutcome r = Inr a \<longrightarrow> concat (chunks (final r)) = answer a"
  have "?Q (geminiLoop ps True 0 el initialPollState)"
  proof (rule geminiLoop_rule [where I = ?I and Q = ?Q])
    show "?I 0 el initialPollState"
      by (simp add: initialPollState_def)
  next
    fix i el st e st'
    assume I: "?I i el st" and e: "outcome (ps i) = Inr e"
      and p: "geminiPoll True st e = Continue st'"
    have t: "textOf (ps i) = answerText e"
      using e by (simp add: textOf_def)
    show "?I (Suc i) (el + 1000 + lag (ps i)) st'"
    proof (cases "10 < length (answerText e)")
      case False
      with p have "st' = st" by (simp add: geminiPoll_short split: if_splits)
      with I show ?thesis by simp
    next
      case True
      from I have "longerThan10 (textOf (ps i)) \<longrightarrow> prefix (lastText st) (textOf (ps i))"
        by blast
      with True t have pre: "prefix (lastText st) (answerText e)"
        by (simp add: longerThan10_def)
      from p have st': "st' = afterPass (geminiPoll True st e)" by simp
      from True I pre have "concat (chunks st') = answerText e"
        and "lastChunkedLength st' = length (answerText e)"
        by (simp_all add: st' geminiPoll_chunks emitChunk_extends)
      moreover from True have "lastText st' = answerText e"
        using geminiPoll_lastText [OF p] by simp
      moreover have "prefix (answerText e) (textOf (ps j))"
        if "Suc i \<le> j" "longerThan10 (textOf (ps j))" for j
        using appendOnly_D [OF ao, of i j] that True t by (simp add: longerThan10_def)
      ultimately show ?thesis by simp
    qed
  next
    fix i el st
    assume "?I i el st"
    then show "?Q \<lparr>exit = DeadlineReached, final = st, polled = i, clock = el\<rparr>"
      by (auto simp: geminiOutcome_def split: if_splits)
  next
    fix i el st err
    show "?Q \<lparr>exit = Threw err, final = st, polled = Suc i, clock = el\<rparr>"
      by (simp add: geminiOutcome_def)
  next
    fix i el st e a st'
    assume I: "?I i el st" and e: "outcome (ps i) = Inr e"
      and p: "geminiPoll True st e = Return a st'"
    from p have st': "st' = afterPass (geminiPoll True st e)" by simp
    from geminiPoll_Return [OF p] have "concat (chunks st') = answer a"
    proof
      assume r: "10 < length (answerText e) \<and> answer a = answerText e \<and> lastText st = answerText e"
      with I have "concat (chunks st') = answerText e"
        by (simp add: st' geminiPoll_chunks emitChunk_extends)
      with r show ?thesis by simp
    next
      assume "\<not> 10 < length (answerText e) \<and> answer a = lastText st \<and> st' = st"
      with I show ?thesis by simp
    qed
    then show "?Q \<lparr>exit = Returned a, final = st', polled = Suc i, clock = el\<rparr>"
      by (simp add: geminiOutcome_def)
  qed
  with res show ?thesis by simp
qed

subsection \<open>Samples the Gemini loop passes over\<close>

lemma geminiLoop_all_short:
  assumes "\<forall>k. showsAtMost10 (ps k)" "lastText st = []"
  shows "exit (geminiLoop ps oc i el st) = DeadlineReached \<and>
         final (geminiLoop ps oc i el st) = st \<and>
         120000 \<le> clock (geminiLoop ps oc i el st)"
proof -
  let ?Q = "\<lambda>r::answer_only loop_result.
      exit r = DeadlineReached \<and> final r = st \<and> 120000 \<le> clock r"
  have short: "length (answerText e) \<le> 10" if "outcome (ps k) = Inr e" for k e
    using assms(1) [rule_format, of k] that by (simp add: showsAtMost10_def)
  have thrown: "False" if "outcome (ps k) = Inl err" for k err
    using assms(1) [rule_format, of k] that by (simp add: showsAtMost10_def)
  show ?thesis
  proof (rule geminiLoop_rule [where I = "\<lambda>(i::nat) (el::nat) s. s = st" and Q = ?Q])
    show "st = st" ..
  next
    fix i el :: nat and s e s'
    assume "s = st" "outcome (ps i) = Inr e" "geminiPoll oc s e = Continue s'"
    with short [of i e] show "s' = st"
      by (simp add: geminiPoll_short split: if_splits)
  next
    fix i el :: nat and s
    assume "s = st" "\<not> el < 120000"
    then show "?Q \<lparr>exit = DeadlineReached, final = s, polled = i, clock = el\<rparr>"
      by simp
  next
    fix i el :: nat and s err
    assume "outcome (ps i) = Inl err"
    with thrown show "?Q \<lparr>exit = Threw err, final = s, polled = Suc i, clock = el\<rparr>"
      by blast
  next
    fix i el :: nat and s e a s'
    assume "s = st" "outcome (ps i) = Inr e" "geminiPoll oc s e = Return a s'"
    with short [of i e] assms(2)
    show "?Q \<lparr>exit = Returned a, final = s', polled = Suc i, clock = el\<rparr>"
      by (simp add: geminiPoll_short)
  qed
qed



subsection \<open>The first pass at which a rule of \<open>gemini-server.js\<close> holds\<close>

lemma idle_D: "outcome p = Inr e \<Longrightarrow> idle p = (\<not> isLoading e)"
  by (simp add: idle_def)

lemma modelDone_D: "outcome p = Inr e \<Longrightarrow> modelDone p = modelResponseExists e"
  by (simp add: modelDone_def)

lemma geminiLoop_exact:
  assumes "10 < length t" "lastText st = t"
    and "\<forall>j\<le>m. showsText (ps (i + j)) t"
    and "\<forall>j<m. \<not> (idle (ps (i + j)) \<and>
            (if modelDone (ps (i + j)) then 1 else 4) \<le> stableCount st + j)"
    and "stableCount st + m \<le> 8"
    and "idle (ps (i + m)) \<and> (if modelDone (ps (i + m)) then 1 else 4) \<le> stableCount st + m"
    and "elapsedAfter ps i el m < 120000"
  shows "exit (geminiLoop ps oc i el st) = Returned \<lparr>answer = t\<rparr> \<and>
         polled (geminiLoop ps oc i el st) = Suc (i + m)"
  using assms
proof (induction m arbitrary: i el st)
  case 0
  from "0.prems"(3) obtain e where e: "outcome (ps i) = Inr e" "answerText e = t"
    using showsText_D [of "ps i" t] by auto
  from "0.prems" have el: "el < 120000" by simp
  from "0.prems"(6) e have "\<not> isLoading e \<and> (if modelResponseExists e then 1 else 4) \<le> stableCount st"
    by (simp add: idle_D modelDone_D)
  with "0.prems"(1,2) e have "geminiPoll oc st e =
      Return \<lparr>answer = t\<rparr> ((emitChunk oc t st)\<lparr>stableCount := Suc (stableCount st)\<rparr>)"
    by (simp add: geminiPoll_repeat)
  with el e show ?case
    by (simp add: geminiLoop_return)
next
  case (Suc m)
  from Suc.prems(3) obtain e where e: "outcome (ps i) = Inr e" "answerText e = t"
    using showsText_D [of "ps i" t] by force
  have "el \<le> elapsedAfter ps i el (Suc m)" by (rule elapsedAfter_ge)
  with Suc.prems have el: "el < 120000" by simp
  from Suc.prems(4) [rule_format, of 0] e
  have "\<not> (\<not> isLoading e \<and> (if modelResponseExists e then 1 else 4) \<le> stableCount st)"
    by (simp add: idle_D modelDone_D)
  moreover from Suc.prems(5) have "\<not> 9 \<le> stableCount st" by simp
  ultimately have no: "\<not> ((\<not> isLoading e \<and> (if modelResponseExists e then 1 else 4) \<le> stableCount st)
      \<or> 9 \<le> stableCount st)"
    by blast
  define st' where "st' = (emitChunk oc t st)\<lparr>stableCount := Suc (stableCount st), lastText := t\<rparr>"
  from Suc.prems(1,2) e have "geminiPoll oc st e = Continue st'"
    unfolding st'_def by (subst geminiPoll_repeat) (simp_all only: no if_False e)
  with el e have unfold: "geminiLoop ps oc i el st =
      geminiLoop ps oc (Suc i) (el + 1000 + lag (ps i)) st'"
    by (simp add: geminiLoop_continue)
  have "exit (geminiLoop ps oc (Suc i) (el + 1000 + lag (ps i)) st') = Returned \<lparr>answer = t\<rparr> \<and>
        polled (geminiLoop ps oc (Suc i) (el + 1000 + lag (ps i)) st') = Suc (Suc i + m)"
  proof (rule Suc.IH)
    show "10 < length t" by (rule Suc.prems(1))
    show "lastText st' = t" by (simp add: st'_def)
    show "\<forall>j\<le>m. showsText (ps (Suc i + j)) t"
    proof (intro allI impI)
      fix j assume "j \<le> m"
      then have "Suc j \<le> Suc m" by simp
      with Suc.prems(3) have "showsText (ps (i + Suc j)) t" by blast
      then show "showsText (ps (Suc i + j)) t" by simp
    qed
    show "\<forall>j<m. \<not> (idle (ps (Suc i + j)) \<and>
            (if modelDone (ps (Suc i + j)) then 1 else 4) \<le> stableCount st' + j)"
    proof (intro allI impI)
      fix j assume "j < m"
      then have "Suc j < Suc m" by simp
      with Suc.prems(4) have "\<not> (idle (ps (i + Suc j)) \<and>
            (if modelDone (ps (i + Suc j)) then 1 else 4) \<le> stableCount st + Suc j)"
        by blast
      then show "\<not> (idle (ps (Suc i + j)) \<and>
            (if modelDone (ps (Suc i + j)) then 1 else 4) \<le> stableCount st' + j)"
        by (simp add: st'_def)
    qed
    from Suc.prems(5) show "stableCount st' + m \<le> 8" by (simp add: st'_def)
    from Suc.prems(6) show "idle (ps (Suc i + m)) \<and>
        (if modelDone (ps (Suc i + m)) then 1 else 4) \<le> stableCount st' + m"
      by (simp add: st'_def)
    from Suc.prems(7) show "elapsedAfter ps (Suc i) (el + 1000 + lag (ps i)) m < 120000"
      by simp
  qed
  then show ?case
    by (simp add: unfold)
qed


lemma geminiLoop_first_sight:
  assumes "10 < length t" "lastText st \<noteq> t" "showsText (ps i) t" "el < 120000"
  shows "\<exists>st'. geminiLoop ps oc i el st = geminiLoop ps oc (Suc i) (el + 1000 + lag (ps i)) st' \<and>
           lastText st' = t \<and> stableCount st' = 0"
proof -
  from assms(3) obtain e where e: "outcome (ps i) = Inr e" "answerText e = t"
    using showsText_D [of "ps i" t] by auto
  define st' where "st' = (emitChunk oc t st)\<lparr>stableCount := 0, lastText := t\<rparr>"
  from assms(1,2) e have "geminiPoll oc st e = Continue st'"
    by (simp add: geminiPoll_new st'_def)
  with assms(4) e have "geminiLoop ps oc i el st =
      geminiLoop ps oc (Suc i) (el + 1000 + lag (ps i)) st'"
    by (simp add: geminiLoop_continue)
  then show ?thesis
    by (auto simp: st'_def)
qed

lemma geminiLoop_early_done:
  assumes "10 < length t" "lastText st \<noteq> t"
    and "\<forall>j\<le>2. showsText (ps (i + j)) t"
    and "idle (ps (i + 2))" "modelDone (ps (i + 2))"
    and "elapsedAfter ps i el 2 < 120000"
  shows "exit (geminiLoop ps oc i el st) = Returned \<lparr>answer = t\<rparr> \<and>
         polled (geminiLoop ps oc i el st) = i + 3"
proof -
  have "el \<le> elapsedAfter ps i el 2" by (rule elapsedAfter_ge)
  with assms(6) have el: "el < 120000" by simp
  from assms(3) have "showsText (ps i) t"
    by (metis add.right_neutral le0)
  from geminiLoop_first_sight [of t st ps i el oc, OF assms(1,2) this el]
  obtain st' where st': "geminiLoop ps oc i el st =
      geminiLoop ps oc (Suc i) (el + 1000 + lag (ps i)) st'"
    "lastText st' = t" "stableCount st' = 0"
    by blast
  have "exit (geminiLoop ps oc (Suc i) (el + 1000 + lag (ps i)) st') = Returned \<lparr>answer = t\<rparr> \<and>
        polled (geminiLoop ps oc (Suc i) (el + 1000 + lag (ps i)) st') = Suc (Suc i + 1)"
  proof (rule geminiLoop_exact [OF assms(1) st'(2)])
    show "\<forall>j\<le>1. showsText (ps (Suc i + j)) t"
    proof (intro allI impI)
      fix j :: nat assume "j \<le> 1"
      then have "Suc j \<le> 2" by simp
      with assms(3) have "showsText (ps (i + Suc j)) t" by blast
      then show "showsText (ps (Suc i + j)) t" by simp
    qed
    show "\<forall>j<1. \<not> (idle (ps (Suc i + j)) \<and>
        (if modelDone (ps (Suc i + j)) then 1 else 4) \<le> stableCount st' + j)"
      by (simp add: st'(3))
    show "stableCount st' + 1 \<le> 8" by (simp add: st'(3))
    have "Suc i + 1 = i + 2" by simp
    with assms(4,5) show "idle (ps (Suc i + 1)) \<and>
        (if modelDone (ps (Suc i + 1)) then 1 else 4) \<le> stableCount st' + 1"
      by (simp only: st'(3)) simp
    from assms(6) show "elapsedAfter ps (Suc i) (el + 1000 + lag (ps i)) 1 < 120000"
      by (simp add: elapsedAfter_numeral)
  qed
  then show ?thesis
    by (simp add: st'(1))
qed

lemma geminiLoop_early_pending:
  assumes "10 < length t" "lastText st \<noteq> t"
    and "\<forall>j\<le>5. showsText (ps (i + j)) t"
    and "\<forall>j. 2 \<le> j \<and> j \<le> 4 \<longrightarrow> \<not> (idle (ps (i + j)) \<and> modelDone (ps (i + j)))"
    and "idle (ps (i + 5))"
    and "elapsedAfter ps i el 5 < 120000"
  shows "exit (geminiLoop ps oc i el st) = Returned \<lparr>answer = t\<rparr> \<and>
         polled (geminiLoop ps oc i el st) = i + 6"
proof -
  have "el \<le> elapsedAfter ps i el 5" by (rule elapsedAfter_ge)
  with assms(6) have el: "el < 120000" by simp
  from assms(3) have "showsText (ps i) t"
    by (metis add.right_neutral le0)
  from geminiLoop_first_sight [of t st ps i el oc, OF assms(1,2) this el]
  obtain st' where st': "geminiLoop ps oc i el st =
      geminiLoop ps oc (Suc i) (el + 1000 + lag (ps i)) st'"
    "lastText st' = t" "stableCount st' = 0"
    by blast
  have "exit (geminiLoop ps oc (Suc i) (el + 1000 + lag (ps i)) st') = Returned \<lparr>answer = t\<rparr> \<and>
        polled (geminiLoop ps oc (Suc i) (el + 1000 + lag (ps i)) st') = Suc (Suc i + 4)"
  proof (rule geminiLoop_exact [OF assms(1) st'(2)])
    show "\<forall>j\<le>4. showsText (ps (Suc i + j)) t"
    proof (intro allI impI)
      fix j :: nat assume "j \<le> 4"
      then have "Suc j \<le> 5" by simp
      with assms(3) have "showsText (ps (i + Suc j)) t" by blast
      then show "showsText (ps (Suc i + j)) t" by simp
    qed
    show "\<forall>j<4. \<not> (idle (ps (Suc i + j)) \<and>
        (if modelDone (ps (Suc i + j)) then 1 else 4) \<le> stableCount st' + j)"
    proof (intro allI impI)
      fix j :: nat assume j: "j < 4"
      show "\<not> (idle (ps (Suc i + j)) \<and>
        (if modelDone (ps (Suc i + j)) then 1 else 4) \<le> stableCount st' + j)"
      proof (cases "j = 0")
        case True
        then show ?thesis by (simp add: st'(3))
      next
        case False
        with j have "2 \<le> Suc j \<and> Suc j \<le> 4" by simp
        with assms(4) have "\<not> (idle (ps (i + Suc j)) \<and> modelDone (ps (i + Suc j)))"
          by blast
        with j show ?thesis by (auto simp: st'(3))
      qed
    qed
    show "stableCount st' + 4 \<le> 8" by (simp add: st'(3))
    have "Suc i + 4 = i + 5" by simp
    with assms(5) show "idle (ps (Suc i + 4)) \<and>
        (if modelDone (ps (Suc i + 4)) then 1 else 4) \<le> stableCount st' + 4"
      by (simp only: st'(3)) simp
    from assms(6) show "elapsedAfter ps (Suc i) (el + 1000 + lag (ps i)) 4 < 120000"
      by (simp add: elapsedAfter_numeral)
  qed
  then show ?thesis
    by (simp add: st'(1))
qed

section \<open>The engines: lemmas\<close>

lemma catchAll_None [simp]: "catchAll p = None"
  by (simp add: catchAll_def)

lemma queryPerplexity_settled:
  "settled (queryPerplexity page query oc) = fst (perplexityTry page query oc)"
  "polling (queryPerplexity page query oc) = snd (perplexityTry page query oc)"
  "released (queryPerplexity page query oc) = [Page, BrowserContext]"
  by (simp_all add: queryPerplexity_def split: prod.splits)

lemma queryGemini_settled:
  "settled (queryGemini gpage query oc) = fst (geminiTry gpage query oc)"
  "polling (queryGemini gpage query oc) = snd (geminiTry gpage query oc)"
  "released (queryGemini gpage query oc) = [Page]"
  by (simp_all add: queryGemini_def split: prod.splits)

lemma perplexityTry_polls:
  assumes "gotoOutcome page = None" "submitQuery (inputPage page) = Inr True"
  shows "perplexityTry page query oc =
     (perplexityOutcome (perplexityLoop (polls page) oc 0 (5000 + startLag page) initialPollState),
      Some (perplexityLoop (polls page) oc 0 (5000 + startLag page) initialPollState))"
  using assms by (simp add: perplexityTry_def Let_def)

lemma geminiTry_polls:
  assumes "gotoOutcome gpage = None" "dismissOutcome gpage = None"
    "geminiSubmitQuery (inputPage gpage) = Inr True"
  shows "geminiTry gpage query oc =
     (geminiOutcome (geminiLoop (polls gpage) oc 0 (startLag gpage) initialPollState),
      Some (geminiLoop (polls gpage) oc 0 (startLag gpage) initialPollState))"
  using assms by (simp add: geminiTry_def Let_def)

lemma perplexityTry_resolved:
  assumes "fst (perplexityTry page query oc) = Inr a"
  shows "gotoOutcome page = None \<and> submitQuery (inputPage page) = Inr True"
  using assms by (auto simp: perplexityTry_def Let_def split: option.splits sum.splits if_splits)

lemma geminiTry_resolved:
  assumes "fst (geminiTry gpage query oc) = Inr a"
  shows "gotoOutcome gpage = None \<and> dismissOutcome gpage = None \<and>
         geminiSubmitQuery (inputPage gpage) = Inr True"
  using assms by (auto simp: geminiTry_def Let_def split: option.splits sum.splits if_splits)

lemma submitQuery_readyPage: "submitQuery readyPage = Inr True"
  by (simp add: submitQuery_def readyPage_def perplexitySelectors_def)

lemma geminiSubmitQuery_readyPage: "geminiSubmitQuery readyPage = Inr True"
  by (simp add: geminiSubmitQuery_def readyPage_def geminiSelectors_def)

lemma sessionWith_simps [simp]:
  "gotoOutcome (sessionWith page ps) = None"
  "inputPage (sessionWith page ps) = page"
  "startLag (sessionWith page ps) = 0"
  "polls (sessionWith page ps) = ps"
  by (simp_all add: sessionWith_def)

lemma geminiSessionWith_simps [simp]:
  "gotoOutcome (geminiSessionWith page ps) = None"
  "dismissOutcome (geminiSessionWith page ps) = None"
  "inputPage (geminiSessionWith page ps) = page"
  "startLag (geminiSessionWith page ps) = 0"
  "polls (geminiSessionWith page ps) = ps"
  by (simp_all add: geminiSessionWith_def)

lemma queryPerplexity_ready:
  "settled (queryPerplexity (sessionWith readyPage ps) query oc) =
     perplexityOutcome (perplexityLoop ps oc 0 5000 initialPollState)"
  "polling (queryPerplexity (sessionWith readyPage ps) query oc) =
     Some (perplexityLoop ps oc 0 5000 initialPollState)"
  by (simp_all add: queryPerplexity_settled perplexityTry_polls submitQuery_readyPage)

lemma queryGemini_ready:
  "settled (queryGemini (geminiSessionWith readyPage ps) query oc) =
     geminiOutcome (geminiLoop ps oc 0 0 initialPollState)"
  "polling (queryGemini (geminiSessionWith readyPage ps) query oc) =
     Some (geminiLoop ps oc 0 0 initialPollState)"
  by (simp_all add: queryGemini_settled geminiTry_polls geminiSubmitQuery_readyPage)

text \<open>The run of the loop on the flipping text, pass by pass.\<close>

lemma pingPong_run:
  "perplexityLoop pingPong True 0 5000 initialPollState =
     \<lparr>exit = DeadlineReached,
      final = \<lparr>lastText = ''ping'', stableCount = 0, lastChunkedLength = 4, chunks = [''ping'']\<rparr>,
      polled = 77, clock = 120500\<rparr>"
  by (simp add: perplexityLoop.simps perplexityPoll_def emitChunk_def pingPong_def
      perplexitySample_def initialPollState_def MAX_TIMEOUT_def Let_def)

lemma emitChunk_chunks_prefix: "prefix (chunks st) (chunks (emitChunk oc t st))"
  by (simp add: emitChunk_def)

lemma perplexityTry_loop:
  assumes "snd (perplexityTry page query oc) = Some r"
  shows "r = perplexityLoop (polls page) oc 0 (5000 + startLag page) initialPollState"
    and "fst (perplexityTry page query oc) = perplexityOutcome r"
  using assms
  by (auto simp: perplexityTry_def Let_def split: option.splits sum.splits if_splits)

lemma geminiTry_loop:
  assumes "snd (geminiTry gpage query oc) = Some r"
  shows "r = geminiLoop (polls gpage) oc 0 (startLag gpage) initialPollState"
    and "fst (geminiTry gpage query oc) = geminiOutcome r"
  using assms
  by (auto simp: geminiTry_def Let_def split: option.splits sum.splits if_splits)

lemma queryPerplexity_gapless:
  assumes "appendOnly nonEmpty (polls page)"
    and "settled (queryPerplexity page query True) = Inr a"
  shows "concat (deltas (queryPerplexity page query True)) = answer a"
proof -
  from assms(2) have res: "fst (perplexityTry page query True) = Inr a"
    by (simp add: queryPerplexity_settled)
  note ok = perplexityTry_resolved [OF res]
  from ok have run: "perplexityTry page query True =
     (perplexityOutcome (perplexityLoop (polls page) True 0 (5000 + startLag page) initialPollState),
      Some (perplexityLoop (polls page) True 0 (5000 + startLag page) initialPollState))"
    by (simp add: perplexityTry_polls)
  with res have "perplexityOutcome
      (perplexityLoop (polls page) True 0 (5000 + startLag page) initialPollState) = Inr a"
    by simp
  from perplexityLoop_gapless [OF assms(1) this] run show ?thesis
    by (simp add: deltas_def queryPerplexity_settled)
qed

lemma queryGemini_gapless:
  assumes "appendOnly longerThan10 (polls gpage)"
    and "settled (queryGemini gpage query True) = Inr b"
  shows "concat (deltas (queryGemini gpage query True)) = answer b"
proof -
  from assms(2) have res: "fst (geminiTry gpage query True) = Inr b"
    by (simp add: queryGemini_settled)
  note ok = geminiTry_resolved [OF res]
  from ok have run: "geminiTry gpage query True =
     (geminiOutcome (geminiLoop (polls gpage) True 0 (startLag gpage) initialPollState),
      Some (geminiLoop (polls gpage) True 0 (startLag gpage) initialPollState))"
    by (simp add: geminiTry_polls)
  with res have "geminiOutcome
      (geminiLoop (polls gpage) True 0 (startLag gpage) initialPollState) = Inr b"
    by simp
  from geminiLoop_gapless [OF assms(1) this] run show ?thesis
    by (simp add: deltas_def queryGemini_settled)
qed

text \<open>Two executions in which the text grows by appending.\<close>

lemma growing_run:
  "perplexityLoop growing True 0 5000 initialPollState =
     \<lparr>exit = Returned \<lparr>answer = ''Paris'', sources = []\<rparr>,
      final = \<lparr>lastText = ''Paris'', stableCount = 3, lastChunkedLength = 5,
               chunks = [''Par'', ''is'']\<rparr>,
      polled = 5, clock = 9000\<rparr>"
  by (simp add: perplexityLoop.simps perplexityPoll_def emitChunk_def growing_def
      perplexitySample_def initialPollState_def MAX_TIMEOUT_def Let_def)

lemma geminiGrowing_run:
  "geminiLoop geminiGrowing True 0 0 initialPollState =
     \<lparr>exit = Returned \<lparr>answer = ''Paris is the capital.''\<rparr>,
      final = \<lparr>lastText = ''Paris is the capital.'', stableCount = 2, lastChunkedLength = 21,
               chunks = [''Paris is the'', '' capital.'']\<rparr>,
      polled = 4, clock = 3000\<rparr>"
  by (simp add: geminiLoop.simps geminiPoll_def emitChunk_def geminiGrowing_def
      geminiSample_def initialPollState_def Let_def)

lemma appendOnly_growing: "appendOnly nonEmpty growing"
  by (simp add: appendOnly_def textOf_def growing_def perplexitySample_def)

lemma appendOnly_geminiGrowing: "appendOnly longerThan10 geminiGrowing"
  by (simp add: appendOnly_def textOf_def geminiGrowing_def geminiSample_def)

lemma queryPerplexity_loop:
  assumes "polling (queryPerplexity page query oc) = Some r"
  shows "r = perplexityLoop (polls page) oc 0 (5000 + startLag page) initialPollState"
    and "settled (queryPerplexity page query oc) = perplexityOutcome r"
  using assms perplexityTry_loop [of page query oc r]
  by (simp_all add: queryPerplexity_settled)

lemma queryGemini_loop:
  assumes "polling (queryGemini gpage query oc) = Some r"
  shows "r = geminiLoop (polls gpage) oc 0 (startLag gpage) initialPollState"
    and "settled (queryGemini gpage query oc) = geminiOutcome r"
  using assms geminiTry_loop [of gpage query oc r]
  by (simp_all add: queryGemini_settled)

text \<open>Two executions in which the third call of \<open>extractAnswer\<close> throws.\<close>

lemma oneBadRead_run:
  "perplexityLoop oneBadRead True 0 5000 initialPollState =
     \<lparr>exit = Threw (Error ''Execution context was destroyed''),
      final = \<lparr>lastText = ''Paris'', stableCount = 1, lastChunkedLength = 5,
               chunks = [''Paris'']\<rparr>,
      polled = 3, clock = 7000\<rparr>"
  by (simp add: perplexityLoop.simps perplexityPoll_def emitChunk_def oneBadRead_def
      perplexitySample_def failedPoll_def initialPollState_def MAX_TIMEOUT_def Let_def)

lemma geminiOneBadRead_run:
  "geminiLoop geminiOneBadRead True 0 0 initialPollState =
     \<lparr>exit = Threw (Error ''Execution context was destroyed''),
      final = \<lparr>lastText = ''Paris is the capital.'', stableCount = 1, lastChunkedLength = 21,
               chunks = [''Paris is the capital.'']\<rparr>,
      polled = 3, clock = 2000\<rparr>"
  by (simp add: geminiLoop.simps geminiPoll_def emitChunk_def geminiOneBadRead_def
      geminiSample_def failedPoll_def initialPollState_def Let_def)

lemma last_observedTexts:
  assumes "observedTexts accepted ps n \<noteq> []"
  shows "accepted (last (observedTexts accepted ps n))"
proof -
  from assms have "last (observedTexts accepted ps n) \<in> set (observedTexts accepted ps n)"
    by (rule last_in_set)
  then show ?thesis
    by (simp add: observedTexts_def)
qed

text \<open>The Gemini loop on a page that only ever shows ten characters, pass by pass.\<close>

lemma geminiBrief_run:
  "geminiLoop geminiBrief True 0 0 initialPollState =
     \<lparr>exit = DeadlineReached, final = initialPollState, polled = 120, clock = 120000\<rparr>"
  by (simp add: geminiLoop.simps geminiPoll_def geminiBrief_def geminiSample_def
      initialPollState_def Let_def)

subsection \<open>Pages without a usable input\<close>

lemma tryElements_hidden: "\<forall>el\<in>set els. el = NotVisible \<Longrightarrow> tryElements els = False"
  by (induction els) auto

lemma trySelectors_hidden:
  assumes "\<forall>sel\<in>set sels. \<exists>els. page sel = Elements els \<and> (\<forall>el\<in>set els. el = NotVisible)"
  shows "trySelectors page sels = False"
  using assms
proof (induction sels)
  case Nil
  show ?case by simp
next
  case (Cons sel sels)
  from Cons.prems obtain els where "page sel = Elements els" "\<forall>el\<in>set els. el = NotVisible"
    by auto
  with Cons show ?case
    by (simp add: tryElements_hidden)
qed

subsection \<open>Executions that only see samples the loop passes over\<close>

lemma queryPerplexity_all_empty:
  assumes "gotoOutcome page = None" "submitQuery (inputPage page) = Inr True"
    and "\<forall>k. showsText (polls page k) []"
  shows "settled (queryPerplexity page query oc) =
           Inl (Error ''Timeout: no answer received from Perplexity'')"
    and "deltas (queryPerplexity page query oc) = []"
    and "\<exists>r. polling (queryPerplexity page query oc) = Some r \<and> exit r = DeadlineReached \<and>
           MAX_TIMEOUT \<le> clock r"
proof -
  let ?r = "perplexityLoop (polls page) oc 0 (5000 + startLag page) initialPollState"
  from perplexityLoop_all_empty [OF assms(3), of oc 0 "5000 + startLag page" initialPollState]
  have r: "exit ?r = DeadlineReached" "final ?r = initialPollState" "MAX_TIMEOUT \<le> clock ?r"
    by simp_all
  have run: "perplexityTry page query oc = (perplexityOutcome ?r, Some ?r)"
    using assms(1,2) by (rule perplexityTry_polls)
  from r show "settled (queryPerplexity page query oc) =
           Inl (Error ''Timeout: no answer received from Perplexity'')"
    by (simp add: queryPerplexity_settled run perplexityOutcome_def initialPollState_def)
  from r show "deltas (queryPerplexity page query oc) = []"
    by (simp add: deltas_def queryPerplexity_settled run initialPollState_def)
  from r show "\<exists>r. polling (queryPerplexity page query oc) = Some r \<and>
      exit r = DeadlineReached \<and> MAX_TIMEOUT \<le> clock r"
    by (simp add: queryPerplexity_settled run)
qed

lemma queryGemini_all_short:
  assumes "gotoOutcome gpage = None" "dismissOutcome gpage = None"
    "geminiSubmitQuery (inputPage gpage) = Inr True"
    and "\<forall>k. showsAtMost10 (polls gpage k)"
  shows "settled (queryGemini gpage query oc) =
           Inl (Error ''Timeout: no answer received from Gemini'')"
    and "deltas (queryGemini gpage query oc) = []"
    and "\<exists>r. polling (queryGemini gpage query oc) = Some r \<and> exit r = DeadlineReached \<and>
           120000 \<le> clock r"
proof -
  let ?r = "geminiLoop (polls gpage) oc 0 (startLag gpage) initialPollState"
  have "lastText initialPollState = []"
    by (simp add: initialPollState_def)
  from geminiLoop_all_short [OF assms(4) this, of oc 0 "startLag gpage"]
  have r: "exit ?r = DeadlineReached" "final ?r = initialPollState" "120000 \<le> clock ?r"
    by simp_all
  have run: "geminiTry gpage query oc = (geminiOutcome ?r, Some ?r)"
    using assms(1,2,3) by (rule geminiTry_polls)
  from r show "settled (queryGemini gpage query oc) =
           Inl (Error ''Timeout: no answer received from Gemini'')"
    by (simp add: queryGemini_settled run geminiOutcome_def initialPollState_def)
  from r show "deltas (queryGemini gpage query oc) = []"
    by (simp add: deltas_def queryGemini_settled run initialPollState_def)
  from r show "\<exists>r. polling (queryGemini gpage query oc) = Some r \<and>
      exit r = DeadlineReached \<and> 120000 \<le> clock r"
    by (simp add: queryGemini_settled run)
qed

subsection \<open>Sequences that never satisfy a rule\<close>

lemma perplexityLoop_never_repeats:
  fixes ps :: "nat \<Rightarrow> perplexity_extraction poll" and oc :: bool and el :: nat
  assumes nt: "neverThrows ps" and nr: "neverRepeats nonEmpty ps"
  shows "exit (perplexityLoop ps oc 0 el initialPollState) = DeadlineReached"
proof -
  let ?I = "\<lambda>i (el::nat) (st::poll_state). lastText st = lastOr (observedTexts nonEmpty ps i)"
  let ?Q = "\<lambda>r::sourced_answer loop_result. exit r = DeadlineReached"
  show ?thesis
  proof (rule perplexityLoop_rule [where I = ?I and Q = ?Q])
    show "?I 0 el initialPollState"
      by (simp add: initialPollState_def observedTexts_def lastOr_def)
  next
    fix i el st e st'
    assume I: "?I i el st" and e: "outcome (ps i) = Inr e"
      and p: "perplexityPoll oc st e = Continue st'"
    from e have "textOf (ps i) = answerText e"
      by (simp add: textOf_def)
    with I perplexityPoll_lastText [OF p]
    show "?I (Suc i) (el + 1000 + lag (ps i)) st'"
      by (simp add: observedTexts_Suc nonEmpty_def lastOr_def)
  next
    fix i el :: nat and st :: poll_state
    show "?Q \<lparr>exit = DeadlineReached, final = st, polled = i, clock = el\<rparr>"
      by simp
  next
    fix i el :: nat and st :: poll_state and err
    assume "outcome (ps i) = Inl err"
    with nt show "?Q \<lparr>exit = Threw err, final = st, polled = Suc i, clock = el\<rparr>"
      by (auto simp: neverThrows_def dest: spec [of _ i])
  next
    fix i el st e a st'
    assume I: "?I i el st" and e: "outcome (ps i) = Inr e"
      and p: "perplexityPoll oc st e = Return a st'"
    from e have t: "textOf (ps i) = answerText e"
      by (simp add: textOf_def)
    note r = perplexityPoll_Return [OF p]
    from nr r(1) t have "answerText e \<noteq> lastOr (observedTexts nonEmpty ps i)"
      by (auto simp: neverRepeats_def nonEmpty_def dest: spec [of _ i])
    with I r(3) show "?Q \<lparr>exit = Returned a, final = st', polled = Suc i, clock = el\<rparr>"
      by simp
  qed
qed

lemma geminiPoll_fallback:
  assumes "geminiPoll oc st e = Return a st'" "\<not> 10 < length (answerText e)"
  shows "modelResponseExists e \<and> lastText st \<noteq> []"
  using assms by (auto simp: geminiPoll_def Let_def split: if_splits)

lemma geminiLoop_never_repeats:
  fixes ps :: "nat \<Rightarrow> gemini_extraction poll" and oc :: bool and el :: nat
  assumes nt: "neverThrows ps" and nr: "neverRepeats longerThan10 ps" and nf: "noFallback ps"
  shows "exit (geminiLoop ps oc 0 el initialPollState) = DeadlineReached"
proof -
  let ?I = "\<lambda>i (el::nat) (st::poll_state).
      lastText st = lastOr (observedTexts longerThan10 ps i)"
  let ?Q = "\<lambda>r::answer_only loop_result. exit r = DeadlineReached"
  show ?thesis
  proof (rule geminiLoop_rule [where I = ?I and Q = ?Q])
    show "?I 0 el initialPollState"
      by (simp add: initialPollState_def observedTexts_def lastOr_def)
  next
    fix i el st e st'
    assume I: "?I i el st" and e: "outcome (ps i) = Inr e"
      and p: "geminiPoll oc st e = Continue st'"
    from e have "textOf (ps i) = answerText e"
      by (simp add: textOf_def)
    with I geminiPoll_lastText [OF p]
    show "?I (Suc i) (el + 1000 + lag (ps i)) st'"
      by (simp add: observedTexts_Suc longerThan10_def lastOr_def)
  next
    fix i el :: nat and st :: poll_state
    show "?Q \<lparr>exit = DeadlineReached, final = st, polled = i, clock = el\<rparr>"
      by simp
  next
    fix i el :: nat and st :: poll_state and err
    assume "outcome (ps i) = Inl err"
    with nt show "?Q \<lparr>exit = Threw err, final = st, polled = Suc i, clock = el\<rparr>"
      by (auto simp: neverThrows_def dest: spec [of _ i])
  next
    fix i el st e a st'
    assume I: "?I i el st" and e: "outcome (ps i) = Inr e"
      and p: "geminiPoll oc st e = Return a st'"
    from e have t: "textOf (ps i) = answerText e"
      by (simp add: textOf_def)
    have False
    proof (cases "10 < length (answerText e)")
      case True
      with geminiPoll_Return [OF p] have same: "lastText st = answerText e"
        by simp
      from nr True t have "answerText e \<noteq> lastOr (observedTexts longerThan10 ps i)"
        by (auto simp: neverRepeats_def longerThan10_def dest: spec [of _ i])
      with I same show False by simp
    next
      case False
      from geminiPoll_fallback [OF p False]
      have fb: "modelResponseExists e" "lastText st \<noteq> []"
        by simp_all
      from False e fb(1) have "showsAtMost10 (ps i) \<and> modelDone (ps i)"
        by (simp add: showsAtMost10_def modelDone_def)
      with nf have "observedTexts longerThan10 ps i = []"
        by (auto simp: noFallback_def)
      with I fb(2) show False
        by (simp add: lastOr_def)
    qed
    then show "?Q \<lparr>exit = Returned a, final = st', polled = Suc i, clock = el\<rparr>" ..
  qed
qed

text \<open>The two example sequences below never repeat a text the engine accepts.\<close>

lemma neverRepeats_pingPong: "neverThrows pingPong \<and> neverRepeats nonEmpty pingPong"
proof -
  have last: "lastOr (observedTexts nonEmpty pingPong k) =
      (if k = 0 then [] else if even k then ''pong'' else ''ping'')" for k
    by (induction k)
      (simp_all add: observedTexts_Suc observedTexts_def lastOr_def nonEmpty_def textOf_def
        pingPong_def perplexitySample_def)
  show ?thesis
    by (simp add: neverThrows_def neverRepeats_def last textOf_def pingPong_def
        perplexitySample_def)
qed


lemma neverRepeats_geminiBrief:
  "neverThrows geminiBrief \<and> neverRepeats longerThan10 geminiBrief \<and> noFallback geminiBrief"
proof -
  have none: "observedTexts longerThan10 geminiBrief k = []" for k
    by (simp add: observedTexts_def filter_empty_conv longerThan10_def textOf_def
        geminiBrief_def geminiSample_def)
  show ?thesis
    by (simp add: neverThrows_def neverRepeats_def noFallback_def none longerThan10_def
        textOf_def geminiBrief_def geminiSample_def)
qed

section \<open>The echo guard: lemmas\<close>

lemma prefix_take: "prefix q a \<Longrightarrow> prefix (take n q) a"
  by (metis prefix_order.trans take_is_prefix)

lemma echoGuard_echo:
  assumes "query \<noteq> []"
    and "prefix (norm query) (norm best) \<or> prefix (''you said '' @ norm query) (norm best)"
  shows "echoGuard query best = []"
proof (cases "best = []")
  case True
  then show ?thesis by (simp add: echoGuard_def)
next
  case False
  from assms(2) have "prefix (take 120 (norm query)) (norm best) \<or>
      prefix (''you said '' @ take 100 (norm query)) (norm best)"
  proof
    assume "prefix (norm query) (norm best)"
    then show ?thesis by (simp add: prefix_take)
  next
    assume "prefix (''you said '' @ norm query) (norm best)"
    moreover have "prefix (''you said '' @ take 100 (norm query)) (''you said '' @ norm query)"
      by (simp add: take_is_prefix)
    ultimately have "prefix (''you said '' @ take 100 (norm query)) (norm best)"
      by (rule prefix_order.trans [rotated])
    then show ?thesis ..
  qed
  with assms(1) False show ?thesis
    by (auto simp: echoGuard_def Let_def)
qed

text \<open>The page that shows the echoed question.\<close>

lemma geminiReading_echoDoc: "geminiReading geminiEchoDoc = ''You said What is X?''"
  by (simp add: geminiReading_def geminiEchoDoc_def echoElement_def keepLastOf_def
      keepLonger_def strategy2Selector_def strategy3Selectors_def Let_def)

lemma norm_examples:
  "norm ''What is X?'' = ''what is x?''"
  "norm ''You said What is X?'' = ''you said what is x?''"
  by code_simp+

section \<open>A call as a whole: lemmas\<close>

lemma createPage_returned:
  assumes "createOutcome (createPage browser) = None"
  shows "created (createPage browser) = [BrowserContext, Page]"
  using assms by (simp add: createPage_def split: option.splits)

lemma geminiCreatePage_returned:
  assumes "createOutcome (geminiCreatePage browser) = None"
  shows "created (geminiCreatePage browser) = [Page]"
  using assms by (simp add: geminiCreatePage_def split: option.splits)

lemma callQueryPerplexity_entered:
  assumes "createOutcome (createPage browser) = None"
  shows "promise (callQueryPerplexity browser page query oc) = fst (perplexityTry page query oc)"
    and "tryStatement (callQueryPerplexity browser page query oc) =
           Some (queryPerplexity page query oc)"
    and "opened (callQueryPerplexity browser page query oc) = [BrowserContext, Page]"
    and "closeCalls (callQueryPerplexity browser page query oc) =
           [(Page, pageClose page), (BrowserContext, contextClose page)]"
  using assms createPage_returned [OF assms]
  by (simp_all add: callQueryPerplexity_def Let_def queryPerplexity_settled closeOutcome_def)

lemma callQueryGemini_entered:
  assumes "createOutcome (geminiCreatePage browser) = None"
  shows "promise (callQueryGemini browser gpage query oc) = fst (geminiTry gpage query oc)"
    and "tryStatement (callQueryGemini browser gpage query oc) =
           Some (queryGemini gpage query oc)"
    and "opened (callQueryGemini browser gpage query oc) = [Page]"
    and "closeCalls (callQueryGemini browser gpage query oc) = [(Page, pageClose gpage)]"
  using assms geminiCreatePage_returned [OF assms]
  by (simp_all add: callQueryGemini_def Let_def queryGemini_settled closeOutcome_def)

lemma callQueryPerplexity_rejected:
  assumes "createOutcome (createPage browser) = Some err"
  shows "promise (callQueryPerplexity browser page query oc) = Inl err"
    and "tryStatement (callQueryPerplexity browser page query oc) = None"
    and "closeCalls (callQueryPerplexity browser page query oc) = []"
    and "notClosed (callQueryPerplexity browser page query oc) = created (createPage browser)"
  using assms by (simp_all add: callQueryPerplexity_def notClosed_def)

lemma callQueryGemini_rejected:
  assumes "createOutcome (geminiCreatePage browser) = Some err"
  shows "promise (callQueryGemini browser gpage query oc) = Inl err"
    and "tryStatement (callQueryGemini browser gpage query oc) = None"
    and "closeCalls (callQueryGemini browser gpage query oc) = []"
    and "notClosed (callQueryGemini browser gpage query oc) = created (geminiCreatePage browser)"
  using assms by (simp_all add: callQueryGemini_def notClosed_def)

lemma createPage_healthy: "createOutcome (createPage healthyBrowser) = None"
  by (simp add: createPage_def healthyBrowser_def)

lemma geminiCreatePage_healthy: "createOutcome (geminiCreatePage healthyBrowser) = None"
  by (simp add: geminiCreatePage_def healthyBrowser_def)

section \<open>Queue: proofs\<close>

lemma queueInv_initial: "queueInv initialQueue"
  by (simp add: queueInv_def initialQueue_def)

lemma queueInv_enqueue:
  assumes "queueInv q"
  shows "queueInv (enqueue q)"
proof (cases "processing q")
  case True
  with assms show ?thesis
    by (simp add: queueInv_def enqueue_def processQueue_def)
next
  case False
  with assms have idle: "executing q = []" "requestQueue q = []"
    by (auto simp: queueInv_def)
  with assms False show ?thesis
    by (simp add: queueInv_def enqueue_def processQueue_def)
qed

lemma queueInv_executing:
  assumes "queueInv q" "job \<in> set (executing q)"
  shows "executing q = [job]"
proof -
  from assms(1) have "length (executing q) \<le> 1"
    by (simp add: queueInv_def)
  with assms(2) show ?thesis
    by (cases "executing q") auto
qed

lemma queueInv_taskSettled:
  assumes "queueInv q"
  shows "queueInv (taskSettled job ok q)"
proof (cases "job \<in> set (executing q)")
  case False
  with assms show ?thesis
    by (simp add: taskSettled_def)
next
  case True
  with assms have ex: "executing q = [job]"
    by (rule queueInv_executing)
  show ?thesis
  proof (cases "requestQueue q")
    case Nil
    with assms ex show ?thesis
      by (simp add: queueInv_def taskSettled_def)
  next
    case (Cons nxt rest)
    with assms ex show ?thesis
      by (simp add: queueInv_def taskSettled_def processQueue_def)
  qed
qed

lemma queueInv_step: "queueInv q \<Longrightarrow> queueInv (queueStep q ev)"
  by (cases ev) (simp_all add: queueInv_enqueue queueInv_taskSettled)

lemma queueInv_foldl: "queueInv q \<Longrightarrow> queueInv (foldl queueStep q evs)"
  by (induction evs arbitrary: q) (simp_all add: queueInv_step)

lemma queueInv_run: "queueInv (runQueue evs)"
  unfolding runQueue_def by (rule queueInv_foldl) (rule queueInv_initial)

lemma taskSettled_starts_next:
  assumes "queueInv q" "job \<in> set (executing q)" "requestQueue q = nxt # rest"
  shows "executing (taskSettled job ok q) = [nxt]"
    and "started (taskSettled job ok q) = started q @ [nxt]"
    and "requestQueue (taskSettled job ok q) = rest"
proof -
  from assms(1,2) have ex: "executing q = [job]"
    by (rule queueInv_executing)
  with assms(3) show "executing (taskSettled job ok q) = [nxt]"
    and "started (taskSettled job ok q) = started q @ [nxt]"
    and "requestQueue (taskSettled job ok q) = rest"
    by (simp_all add: taskSettled_def processQueue_def)
qed

lemma runQueue_snoc: "runQueue (evs @ [ev]) = queueStep (runQueue evs) ev"
  by (simp add: runQueue_def)

lemma enqueued_enqueue: "enqueued (enqueue q) = Suc (enqueued q)"
  by (simp add: enqueue_def processQueue_def split: list.splits)

lemma enqueued_taskSettled: "enqueued (taskSettled job ok q) = enqueued q"
  by (simp add: taskSettled_def processQueue_def Let_def split: list.splits)

lemma enqueued_run: "enqueued (runQueue evs) = length (filter (\<lambda>ev. ev = Enqueue) evs)"
proof (induction evs rule: rev_induct)
  case Nil
  show ?case
    by (simp add: runQueue_def initialQueue_def)
next
  case (snoc ev evs)
  then show ?case
    by (cases ev) (simp_all add: runQueue_snoc enqueued_enqueue enqueued_taskSettled)
qed

lemma taskSettled_frees:
  assumes "queueInv q" "job \<in> set (executing q)" "requestQueue q = []"
  shows "executing (taskSettled job ok q) = []"
    and "\<not> processing (taskSettled job ok q)"
    and "started (taskSettled job ok q) = started q"
    and "requestQueue (taskSettled job ok q) = []"
proof -
  from assms(1,2) have ex: "executing q = [job]"
    by (rule queueInv_executing)
  with assms(3) show "executing (taskSettled job ok q) = []"
    and "\<not> processing (taskSettled job ok q)"
    and "started (taskSettled job ok q) = started q"
    and "requestQueue (taskSettled job ok q) = []"
    by (simp_all add: taskSettled_def)
qed

lemma taskSettled_log:
  assumes "job \<in> set (executing q)"
  shows "settledJobs (taskSettled job ok q) = settledJobs q @ [(job, ok)]"
  using assms by (simp add: taskSettled_def processQueue_def Let_def split: list.splits)

lemma taskSettled_other:
  assumes "job \<notin> set (executing q)"
  shows "taskSettled job ok q = q"
  using assms by (simp add: taskSettled_def)

lemma enqueue_idle:
  assumes "queueInv q" "executing q = []"
  shows "executing (enqueue q) = [enqueued q]"
    and "started (enqueue q) = started q @ [enqueued q]"
    and "requestQueue (enqueue q) = []"
proof -
  from assms have "\<not> processing q" "requestQueue q = []"
    by (auto simp: queueInv_def)
  with assms(2) show "executing (enqueue q) = [enqueued q]"
    and "started (enqueue q) = started q @ [enqueued q]"
    and "requestQueue (enqueue q) = []"
    by (simp_all add: enqueue_def processQueue_def)
qed

lemma enqueue_busy:
  assumes "queueInv q" "executing q \<noteq> []"
  shows "executing (enqueue q) = executing q"
    and "started (enqueue q) = started q"
    and "requestQueue (enqueue q) = requestQueue q @ [enqueued q]"
proof -
  from assms have "processing q"
    by (auto simp: queueInv_def)
  then show "executing (enqueue q) = executing q"
    and "started (enqueue q) = started q"
    and "requestQueue (enqueue q) = requestQueue q @ [enqueued q]"
    by (simp_all add: enqueue_def processQueue_def)
qed

text \<open>
  \<open>n\<close> requests arrive while the first is being served; then the tasks settle one after
  the other, each fulfilled or rejected as \<open>oks\<close> says.
\<close>

lemma run_burst:
  "runQueue (replicate (Suc n) Enqueue) =
     \<lparr>requestQueue = [1..<Suc n], processing = True, enqueued = Suc n,
      executing = [0], started = [0], settledJobs = []\<rparr>"
proof (induction n)
  case 0
  show ?case
    by (simp add: runQueue_def initialQueue_def enqueue_def processQueue_def)
next
  case (Suc n)
  have "replicate (Suc (Suc n)) Enqueue = replicate (Suc n) Enqueue @ [Enqueue]"
    by (simp add: replicate_append_same)
  then have "runQueue (replicate (Suc (Suc n)) Enqueue) = enqueue (runQueue (replicate (Suc n) Enqueue))"
    by (simp only: runQueue_snoc queueStep.simps)
  also have "\<dots> = \<lparr>requestQueue = [1..<Suc (Suc n)], processing = True, enqueued = Suc (Suc n),
      executing = [0], started = [0], settledJobs = []\<rparr>"
    by (subst Suc.IH) (simp add: enqueue_def processQueue_def)
  finally show ?case .
qed


lemma run_drain:
  assumes "k < n"
  shows "runQueue (replicate n Enqueue @ map (\<lambda>job. TaskSettled job (oks job)) [0..<k]) =
     \<lparr>requestQueue = [Suc k..<n], processing = True, enqueued = n,
      executing = [k], started = [0..<Suc k],
      settledJobs = map (\<lambda>job. (job, oks job)) [0..<k]\<rparr>"
  using assms
proof (induction k)
  case 0
  then obtain m where "n = Suc m"
    by (cases n) auto
  with run_burst [of m] show ?case
    by simp
next
  case (Suc k)
  have "runQueue (replicate n Enqueue @ map (\<lambda>job. TaskSettled job (oks job)) [0..<Suc k]) =
        taskSettled k (oks k) (runQueue (replicate n Enqueue @ map (\<lambda>job. TaskSettled job (oks job)) [0..<k]))"
    by (simp add: runQueue_def)
  also have "\<dots> = taskSettled k (oks k) \<lparr>requestQueue = [Suc k..<n], processing = True, enqueued = n,
      executing = [k], started = [0..<Suc k],
      settledJobs = map (\<lambda>job. (job, oks job)) [0..<k]\<rparr>"
    using Suc by simp
  also have "\<dots> = \<lparr>requestQueue = [Suc (Suc k)..<n], processing = True, enqueued = n,
      executing = [Suc k], started = [0..<Suc (Suc k)],
      settledJobs = map (\<lambda>job. (job, oks job)) [0..<Suc k]\<rparr>"
    using Suc.prems by (simp add: taskSettled_def processQueue_def upt_conv_Cons)
  finally show ?case .
qed

lemma run_drained:
  "runQueue (replicate n Enqueue @ map (\<lambda>job. TaskSettled job (oks job)) [0..<n]) =
     \<lparr>requestQueue = [], processing = False, enqueued = n,
      executing = [], started = [0..<n],
      settledJobs = map (\<lambda>job. (job, oks job)) [0..<n]\<rparr>"
proof (cases n)
  case 0
  then show ?thesis
    by (simp add: runQueue_def initialQueue_def)
next
  case (Suc k)
  have "runQueue (replicate n Enqueue @ map (\<lambda>job. TaskSettled job (oks job)) [0..<Suc k]) =
        taskSettled k (oks k) (runQueue (replicate n Enqueue @ map (\<lambda>job. TaskSettled job (oks job)) [0..<k]))"
    by (simp add: runQueue_def)
  also have "\<dots> = taskSettled k (oks k) \<lparr>requestQueue = [Suc k..<n], processing = True, enqueued = n,
      executing = [k], started = [0..<Suc k],
      settledJobs = map (\<lambda>job. (job, oks job)) [0..<k]\<rparr>"
    using run_drain [of k n oks] Suc by simp
  also have "\<dots> = \<lparr>requestQueue = [], processing = False, enqueued = n,
      executing = [], started = [0..<n],
      settledJobs = map (\<lambda>job. (job, oks job)) [0..<n]\<rparr>"
    using Suc by (simp add: taskSettled_def)
  finally show ?thesis
    using Suc by simp
qed

section \<open>The claims\<close>

text \<open>
  Claim C1, as amended. When a text that the engine takes into account (non-empty in
  \<open>server.js\<close>, longer than 10 code units in \<open>gemini-server.js\<close>) is delivered by
  9 consecutive polls (11 in \<open>gemini-server.js\<close>) that are all made before the
  deadline, then whatever the state of the loop at the first of them and whatever
  \<open>isLoading\<close> is on any of them, the loop returns that text at one of these polls,
  at the latest at the 8th (10th) repeat.
\<close>

theorem forced_stable_after_repeats:
  "(t \<noteq> [] \<and> (\<forall>j\<le>8. showsText (ps (i + j)) t) \<and> elapsedAfter ps i el 8 < MAX_TIMEOUT \<longrightarrow>
      (\<exists>j\<le>8. exit (perplexityLoop ps oc i el st) =
                  Returned \<lparr>answer = t, sources = sourcesOf (ps (i + j))\<rparr> \<and>
               polled (perplexityLoop ps oc i el st) = Suc (i + j))) \<and>
   (10 < length u \<and> (\<forall>j\<le>10. showsText (gs (i + j)) u) \<and> elapsedAfter gs i el 10 < 120000 \<longrightarrow>
      (\<exists>j\<le>10. exit (geminiLoop gs oc i el st) = Returned \<lparr>answer = u\<rparr> \<and>
                polled (geminiLoop gs oc i el st) = Suc (i + j)))"
proof (intro conjI impI)
  assume "t \<noteq> [] \<and> (\<forall>j\<le>8. showsText (ps (i + j)) t) \<and> elapsedAfter ps i el 8 < MAX_TIMEOUT"
  then show "\<exists>j\<le>8. exit (perplexityLoop ps oc i el st) =
                  Returned \<lparr>answer = t, sources = sourcesOf (ps (i + j))\<rparr> \<and>
               polled (perplexityLoop ps oc i el st) = Suc (i + j)"
    by (intro perplexityLoop_stable_general) simp_all
next
  assume "10 < length u \<and> (\<forall>j\<le>10. showsText (gs (i + j)) u) \<and>
    elapsedAfter gs i el 10 < 120000"
  then show "\<exists>j\<le>10. exit (geminiLoop gs oc i el st) = Returned \<lparr>answer = u\<rparr> \<and>
                polled (geminiLoop gs oc i el st) = Suc (i + j)"
    by (intro geminiLoop_stable_general) simp_all
qed

theorem forced_stable_after_repeats_witness:
  "(''Paris'' \<noteq> [] \<and> list_all (\<lambda>j. showsText (steady True (0 + j)) ''Paris'') [0..<9] \<and>
    elapsedAfter (steady True) 0 5000 8 < MAX_TIMEOUT) \<and>
   (10 < length ''Paris is the capital.'' \<and>
    list_all (\<lambda>j. showsText (geminiSteady True False (0 + j)) ''Paris is the capital.'')
      [0..<11] \<and>
    elapsedAfter (geminiSteady True False) 0 5000 10 < 120000) \<and>
   (\<exists>j\<le>8. exit (perplexityLoop (steady True) True 0 5000 initialPollState) =
               Returned \<lparr>answer = ''Paris'', sources = sourcesOf (steady True (0 + j))\<rparr> \<and>
            polled (perplexityLoop (steady True) True 0 5000 initialPollState) = Suc (0 + j)) \<and>
   (\<exists>j\<le>10. exit (geminiLoop (geminiSteady True False) True 0 5000 initialPollState) =
                Returned \<lparr>answer = ''Paris is the capital.''\<rparr> \<and>
             polled (geminiLoop (geminiSteady True False) True 0 5000 initialPollState) =
               Suc (0 + j))"
proof -
  have p: "''Paris'' \<noteq> [] \<and> (\<forall>j\<le>8. showsText (steady True (0 + j)) ''Paris'') \<and>
      elapsedAfter (steady True) 0 5000 8 < MAX_TIMEOUT"
    by (simp add: showsText_def steady_def perplexitySample_def elapsedAfter_numeral
        MAX_TIMEOUT_def)
  have g: "10 < length ''Paris is the capital.'' \<and>
      (\<forall>j\<le>10. showsText (geminiSteady True False (0 + j)) ''Paris is the capital.'') \<and>
      elapsedAfter (geminiSteady True False) 0 5000 10 < 120000"
    by (simp add: showsText_def geminiSteady_def geminiSample_def elapsedAfter_numeral)
  have p': "''Paris'' \<noteq> [] \<and> list_all (\<lambda>j. showsText (steady True (0 + j)) ''Paris'') [0..<9] \<and>
      elapsedAfter (steady True) 0 5000 8 < MAX_TIMEOUT"
    using p by (simp add: list_all_iff showsText_def steady_def perplexitySample_def)
  have g': "10 < length ''Paris is the capital.'' \<and>
      list_all (\<lambda>j. showsText (geminiSteady True False (0 + j)) ''Paris is the capital.'')
        [0..<11] \<and>
      elapsedAfter (geminiSteady True False) 0 5000 10 < 120000"
    using g by (simp add: list_all_iff showsText_def geminiSteady_def geminiSample_def)
  note inst = forced_stable_after_repeats [of "''Paris''" "steady True" 0 5000 True
      initialPollState "''Paris is the capital.''" "geminiSteady True False"]
  show ?thesis
    by (rule conjI [OF p' conjI [OF g' conjI [OF inst [THEN conjunct1, rule_format, OF p]
      inst [THEN conjunct2, rule_format, OF g]]]])
qed

text \<open>
  Claim C1 as stated fails. On Gemini every poll delivers the same answer of five
  characters while \<open>pending-response\<close> stays; on Perplexity every poll delivers the same
  empty text while the spinner stays. In both executions the text length never decreases
  and the text repeats on every poll, and both end with the timeout error instead of a
  stable answer.
\<close>

theorem forced_stable_counterexample:
  "settled (queryGemini (geminiSessionWith readyPage geminiShortAnswer) ''Capital of France?''
      True) =
     Inl (Error ''Timeout: no answer received from Gemini'') \<and>
   settled (queryPerplexity (sessionWith readyPage (blank True)) ''What is X?'' True) =
     Inl (Error ''Timeout: no answer received from Perplexity'')"
proof -
  have "\<forall>k. showsAtMost10 (polls (geminiSessionWith readyPage geminiShortAnswer) k)"
    by (simp add: showsAtMost10_def geminiShortAnswer_def geminiSample_def)
  then have g: "settled (queryGemini (geminiSessionWith readyPage geminiShortAnswer)
      ''Capital of France?'' True) = Inl (Error ''Timeout: no answer received from Gemini'')"
    by (intro queryGemini_all_short(1)) (simp_all add: geminiSubmitQuery_readyPage)
  have "\<forall>k. showsText (polls (sessionWith readyPage (blank True)) k) []"
    by (simp add: showsText_def blank_def perplexitySample_def)
  then have p: "settled (queryPerplexity (sessionWith readyPage (blank True)) ''What is X?''
      True) = Inl (Error ''Timeout: no answer received from Perplexity'')"
    by (intro queryPerplexity_all_empty(1)) (simp_all add: submitQuery_readyPage)
  from g p show ?thesis ..
qed

text \<open>
  Claim C2, as amended. When a text that the engine takes into account is new to the loop
  and is repeated by the following polls, all made before the deadline, then
  \<^item> in \<open>server.js\<close> the loop returns it exactly at the third repeat if \<open>isLoading\<close>
    is false at that poll;
  \<^item> in \<open>gemini-server.js\<close> the loop returns it exactly at the second repeat if at that
    poll \<open>isLoading\<close> is false and \<open>model-response\<close> exists, and exactly at the fifth
    repeat if \<open>isLoading\<close> is false there and no poll from the second repeat to the
    fourth has both \<open>isLoading\<close> false and \<open>model-response\<close> present.
\<close>

theorem early_stable_at_low_threshold:
  "(t \<noteq> [] \<and> lastText st \<noteq> t \<and> (\<forall>j\<le>3. showsText (ps (i + j)) t) \<and> idle (ps (i + 3)) \<and>
    elapsedAfter ps i el 3 < MAX_TIMEOUT \<longrightarrow>
      exit (perplexityLoop ps oc i el st) =
        Returned \<lparr>answer = t, sources = sourcesOf (ps (i + 3))\<rparr> \<and>
      polled (perplexityLoop ps oc i el st) = i + 4) \<and>
   (10 < length u \<and> lastText st \<noteq> u \<and> (\<forall>j\<le>2. showsText (gs (i + j)) u) \<and>
    idle (gs (i + 2)) \<and> modelDone (gs (i + 2)) \<and> elapsedAfter gs i el 2 < 120000 \<longrightarrow>
      exit (geminiLoop gs oc i el st) = Returned \<lparr>answer = u\<rparr> \<and>
      polled (geminiLoop gs oc i el st) = i + 3) \<and>
   (10 < length u \<and> lastText st \<noteq> u \<and> (\<forall>j\<le>5. showsText (hs (i + j)) u) \<and>
    (\<forall>j. 2 \<le> j \<and> j \<le> 4 \<longrightarrow> \<not> (idle (hs (i + j)) \<and> modelDone (hs (i + j)))) \<and>
    idle (hs (i + 5)) \<and> elapsedAfter hs i el 5 < 120000 \<longrightarrow>
      exit (geminiLoop hs oc i el st) = Returned \<lparr>answer = u\<rparr> \<and>
      polled (geminiLoop hs oc i el st) = i + 6)"
proof (intro conjI impI)
  assume "t \<noteq> [] \<and> lastText st \<noteq> t \<and> (\<forall>j\<le>3. showsText (ps (i + j)) t) \<and> idle (ps (i + 3)) \<and>
    elapsedAfter ps i el 3 < MAX_TIMEOUT"
  then have "exit (perplexityLoop ps oc i el st) =
        Returned \<lparr>answer = t, sources = sourcesOf (ps (i + 3))\<rparr> \<and>
      polled (perplexityLoop ps oc i el st) = i + 4"
    by (intro perplexityLoop_early) simp_all
  then show "exit (perplexityLoop ps oc i el st) =
        Returned \<lparr>answer = t, sources = sourcesOf (ps (i + 3))\<rparr>"
    and "polled (perplexityLoop ps oc i el st) = i + 4"
    by simp_all
next
  assume "10 < length u \<and> lastText st \<noteq> u \<and> (\<forall>j\<le>2. showsText (gs (i + j)) u) \<and>
    idle (gs (i + 2)) \<and> modelDone (gs (i + 2)) \<and> elapsedAfter gs i el 2 < 120000"
  then have "exit (geminiLoop gs oc i el st) = Returned \<lparr>answer = u\<rparr> \<and>
      polled (geminiLoop gs oc i el st) = i + 3"
    by (intro geminiLoop_early_done) simp_all
  then show "exit (geminiLoop gs oc i el st) = Returned \<lparr>answer = u\<rparr>"
    and "polled (geminiLoop gs oc i el st) = i + 3"
    by simp_all
next
  assume "10 < length u \<and> lastText st \<noteq> u \<and> (\<forall>j\<le>5. showsText (hs (i + j)) u) \<and>
    (\<forall>j. 2 \<le> j \<and> j \<le> 4 \<longrightarrow> \<not> (idle (hs (i + j)) \<and> modelDone (hs (i + j)))) \<and>
    idle (hs (i + 5)) \<and> elapsedAfter hs i el 5 < 120000"
  then have "exit (geminiLoop hs oc i el st) = Returned \<lparr>answer = u\<rparr> \<and>
      polled (geminiLoop hs oc i el st) = i + 6"
    by (intro geminiLoop_early_pending) simp_all
  then show "exit (geminiLoop hs oc i el st) = Returned \<lparr>answer = u\<rparr>"
    and "polled (geminiLoop hs oc i el st) = i + 6"
    by simp_all
qed

theorem early_stable_at_low_threshold_witness:
  "(''Paris'' \<noteq> [] \<and> lastText initialPollState \<noteq> ''Paris'' \<and>
    list_all (\<lambda>j. showsText (steady False (0 + j)) ''Paris'') [0..<4] \<and>
    idle (steady False (0 + 3)) \<and> elapsedAfter (steady False) 0 5000 3 < MAX_TIMEOUT) \<and>
   (10 < length ''Paris is the capital.'' \<and>
    lastText initialPollState \<noteq> ''Paris is the capital.'' \<and>
    list_all (\<lambda>j. showsText (geminiSteady False True (0 + j)) ''Paris is the capital.'') [0..<3] \<and>
    idle (geminiSteady False True (0 + 2)) \<and> modelDone (geminiSteady False True (0 + 2)) \<and>
    elapsedAfter (geminiSteady False True) 0 5000 2 < 120000) \<and>
   (list_all (\<lambda>j. showsText (geminiSteady False False (0 + j)) ''Paris is the capital.'') [0..<6] \<and>
    list_all (\<lambda>j. \<not> (idle (geminiSteady False False (0 + j)) \<and>
                     modelDone (geminiSteady False False (0 + j)))) [2..<5] \<and>
    idle (geminiSteady False False (0 + 5)) \<and>
    elapsedAfter (geminiSteady False False) 0 5000 5 < 120000) \<and>
   (exit (perplexityLoop (steady False) True 0 5000 initialPollState) =
      Returned \<lparr>answer = ''Paris'', sources = sourcesOf (steady False (0 + 3))\<rparr> \<and>
    polled (perplexityLoop (steady False) True 0 5000 initialPollState) = 0 + 4) \<and>
   (exit (geminiLoop (geminiSteady False True) True 0 5000 initialPollState) =
      Returned \<lparr>answer = ''Paris is the capital.''\<rparr> \<and>
    polled (geminiLoop (geminiSteady False True) True 0 5000 initialPollState) = 0 + 3) \<and>
   (exit (geminiLoop (geminiSteady False False) True 0 5000 initialPollState) =
      Returned \<lparr>answer = ''Paris is the capital.''\<rparr> \<and>
    polled (geminiLoop (geminiSteady False False) True 0 5000 initialPollState) = 0 + 6)"
proof -
  have p: "''Paris'' \<noteq> [] \<and> lastText initialPollState \<noteq> ''Paris'' \<and>
      (\<forall>j\<le>3. showsText (steady False (0 + j)) ''Paris'') \<and>
      idle (steady False (0 + 3)) \<and> elapsedAfter (steady False) 0 5000 3 < MAX_TIMEOUT"
    by (simp add: showsText_def idle_def steady_def perplexitySample_def initialPollState_def
        elapsedAfter_numeral MAX_TIMEOUT_def)
  have g: "10 < length ''Paris is the capital.'' \<and>
      lastText initialPollState \<noteq> ''Paris is the capital.'' \<and>
      (\<forall>j\<le>2. showsText (geminiSteady False True (0 + j)) ''Paris is the capital.'') \<and>
      idle (geminiSteady False True (0 + 2)) \<and> modelDone (geminiSteady False True (0 + 2)) \<and>
      elapsedAfter (geminiSteady False True) 0 5000 2 < 120000"
    by (simp add: showsText_def idle_def modelDone_def geminiSteady_def geminiSample_def
        initialPollState_def elapsedAfter_numeral)
  have h: "10 < length ''Paris is the capital.'' \<and>
      lastText initialPollState \<noteq> ''Paris is the capital.'' \<and>
      (\<forall>j\<le>5. showsText (geminiSteady False False (0 + j)) ''Paris is the capital.'') \<and>
      (\<forall>j. 2 \<le> j \<and> j \<le> 4 \<longrightarrow> \<not> (idle (geminiSteady False False (0 + j)) \<and>
                                  modelDone (geminiSteady False False (0 + j)))) \<and>
      idle (geminiSteady False False (0 + 5)) \<and>
      elapsedAfter (geminiSteady False False) 0 5000 5 < 120000"
    by (simp add: showsText_def idle_def modelDone_def geminiSteady_def geminiSample_def
        initialPollState_def elapsedAfter_numeral)
  note inst = early_stable_at_low_threshold [of "''Paris''" initialPollState "steady False" 0
      5000 True "''Paris is the capital.''" "geminiSteady False True" "geminiSteady False False"]
  have p': "''Paris'' \<noteq> [] \<and> lastText initialPollState \<noteq> ''Paris'' \<and>
      list_all (\<lambda>j. showsText (steady False (0 + j)) ''Paris'') [0..<4] \<and>
      idle (steady False (0 + 3)) \<and> elapsedAfter (steady False) 0 5000 3 < MAX_TIMEOUT"
    using p by (simp add: list_all_iff showsText_def steady_def perplexitySample_def)
  have g': "10 < length ''Paris is the capital.'' \<and>
      lastText initialPollState \<noteq> ''Paris is the capital.'' \<and>
      list_all (\<lambda>j. showsText (geminiSteady False True (0 + j)) ''Paris is the capital.'') [0..<3] \<and>
      idle (geminiSteady False True (0 + 2)) \<and> modelDone (geminiSteady False True (0 + 2)) \<and>
      elapsedAfter (geminiSteady False True) 0 5000 2 < 120000"
    using g by (simp add: list_all_iff showsText_def geminiSteady_def geminiSample_def)
  have h': "list_all (\<lambda>j. showsText (geminiSteady False False (0 + j)) ''Paris is the capital.'') [0..<6] \<and>
      list_all (\<lambda>j. \<not> (idle (geminiSteady False False (0 + j)) \<and>
                     modelDone (geminiSteady False False (0 + j)))) [2..<5] \<and>
      idle (geminiSteady False False (0 + 5)) \<and>
      elapsedAfter (geminiSteady False False) 0 5000 5 < 120000"
    using h by (simp add: list_all_iff showsText_def idle_def modelDone_def geminiSteady_def
        geminiSample_def)
  show ?thesis
    by (rule conjI [OF p' conjI [OF g' conjI [OF h'
      conjI [OF inst [THEN conjunct1, rule_format, OF p]
      conjI [OF inst [THEN conjunct2, THEN conjunct1, rule_format, OF g]
        inst [THEN conjunct2, THEN conjunct2, rule_format, OF h]]]]]])
qed

text \<open>
  Claim C2 as stated fails. In the first execution (Perplexity) the text repeats four times
  and \<open>isLoading\<close> becomes false at the fourth repeat: the loop returns at the fourth
  repeat (the fifth poll), later than the third. In the second (Gemini) a short answer is
  repeated four times with \<open>isLoading\<close> false and \<open>model-response\<close> present: the loop
  does not return it at the second repeat nor later, and returns at the eighth poll the
  longer text that came afterwards.
\<close>

theorem early_stable_counterexample:
  "settled (queryPerplexity (sessionWith readyPage lateIdle) ''Capital of France?'' True) =
     Inr \<lparr>answer = ''Paris'', sources = []\<rparr> \<and>
   map_option polled
     (polling (queryPerplexity (sessionWith readyPage lateIdle) ''Capital of France?'' True)) =
     Some 5 \<and>
   settled (queryGemini (geminiSessionWith readyPage geminiLateAnswer) ''Capital of France?''
      True) =
     Inr \<lparr>answer = ''Paris is the capital.''\<rparr> \<and>
   map_option polled
     (polling (queryGemini (geminiSessionWith readyPage geminiLateAnswer) ''Capital of France?''
        True)) =
     Some 8"
proof -
  have x: "perplexityLoop lateIdle True 0 5000 initialPollState =
      \<lparr>exit = Returned \<lparr>answer = ''Paris'', sources = []\<rparr>,
       final = \<lparr>lastText = ''Paris'', stableCount = 4, lastChunkedLength = 5,
                chunks = [''Paris'']\<rparr>,
       polled = 5, clock = 9000\<rparr>"
    by (simp add: perplexityLoop.simps perplexityPoll_def emitChunk_def lateIdle_def
        perplexitySample_def initialPollState_def MAX_TIMEOUT_def Let_def)
  have y: "geminiLoop geminiLateAnswer True 0 0 initialPollState =
      \<lparr>exit = Returned \<lparr>answer = ''Paris is the capital.''\<rparr>,
       final = \<lparr>lastText = ''Paris is the capital.'', stableCount = 2,
                lastChunkedLength = 21, chunks = [''Paris is the capital.'']\<rparr>,
       polled = 8, clock = 7000\<rparr>"
    by (simp add: geminiLoop.simps geminiPoll_def emitChunk_def geminiLateAnswer_def
        geminiSample_def initialPollState_def Let_def)
  show ?thesis
    by (simp add: queryPerplexity_ready queryGemini_ready x y perplexityOutcome_def
        geminiOutcome_def)
qed

text \<open>
  Claim C3, as amended. In every pass of either loop \<open>lastChunkedLength\<close> does not
  decrease, the chunks emitted so far are kept and new ones are only appended, and
  \<open>lastChunkedLength\<close> stays the total length of the chunks emitted, so each chunk starts
  at the offset where the previous one ended. When \<open>onChunk\<close> is supplied and the text grows
  by appending only (of any two texts the engine takes into account, the earlier is a
  prefix of the later), the chunks concatenated are the answer the execution resolves
  with.
\<close>

theorem streaming_deltas:
  "lastChunkedLength st \<le> lastChunkedLength (afterPass (perplexityPoll oc st e)) \<and>
   lastChunkedLength st \<le> lastChunkedLength (afterPass (geminiPoll oc st g)) \<and>
   prefix (chunks st) (chunks (afterPass (perplexityPoll oc st e))) \<and>
   prefix (chunks st) (chunks (afterPass (geminiPoll oc st g))) \<and>
   (length (concat (chunks st)) = lastChunkedLength st \<longrightarrow>
      length (concat (chunks (afterPass (perplexityPoll oc st e)))) =
        lastChunkedLength (afterPass (perplexityPoll oc st e)) \<and>
      length (concat (chunks (afterPass (geminiPoll oc st g)))) =
        lastChunkedLength (afterPass (geminiPoll oc st g))) \<and>
   (appendOnly nonEmpty (polls page) \<and> settled (queryPerplexity page query True) = Inr a \<longrightarrow>
      concat (deltas (queryPerplexity page query True)) = answer a) \<and>
   (appendOnly longerThan10 (polls gpage) \<and> settled (queryGemini gpage query True) = Inr b \<longrightarrow>
      concat (deltas (queryGemini gpage query True)) = answer b)"
proof (intro conjI impI)
  show "lastChunkedLength st \<le> lastChunkedLength (afterPass (perplexityPoll oc st e))"
    by (simp add: perplexityPoll_chunks emitChunk_monotone)
  show "lastChunkedLength st \<le> lastChunkedLength (afterPass (geminiPoll oc st g))"
    by (simp add: geminiPoll_chunks emitChunk_monotone)
  show "prefix (chunks st) (chunks (afterPass (perplexityPoll oc st e)))"
    by (simp add: perplexityPoll_chunks emitChunk_chunks_prefix)
  show "prefix (chunks st) (chunks (afterPass (geminiPoll oc st g)))"
    by (simp add: geminiPoll_chunks emitChunk_chunks_prefix)
next
  assume "length (concat (chunks st)) = lastChunkedLength st"
  then show "length (concat (chunks (afterPass (perplexityPoll oc st e)))) =
        lastChunkedLength (afterPass (perplexityPoll oc st e))"
    and "length (concat (chunks (afterPass (geminiPoll oc st g)))) =
        lastChunkedLength (afterPass (geminiPoll oc st g))"
    by (simp_all add: perplexityPoll_chunks geminiPoll_chunks emitChunk_total)
next
  assume "appendOnly nonEmpty (polls page) \<and> settled (queryPerplexity page query True) = Inr a"
  then show "concat (deltas (queryPerplexity page query True)) = answer a"
    by (intro queryPerplexity_gapless) simp_all
next
  assume "appendOnly longerThan10 (polls gpage) \<and>
    settled (queryGemini gpage query True) = Inr b"
  then show "concat (deltas (queryGemini gpage query True)) = answer b"
    by (intro queryGemini_gapless) simp_all
qed

theorem streaming_deltas_witness:
  "length (concat (chunks initialPollState)) = lastChunkedLength initialPollState \<and>
   (appendOnly nonEmpty (polls (sessionWith readyPage growing)) \<and>
    settled (queryPerplexity (sessionWith readyPage growing) ''Capital of France?'' True) =
      Inr \<lparr>answer = ''Paris'', sources = []\<rparr>) \<and>
   (appendOnly longerThan10 (polls (geminiSessionWith readyPage geminiGrowing)) \<and>
    settled (queryGemini (geminiSessionWith readyPage geminiGrowing) ''Capital of France?'' True) =
      Inr \<lparr>answer = ''Paris is the capital.''\<rparr>) \<and>
   length (concat (chunks (afterPass
      (perplexityPoll True initialPollState
         \<lparr>answerText = ''Par'', isLoading = False, extractedSources = []\<rparr>)))) =
     lastChunkedLength (afterPass
      (perplexityPoll True initialPollState
         \<lparr>answerText = ''Par'', isLoading = False, extractedSources = []\<rparr>)) \<and>
   concat (deltas (queryPerplexity (sessionWith readyPage growing) ''Capital of France?'' True)) =
     answer \<lparr>answer = ''Paris'', sources = []\<rparr> \<and>
   concat (deltas (queryGemini (geminiSessionWith readyPage geminiGrowing)
      ''Capital of France?'' True)) =
     answer \<lparr>answer = ''Paris is the capital.''\<rparr>"
proof -
  have i: "length (concat (chunks initialPollState)) = lastChunkedLength initialPollState"
    by (simp add: initialPollState_def)
  have p: "appendOnly nonEmpty (polls (sessionWith readyPage growing)) \<and>
      settled (queryPerplexity (sessionWith readyPage growing) ''Capital of France?'' True) =
        Inr \<lparr>answer = ''Paris'', sources = []\<rparr>"
    by (simp add: appendOnly_growing queryPerplexity_ready growing_run perplexityOutcome_def)
  have g: "appendOnly longerThan10 (polls (geminiSessionWith readyPage geminiGrowing)) \<and>
      settled (queryGemini (geminiSessionWith readyPage geminiGrowing) ''Capital of France?'' True) =
        Inr \<lparr>answer = ''Paris is the capital.''\<rparr>"
    by (simp add: appendOnly_geminiGrowing queryGemini_ready geminiGrowing_run geminiOutcome_def)
  note inst = streaming_deltas [of initialPollState True
      "\<lparr>answerText = ''Par'', isLoading = False, extractedSources = []\<rparr>" _
      "sessionWith readyPage growing" "''Capital of France?''"
      "\<lparr>answer = ''Paris'', sources = []\<rparr>"
      "geminiSessionWith readyPage geminiGrowing" "\<lparr>answer = ''Paris is the capital.''\<rparr>"]
  note rest = inst [THEN conjunct2, THEN conjunct2, THEN conjunct2, THEN conjunct2]
  show ?thesis
    by (rule conjI [OF i conjI [OF p conjI [OF g
      conjI [OF rest [THEN conjunct1, rule_format, OF i, THEN conjunct1]
      conjI [OF rest [THEN conjunct2, THEN conjunct1, rule_format, OF p]
        rest [THEN conjunct2, THEN conjunct2, rule_format, OF g]]]]]])
qed

text \<open>
  Claim C3 as stated fails: the page shows a placeholder, then replaces it by the answer.
  The execution resolves with the answer, and the chunks sent are the placeholder and
  the tail of the answer from the placeholder's length on.
\<close>

theorem streaming_deltas_counterexample:
  "settled (queryPerplexity (sessionWith readyPage rewritten) ''What is X?'' True) =
     Inr \<lparr>answer = ''The answer is 42.'', sources = []\<rparr> \<and>
   deltas (queryPerplexity (sessionWith readyPage rewritten) ''What is X?'' True) =
     [''Thinking...'', ''is 42.'']"
proof -
  have "perplexityLoop rewritten True 0 5000 initialPollState =
     \<lparr>exit = Returned \<lparr>answer = ''The answer is 42.'', sources = []\<rparr>,
      final = \<lparr>lastText = ''The answer is 42.'', stableCount = 3, lastChunkedLength = 17,
               chunks = [''Thinking...'', ''is 42.'']\<rparr>,
      polled = 5, clock = 9000\<rparr>"
    by (simp add: perplexityLoop.simps perplexityPoll_def emitChunk_def rewritten_def
        perplexitySample_def initialPollState_def MAX_TIMEOUT_def Let_def)
  then show ?thesis
    by (simp add: queryPerplexity_ready perplexityOutcome_def deltas_def)
qed

text \<open>
  Claim C4, as amended. \<open>extractAnswer\<close> of \<open>gemini-server.js\<close>, called with a
  non-empty query, returns the empty text whenever the text it has read from the page,
  normalised (runs of white space collapsed to one space, trimmed, lower-cased), starts
  with the normalised query or with "you said " followed by the normalised query; equality
  with the query is the first case. The extractors that take no query have no echo guard.
\<close>

theorem gemini_echo_guard:
  "query \<noteq> [] \<and>
   (prefix (norm query) (norm (geminiReading doc)) \<or>
    prefix (''you said '' @ norm query) (norm (geminiReading doc))) \<longrightarrow>
     answerText (fst (geminiExtractAnswer doc query)) = []"
  by (simp add: geminiExtractAnswer_def Let_def echoGuard_echo)

theorem gemini_echo_guard_witness:
  "(''What is X?'' \<noteq> [] \<and>
    prefix (''you said '' @ norm ''What is X?'') (norm (geminiReading geminiEchoDoc))) \<and>
   geminiReading geminiEchoDoc = ''You said What is X?'' \<and>
   answerText (fst (geminiExtractAnswer geminiEchoDoc ''What is X?'')) = []"
proof -
  have h: "''What is X?'' \<noteq> [] \<and>
      prefix (''you said '' @ norm ''What is X?'') (norm (geminiReading geminiEchoDoc))"
    by (simp add: geminiReading_echoDoc norm_examples)
  then have h': "''What is X?'' \<noteq> [] \<and>
      (prefix (norm ''What is X?'') (norm (geminiReading geminiEchoDoc)) \<or>
       prefix (''you said '' @ norm ''What is X?'') (norm (geminiReading geminiEchoDoc)))"
    by simp
  show ?thesis
    by (rule conjI [OF h conjI [OF geminiReading_echoDoc
      gemini_echo_guard [of "''What is X?''" geminiEchoDoc, rule_format, OF h']]])
qed

text \<open>
  Claim C4 as stated fails for the adapter of \<open>server.js\<close>: its \<open>extractAnswer\<close> takes
  no query, and returns the echoed question as the answer text.
\<close>

theorem echo_guard_counterexample:
  "answerText (fst (extractAnswer perplexityEchoDoc)) = ''You said What is X?''"
  by (simp add: extractAnswer_def perplexityEchoDoc_def proseSelector_def fallbackSels_def
      keepLonger_def Let_def)

text \<open>
  Claim C5, as amended. Nothing in either loop catches an exception of \<open>extractAnswer\<close>:
  when a call made before the deadline throws, the loop is left at once with that
  exception, whatever text has been seen before; no further poll is made, and the
  promise of the execution is rejected with the exception (after the page has been
  closed).
\<close>

theorem extraction_error_aborts:
  "(el < MAX_TIMEOUT \<and> outcome (ps i) = Inl err \<longrightarrow>
      perplexityLoop ps oc i el st =
        \<lparr>exit = Threw err, final = st, polled = Suc i, clock = el\<rparr>) \<and>
   (el < 120000 \<and> outcome (gs i) = Inl err \<longrightarrow>
      geminiLoop gs oc i el st =
        \<lparr>exit = Threw err, final = st, polled = Suc i, clock = el\<rparr>) \<and>
   (polling (queryPerplexity page query oc) = Some r \<and> exit r = Threw err \<longrightarrow>
      settled (queryPerplexity page query oc) = Inl err \<and>
      released (queryPerplexity page query oc) = [Page, BrowserContext]) \<and>
   (polling (queryGemini gpage query oc) = Some r' \<and> exit r' = Threw err \<longrightarrow>
      settled (queryGemini gpage query oc) = Inl err \<and>
      released (queryGemini gpage query oc) = [Page])"
proof (intro conjI impI)
  assume "el < MAX_TIMEOUT \<and> outcome (ps i) = Inl err"
  then show "perplexityLoop ps oc i el st =
      \<lparr>exit = Threw err, final = st, polled = Suc i, clock = el\<rparr>"
    by (simp add: perplexityLoop_threw)
next
  assume "el < 120000 \<and> outcome (gs i) = Inl err"
  then show "geminiLoop gs oc i el st =
      \<lparr>exit = Threw err, final = st, polled = Suc i, clock = el\<rparr>"
    by (simp add: geminiLoop_threw)
next
  assume a: "polling (queryPerplexity page query oc) = Some r \<and> exit r = Threw err"
  with queryPerplexity_loop(2) [of page query oc r]
  show "settled (queryPerplexity page query oc) = Inl err"
    by (simp add: perplexityOutcome_def)
  show "released (queryPerplexity page query oc) = [Page, BrowserContext]"
    by (simp add: queryPerplexity_settled)
next
  assume a: "polling (queryGemini gpage query oc) = Some r' \<and> exit r' = Threw err"
  with queryGemini_loop(2) [of gpage query oc r']
  show "settled (queryGemini gpage query oc) = Inl err"
    by (simp add: geminiOutcome_def)
  show "released (queryGemini gpage query oc) = [Page]"
    by (simp add: queryGemini_settled)
qed

theorem extraction_error_aborts_witness:
  "((7000::nat) < MAX_TIMEOUT \<and>
    outcome (oneBadRead 2) = Inl (Error ''Execution context was destroyed'')) \<and>
   ((7000::nat) < 120000 \<and>
    outcome (geminiOneBadRead 2) = Inl (Error ''Execution context was destroyed'')) \<and>
   (polling (queryPerplexity (sessionWith readyPage oneBadRead) ''Capital of France?'' True) =
      Some (perplexityLoop oneBadRead True 0 5000 initialPollState) \<and>
    exit (perplexityLoop oneBadRead True 0 5000 initialPollState) =
      Threw (Error ''Execution context was destroyed'')) \<and>
   (polling (queryGemini (geminiSessionWith readyPage geminiOneBadRead) ''Capital of France?''
       True) =
      Some (geminiLoop geminiOneBadRead True 0 0 initialPollState) \<and>
    exit (geminiLoop geminiOneBadRead True 0 0 initialPollState) =
      Threw (Error ''Execution context was destroyed'')) \<and>
   perplexityLoop oneBadRead True 2 7000 initialPollState =
     \<lparr>exit = Threw (Error ''Execution context was destroyed''), final = initialPollState,
      polled = Suc 2, clock = 7000\<rparr> \<and>
   geminiLoop geminiOneBadRead True 2 7000 initialPollState =
     \<lparr>exit = Threw (Error ''Execution context was destroyed''), final = initialPollState,
      polled = Suc 2, clock = 7000\<rparr> \<and>
   (settled (queryPerplexity (sessionWith readyPage oneBadRead) ''Capital of France?'' True) =
      Inl (Error ''Execution context was destroyed'') \<and>
    released (queryPerplexity (sessionWith readyPage oneBadRead) ''Capital of France?'' True) =
      [Page, BrowserContext]) \<and>
   (settled (queryGemini (geminiSessionWith readyPage geminiOneBadRead) ''Capital of France?''
       True) =
      Inl (Error ''Execution context was destroyed'') \<and>
    released (queryGemini (geminiSessionWith readyPage geminiOneBadRead) ''Capital of France?''
       True) = [Page])"
proof -
  have p: "(7000::nat) < MAX_TIMEOUT \<and>
      outcome (oneBadRead 2) = Inl (Error ''Execution context was destroyed'')"
    by (simp add: MAX_TIMEOUT_def oneBadRead_def failedPoll_def)
  have g: "(7000::nat) < 120000 \<and>
      outcome (geminiOneBadRead 2) = Inl (Error ''Execution context was destroyed'')"
    by (simp add: geminiOneBadRead_def failedPoll_def)
  have pe: "polling (queryPerplexity (sessionWith readyPage oneBadRead) ''Capital of France?''
        True) = Some (perplexityLoop oneBadRead True 0 5000 initialPollState) \<and>
      exit (perplexityLoop oneBadRead True 0 5000 initialPollState) =
        Threw (Error ''Execution context was destroyed'')"
    by (simp add: queryPerplexity_ready oneBadRead_run)
  have ge: "polling (queryGemini (geminiSessionWith readyPage geminiOneBadRead)
        ''Capital of France?'' True) =
        Some (geminiLoop geminiOneBadRead True 0 0 initialPollState) \<and>
      exit (geminiLoop geminiOneBadRead True 0 0 initialPollState) =
        Threw (Error ''Execution context was destroyed'')"
    by (simp add: queryGemini_ready geminiOneBadRead_run)
  note inst = extraction_error_aborts [of 7000 oneBadRead 2
      "Error ''Execution context was destroyed''" True initialPollState geminiOneBadRead
      "sessionWith readyPage oneBadRead" "''Capital of France?''"
      "perplexityLoop oneBadRead True 0 5000 initialPollState"
      "geminiSessionWith readyPage geminiOneBadRead"
      "geminiLoop geminiOneBadRead True 0 0 initialPollState"]
  note rest = inst [THEN conjunct2, THEN conjunct2]
  show ?thesis
    by (rule conjI [OF p conjI [OF g conjI [OF pe conjI [OF ge
      conjI [OF inst [THEN conjunct1, rule_format, OF p]
      conjI [OF inst [THEN conjunct2, THEN conjunct1, rule_format, OF g]
      conjI [OF rest [THEN conjunct1, rule_format, OF pe]
        rest [THEN conjunct2, rule_format, OF ge]]]]]]]])
qed

text \<open>
  Claim C5 as stated fails: two polls have shown the answer and the page would go on
  showing it, but the third call of \<open>extractAnswer\<close> throws, and the promise is rejected
  with that exception after three polls.
\<close>

theorem extraction_error_counterexample:
  "settled (queryPerplexity (sessionWith readyPage oneBadRead) ''Capital of France?'' True) =
     Inl (Error ''Execution context was destroyed'') \<and>
   map_option polled
     (polling (queryPerplexity (sessionWith readyPage oneBadRead) ''Capital of France?'' True)) =
     Some 3"
  by (simp add: queryPerplexity_ready oneBadRead_run perplexityOutcome_def)

text \<open>
  Claim C6, as amended. Both loops are total: every execution leaves the loop. When
  \<open>extractAnswer\<close> never throws and no text that the engine takes into account equals
  the one before it (and, in \<open>gemini-server.js\<close>, no short sample with
  \<open>model-response\<close> follows a longer text), the loop is left because of the deadline.
  When the loop is left because of the deadline, this happens at the first evaluation of the loop
  condition at which \<open>Date.now() - start\<close> is at least the deadline (120000 ms in both
  files), so not before the deadline, and less than one timer period plus the duration of
  the last pass after it. The execution then resolves with the last text that the engine
  took into account (non-empty in \<open>server.js\<close>, longer than 10 code units in
  \<open>gemini-server.js\<close>), with no sources, if there was one, and is rejected with the
  "no answer received" error otherwise.
\<close>

theorem deadline_outcome:
  "(gotoOutcome page = None \<and> submitQuery (inputPage page) = Inr True \<and>
    neverThrows (polls page) \<and> neverRepeats nonEmpty (polls page) \<longrightarrow>
      (\<exists>r. polling (queryPerplexity page query oc) = Some r \<and> exit r = DeadlineReached)) \<and>
   (gotoOutcome gpage = None \<and> dismissOutcome gpage = None \<and>
    geminiSubmitQuery (inputPage gpage) = Inr True \<and>
    neverThrows (polls gpage) \<and> neverRepeats longerThan10 (polls gpage) \<and>
    noFallback (polls gpage) \<longrightarrow>
      (\<exists>r. polling (queryGemini gpage query oc) = Some r \<and> exit r = DeadlineReached)) \<and>
   (polling (queryPerplexity page query oc) = Some r \<and> exit r = DeadlineReached \<longrightarrow>
      MAX_TIMEOUT \<le> clock r \<and>
      (0 < polled r \<longrightarrow> clock r < MAX_TIMEOUT + 1000 + lag (polls page (polled r - 1))) \<and>
      settled (queryPerplexity page query oc) =
        (if observedTexts nonEmpty (polls page) (polled r) = []
         then Inl (Error ''Timeout: no answer received from Perplexity'')
         else Inr \<lparr>answer = last (observedTexts nonEmpty (polls page) (polled r)),
                   sources = []\<rparr>)) \<and>
   (polling (queryGemini gpage query oc) = Some r' \<and> exit r' = DeadlineReached \<longrightarrow>
      120000 \<le> clock r' \<and>
      (0 < polled r' \<longrightarrow> clock r' < 120000 + 1000 + lag (polls gpage (polled r' - 1))) \<and>
      settled (queryGemini gpage query oc) =
        (if observedTexts longerThan10 (polls gpage) (polled r') = []
         then Inl (Error ''Timeout: no answer received from Gemini'')
         else Inr \<lparr>answer = last (observedTexts longerThan10 (polls gpage) (polled r'))\<rparr>))"
proof (intro conjI impI)
  assume a: "gotoOutcome page = None \<and> submitQuery (inputPage page) = Inr True \<and>
    neverThrows (polls page) \<and> neverRepeats nonEmpty (polls page)"
  then have "perplexityTry page query oc =
     (perplexityOutcome (perplexityLoop (polls page) oc 0 (5000 + startLag page) initialPollState),
      Some (perplexityLoop (polls page) oc 0 (5000 + startLag page) initialPollState))"
    by (intro perplexityTry_polls) simp_all
  moreover from a have "exit (perplexityLoop (polls page) oc 0 (5000 + startLag page)
      initialPollState) = DeadlineReached"
    by (intro perplexityLoop_never_repeats) simp_all
  ultimately show "\<exists>r. polling (queryPerplexity page query oc) = Some r \<and>
      exit r = DeadlineReached"
    by (simp add: queryPerplexity_settled)
next
  assume a: "gotoOutcome gpage = None \<and> dismissOutcome gpage = None \<and>
    geminiSubmitQuery (inputPage gpage) = Inr True \<and>
    neverThrows (polls gpage) \<and> neverRepeats longerThan10 (polls gpage) \<and>
    noFallback (polls gpage)"
  then have "geminiTry gpage query oc =
     (geminiOutcome (geminiLoop (polls gpage) oc 0 (startLag gpage) initialPollState),
      Some (geminiLoop (polls gpage) oc 0 (startLag gpage) initialPollState))"
    by (intro geminiTry_polls) simp_all
  moreover from a have "exit (geminiLoop (polls gpage) oc 0 (startLag gpage)
      initialPollState) = DeadlineReached"
    by (intro geminiLoop_never_repeats) simp_all
  ultimately show "\<exists>r. polling (queryGemini gpage query oc) = Some r \<and>
      exit r = DeadlineReached"
    by (simp add: queryGemini_settled)
next
  assume a: "polling (queryPerplexity page query oc) = Some r \<and> exit r = DeadlineReached"
  then have ran: "polling (queryPerplexity page query oc) = Some r"
    by simp
  have r: "r = perplexityLoop (polls page) oc 0 (5000 + startLag page) initialPollState"
    and s: "settled (queryPerplexity page query oc) = perplexityOutcome r"
    by (rule queryPerplexity_loop [OF ran])+
  from a have d: "exit (perplexityLoop (polls page) oc 0 (5000 + startLag page)
      initialPollState) = DeadlineReached"
    by (simp add: r)
  note facts = perplexityLoop_at_deadline [OF d, folded r]
  show "MAX_TIMEOUT \<le> clock r"
    by (rule facts(1))
  show "clock r < MAX_TIMEOUT + 1000 + lag (polls page (polled r - 1))" if "0 < polled r"
    using that by (rule facts(2))
  show "settled (queryPerplexity page query oc) =
        (if observedTexts nonEmpty (polls page) (polled r) = []
         then Inl (Error ''Timeout: no answer received from Perplexity'')
         else Inr \<lparr>answer = last (observedTexts nonEmpty (polls page) (polled r)),
                   sources = []\<rparr>)"
  proof (cases "observedTexts nonEmpty (polls page) (polled r) = []")
    case True
    with a facts(3) show ?thesis
      by (simp add: s perplexityOutcome_def lastOr_def)
  next
    case False
    then have "last (observedTexts nonEmpty (polls page) (polled r)) \<noteq> []"
      using last_observedTexts [of nonEmpty "polls page" "polled r"]
      by (simp add: nonEmpty_def)
    with False a facts(3) show ?thesis
      by (simp add: s perplexityOutcome_def lastOr_def)
  qed
next
  assume a: "polling (queryGemini gpage query oc) = Some r' \<and> exit r' = DeadlineReached"
  then have ran: "polling (queryGemini gpage query oc) = Some r'"
    by simp
  have r: "r' = geminiLoop (polls gpage) oc 0 (startLag gpage) initialPollState"
    and s: "settled (queryGemini gpage query oc) = geminiOutcome r'"
    by (rule queryGemini_loop [OF ran])+
  from a have d: "exit (geminiLoop (polls gpage) oc 0 (startLag gpage)
      initialPollState) = DeadlineReached"
    by (simp add: r)
  note facts = geminiLoop_at_deadline [OF d, folded r]
  show "120000 \<le> clock r'"
    by (rule facts(1))
  show "clock r' < 120000 + 1000 + lag (polls gpage (polled r' - 1))" if "0 < polled r'"
    using that by (rule facts(2))
  show "settled (queryGemini gpage query oc) =
        (if observedTexts longerThan10 (polls gpage) (polled r') = []
         then Inl (Error ''Timeout: no answer received from Gemini'')
         else Inr \<lparr>answer = last (observedTexts longerThan10 (polls gpage) (polled r'))\<rparr>)"
  proof (cases "observedTexts longerThan10 (polls gpage) (polled r') = []")
    case True
    with a facts(3) show ?thesis
      by (simp add: s geminiOutcome_def lastOr_def)
  next
    case False
    then have "last (observedTexts longerThan10 (polls gpage) (polled r')) \<noteq> []"
      using last_observedTexts [of longerThan10 "polls gpage" "polled r'"]
      by (auto simp: longerThan10_def)
    with False a facts(3) show ?thesis
      by (simp add: s geminiOutcome_def lastOr_def)
  qed
qed


theorem deadline_outcome_witness:
  "(gotoOutcome (sessionWith readyPage pingPong) = None \<and>
    submitQuery (inputPage (sessionWith readyPage pingPong)) = Inr True \<and>
    neverThrows (polls (sessionWith readyPage pingPong)) \<and>
    neverRepeats nonEmpty (polls (sessionWith readyPage pingPong))) \<and>
   (gotoOutcome (geminiSessionWith readyPage geminiBrief) = None \<and>
    dismissOutcome (geminiSessionWith readyPage geminiBrief) = None \<and>
    geminiSubmitQuery (inputPage (geminiSessionWith readyPage geminiBrief)) = Inr True \<and>
    neverThrows (polls (geminiSessionWith readyPage geminiBrief)) \<and>
    neverRepeats longerThan10 (polls (geminiSessionWith readyPage geminiBrief)) \<and>
    noFallback (polls (geminiSessionWith readyPage geminiBrief))) \<and>
   (\<exists>r. polling (queryPerplexity (sessionWith readyPage pingPong) ''Ping?'' True) = Some r \<and>
        exit r = DeadlineReached) \<and>
   (\<exists>r. polling (queryGemini (geminiSessionWith readyPage geminiBrief) ''Ping?'' True) = Some r \<and>
        exit r = DeadlineReached) \<and>
   (polling (queryPerplexity (sessionWith readyPage pingPong) ''Ping?'' True) =
      Some (perplexityLoop pingPong True 0 5000 initialPollState) \<and>
    exit (perplexityLoop pingPong True 0 5000 initialPollState) = DeadlineReached) \<and>
   (polling (queryGemini (geminiSessionWith readyPage geminiBrief) ''Ping?'' True) =
      Some (geminiLoop geminiBrief True 0 0 initialPollState) \<and>
    exit (geminiLoop geminiBrief True 0 0 initialPollState) = DeadlineReached) \<and>
   0 < polled (perplexityLoop pingPong True 0 5000 initialPollState) \<and>
   0 < polled (geminiLoop geminiBrief True 0 0 initialPollState) \<and>
   MAX_TIMEOUT \<le> clock (perplexityLoop pingPong True 0 5000 initialPollState) \<and>
   clock (perplexityLoop pingPong True 0 5000 initialPollState) <
     MAX_TIMEOUT + 1000 +
       lag (polls (sessionWith readyPage pingPong)
              (polled (perplexityLoop pingPong True 0 5000 initialPollState) - 1)) \<and>
   settled (queryPerplexity (sessionWith readyPage pingPong) ''Ping?'' True) =
     (if observedTexts nonEmpty (polls (sessionWith readyPage pingPong))
           (polled (perplexityLoop pingPong True 0 5000 initialPollState)) = []
      then Inl (Error ''Timeout: no answer received from Perplexity'')
      else Inr \<lparr>answer = last (observedTexts nonEmpty (polls (sessionWith readyPage pingPong))
                   (polled (perplexityLoop pingPong True 0 5000 initialPollState))),
                sources = []\<rparr>) \<and>
   120000 \<le> clock (geminiLoop geminiBrief True 0 0 initialPollState) \<and>
   clock (geminiLoop geminiBrief True 0 0 initialPollState) <
     120000 + 1000 +
       lag (polls (geminiSessionWith readyPage geminiBrief)
              (polled (geminiLoop geminiBrief True 0 0 initialPollState) - 1)) \<and>
   settled (queryGemini (geminiSessionWith readyPage geminiBrief) ''Ping?'' True) =
     (if observedTexts longerThan10 (polls (geminiSessionWith readyPage geminiBrief))
           (polled (geminiLoop geminiBrief True 0 0 initialPollState)) = []
      then Inl (Error ''Timeout: no answer received from Gemini'')
      else Inr \<lparr>answer = last (observedTexts longerThan10
                   (polls (geminiSessionWith readyPage geminiBrief))
                   (polled (geminiLoop geminiBrief True 0 0 initialPollState)))\<rparr>)"
proof -
  have p: "polling (queryPerplexity (sessionWith readyPage pingPong) ''Ping?'' True) =
      Some (perplexityLoop pingPong True 0 5000 initialPollState) \<and>
    exit (perplexityLoop pingPong True 0 5000 initialPollState) = DeadlineReached"
    by (simp add: queryPerplexity_ready pingPong_run)
  have g: "polling (queryGemini (geminiSessionWith readyPage geminiBrief) ''Ping?'' True) =
      Some (geminiLoop geminiBrief True 0 0 initialPollState) \<and>
    exit (geminiLoop geminiBrief True 0 0 initialPollState) = DeadlineReached"
    by (simp add: queryGemini_ready geminiBrief_run)
  have pp: "0 < polled (perplexityLoop pingPong True 0 5000 initialPollState)"
    by (simp add: pingPong_run)
  have gp: "0 < polled (geminiLoop geminiBrief True 0 0 initialPollState)"
    by (simp add: geminiBrief_run)
  note inst = deadline_outcome [where page = "sessionWith readyPage pingPong"
      and query = "''Ping?''" and oc = True
      and r = "perplexityLoop pingPong True 0 5000 initialPollState"
      and gpage = "geminiSessionWith readyPage geminiBrief"
      and r' = "geminiLoop geminiBrief True 0 0 initialPollState"]
  have np: "gotoOutcome (sessionWith readyPage pingPong) = None \<and>
    submitQuery (inputPage (sessionWith readyPage pingPong)) = Inr True \<and>
    neverThrows (polls (sessionWith readyPage pingPong)) \<and>
    neverRepeats nonEmpty (polls (sessionWith readyPage pingPong))"
    by (simp add: submitQuery_readyPage neverRepeats_pingPong)
  have ng: "gotoOutcome (geminiSessionWith readyPage geminiBrief) = None \<and>
    dismissOutcome (geminiSessionWith readyPage geminiBrief) = None \<and>
    geminiSubmitQuery (inputPage (geminiSessionWith readyPage geminiBrief)) = Inr True \<and>
    neverThrows (polls (geminiSessionWith readyPage geminiBrief)) \<and>
    neverRepeats longerThan10 (polls (geminiSessionWith readyPage geminiBrief)) \<and>
    noFallback (polls (geminiSessionWith readyPage geminiBrief))"
    by (simp add: geminiSubmitQuery_readyPage neverRepeats_geminiBrief)
  note rest = inst [THEN conjunct2, THEN conjunct2]
  note cp = rest [THEN conjunct1, rule_format, OF p]
  note cg = rest [THEN conjunct2, rule_format, OF g]
  show ?thesis
    by (rule conjI [OF np conjI [OF ng
      conjI [OF inst [THEN conjunct1, rule_format, OF np]
      conjI [OF inst [THEN conjunct2, THEN conjunct1, rule_format, OF ng]
      conjI [OF p conjI [OF g conjI [OF pp conjI [OF gp
      conjI [OF cp [THEN conjunct1]
      conjI [OF cp [THEN conjunct2, THEN conjunct1, rule_format, OF pp]
      conjI [OF cp [THEN conjunct2, THEN conjunct2]
      conjI [OF cg [THEN conjunct1]
      conjI [OF cg [THEN conjunct2, THEN conjunct1, rule_format, OF gp]
        cg [THEN conjunct2, THEN conjunct2]]]]]]]]]]]]]])
qed

text \<open>
  Claim C6 as stated fails. The text flips on every poll, so it never repeats, and each
  call of \<open>extractAnswer\<close> takes half a second. On Perplexity the loop is left 120500 ms
  after \<open>start\<close>, after the deadline of 120000 ms, with the last text as a partial
  answer. On Gemini, where the two texts have four characters, the execution is rejected
  with the "no answer received" error although every poll observed a non-empty text.
\<close>

theorem deadline_outcome_counterexample:
  "map_option clock (polling (queryPerplexity (sessionWith readyPage pingPong) ''Ping?'' True)) =
     Some 120500 \<and>
   MAX_TIMEOUT < 120500 \<and>
   settled (queryPerplexity (sessionWith readyPage pingPong) ''Ping?'' True) =
     Inr \<lparr>answer = ''ping'', sources = []\<rparr> \<and>
   textOf (geminiPingPong 0) = ''ping'' \<and>
   settled (queryGemini (geminiSessionWith readyPage geminiPingPong) ''Ping?'' True) =
     Inl (Error ''Timeout: no answer received from Gemini'')"
proof -
  have p: "map_option clock
      (polling (queryPerplexity (sessionWith readyPage pingPong) ''Ping?'' True)) =
     Some 120500 \<and>
   MAX_TIMEOUT < 120500 \<and>
   settled (queryPerplexity (sessionWith readyPage pingPong) ''Ping?'' True) =
     Inr \<lparr>answer = ''ping'', sources = []\<rparr>"
    by (simp add: queryPerplexity_ready pingPong_run perplexityOutcome_def MAX_TIMEOUT_def)
  have t: "textOf (geminiPingPong 0) = ''ping''"
    by (simp add: textOf_def geminiPingPong_def geminiSample_def)
  have "\<forall>k. showsAtMost10 (polls (geminiSessionWith readyPage geminiPingPong) k)"
    by (simp add: showsAtMost10_def geminiPingPong_def geminiSample_def)
  then have g: "settled (queryGemini (geminiSessionWith readyPage geminiPingPong) ''Ping?''
      True) = Inl (Error ''Timeout: no answer received from Gemini'')"
    by (intro queryGemini_all_short(1)) (simp_all add: geminiSubmitQuery_readyPage)
  from p t g show ?thesis
    by simp
qed

text \<open>
  Claim C7. After any sequence of \<open>enqueue\<close> calls and task settlements: at most one
  task function is executing; every call of \<open>enqueue\<close> has made one job, and the tasks
  started so far, followed by the jobs still waiting, are these jobs in the order of the
  calls, so tasks start in exactly the order they were enqueued and none is lost; every
  started task has settled or is the one executing; a job waits only while another one
  is executing. A job enqueued while nothing is executing is started at once, and one
  enqueued while a task is executing joins the end of the queue. When the executing task
  settles, fulfilled or rejected alike, its outcome is passed on, and the head of the queue
  is started at once, or, with nothing waiting, nothing is executing any more and
  \<open>processing\<close> is false again. So of \<open>n\<close> jobs enqueued at once, job \<open>k\<close> is executing
  as soon as the \<open>k\<close> jobs before it have settled, whatever their outcomes, and after
  \<open>n\<close> settlements all \<open>n\<close> have run, in order.
\<close>

theorem queue_serializes:
  "length (executing (runQueue evs)) \<le> 1 \<and>
   enqueued (runQueue evs) = length (filter (\<lambda>ev. ev = Enqueue) evs) \<and>
   started (runQueue evs) @ requestQueue (runQueue evs) = [0..<enqueued (runQueue evs)] \<and>
   map fst (settledJobs (runQueue evs)) @ executing (runQueue evs) = started (runQueue evs) \<and>
   (processing (runQueue evs) \<longleftrightarrow> executing (runQueue evs) \<noteq> []) \<and>
   (requestQueue (runQueue evs) \<noteq> [] \<longrightarrow> executing (runQueue evs) \<noteq> []) \<and>
   (executing (runQueue evs) = [] \<longrightarrow>
      executing (runQueue (evs @ [Enqueue])) = [enqueued (runQueue evs)] \<and>
      started (runQueue (evs @ [Enqueue])) = started (runQueue evs) @ [enqueued (runQueue evs)] \<and>
      requestQueue (runQueue (evs @ [Enqueue])) = []) \<and>
   (executing (runQueue evs) \<noteq> [] \<longrightarrow>
      executing (runQueue (evs @ [Enqueue])) = executing (runQueue evs) \<and>
      started (runQueue (evs @ [Enqueue])) = started (runQueue evs) \<and>
      requestQueue (runQueue (evs @ [Enqueue])) =
        requestQueue (runQueue evs) @ [enqueued (runQueue evs)]) \<and>
   (\<forall>job ok. job \<in> set (executing (runQueue evs)) \<longrightarrow>
      settledJobs (runQueue (evs @ [TaskSettled job ok])) =
        settledJobs (runQueue evs) @ [(job, ok)] \<and>
      (requestQueue (runQueue evs) = [] \<longrightarrow>
         executing (runQueue (evs @ [TaskSettled job ok])) = [] \<and>
         \<not> processing (runQueue (evs @ [TaskSettled job ok])) \<and>
         started (runQueue (evs @ [TaskSettled job ok])) = started (runQueue evs)) \<and>
      (\<forall>nxt rest. requestQueue (runQueue evs) = nxt # rest \<longrightarrow>
         executing (runQueue (evs @ [TaskSettled job ok])) = [nxt] \<and>
         started (runQueue (evs @ [TaskSettled job ok])) = started (runQueue evs) @ [nxt] \<and>
         requestQueue (runQueue (evs @ [TaskSettled job ok])) = rest)) \<and>
   (\<forall>job ok. job \<notin> set (executing (runQueue evs)) \<longrightarrow>
      runQueue (evs @ [TaskSettled job ok]) = runQueue evs) \<and>
   (\<forall>n k oks. k < n \<longrightarrow>
      runQueue (replicate n Enqueue @ map (\<lambda>job. TaskSettled job (oks job)) [0..<k]) =
        \<lparr>requestQueue = [Suc k..<n], processing = True, enqueued = n,
         executing = [k], started = [0..<Suc k],
         settledJobs = map (\<lambda>job. (job, oks job)) [0..<k]\<rparr>) \<and>
   (\<forall>n oks.
      runQueue (replicate n Enqueue @ map (\<lambda>job. TaskSettled job (oks job)) [0..<n]) =
        \<lparr>requestQueue = [], processing = False, enqueued = n,
         executing = [], started = [0..<n],
         settledJobs = map (\<lambda>job. (job, oks job)) [0..<n]\<rparr>)"
proof -
  have inv: "queueInv (runQueue evs)"
    by (rule queueInv_run)
  have settle: "runQueue (evs @ [TaskSettled job ok]) = taskSettled job ok (runQueue evs)"
    for job ok
    by (simp add: runQueue_snoc)
  have arrive: "runQueue (evs @ [Enqueue]) = enqueue (runQueue evs)"
    by (simp add: runQueue_snoc)
  from inv have state: "length (executing (runQueue evs)) \<le> 1"
    "started (runQueue evs) @ requestQueue (runQueue evs) = [0..<enqueued (runQueue evs)]"
    "map fst (settledJobs (runQueue evs)) @ executing (runQueue evs) = started (runQueue evs)"
    "processing (runQueue evs) \<longleftrightarrow> executing (runQueue evs) \<noteq> []"
    "requestQueue (runQueue evs) \<noteq> [] \<longrightarrow> executing (runQueue evs) \<noteq> []"
    by (auto simp: queueInv_def)
  show ?thesis
  proof (intro conjI allI impI)
    show "length (executing (runQueue evs)) \<le> 1"
      by (rule state)
    show "enqueued (runQueue evs) = length (filter (\<lambda>ev. ev = Enqueue) evs)"
      by (rule enqueued_run)
    show "started (runQueue evs) @ requestQueue (runQueue evs) = [0..<enqueued (runQueue evs)]"
      by (rule state)
    show "map fst (settledJobs (runQueue evs)) @ executing (runQueue evs) = started (runQueue evs)"
      by (rule state)
    show "processing (runQueue evs) \<longleftrightarrow> executing (runQueue evs) \<noteq> []"
      by (rule state)
    show "executing (runQueue evs) \<noteq> []" if "requestQueue (runQueue evs) \<noteq> []"
      using state(5) that by simp
  next
    assume idle: "executing (runQueue evs) = []"
    show "executing (runQueue (evs @ [Enqueue])) = [enqueued (runQueue evs)]"
      and "started (runQueue (evs @ [Enqueue])) = started (runQueue evs) @ [enqueued (runQueue evs)]"
      and "requestQueue (runQueue (evs @ [Enqueue])) = []"
      using enqueue_idle [OF inv idle] by (simp_all add: arrive)
  next
    assume busy: "executing (runQueue evs) \<noteq> []"
    show "executing (runQueue (evs @ [Enqueue])) = executing (runQueue evs)"
      and "started (runQueue (evs @ [Enqueue])) = started (runQueue evs)"
      and "requestQueue (runQueue (evs @ [Enqueue])) =
             requestQueue (runQueue evs) @ [enqueued (runQueue evs)]"
      using enqueue_busy [OF inv busy] by (simp_all add: arrive)
  next
    fix job ok
    assume running: "job \<in> set (executing (runQueue evs))"
    show "settledJobs (runQueue (evs @ [TaskSettled job ok])) =
            settledJobs (runQueue evs) @ [(job, ok)]"
      using taskSettled_log [OF running] by (simp add: settle)
    {
      assume last: "requestQueue (runQueue evs) = []"
      show "executing (runQueue (evs @ [TaskSettled job ok])) = []"
        and "\<not> processing (runQueue (evs @ [TaskSettled job ok]))"
        and "started (runQueue (evs @ [TaskSettled job ok])) = started (runQueue evs)"
        using taskSettled_frees [OF inv running last] by (simp_all add: settle)
    }
    {
      fix nxt rest
      assume waiting: "requestQueue (runQueue evs) = nxt # rest"
      show "executing (runQueue (evs @ [TaskSettled job ok])) = [nxt]"
        and "started (runQueue (evs @ [TaskSettled job ok])) = started (runQueue evs) @ [nxt]"
        and "requestQueue (runQueue (evs @ [TaskSettled job ok])) = rest"
        using taskSettled_starts_next [OF inv running waiting] by (simp_all add: settle)
    }
  next
    fix job ok
    assume "job \<notin> set (executing (runQueue evs))"
    then show "runQueue (evs @ [TaskSettled job ok]) = runQueue evs"
      by (simp add: settle taskSettled_other)
  next
    fix n k :: nat and oks
    assume "k < n"
    then show "runQueue (replicate n Enqueue @ map (\<lambda>job. TaskSettled job (oks job)) [0..<k]) =
        \<lparr>requestQueue = [Suc k..<n], processing = True, enqueued = n,
         executing = [k], started = [0..<Suc k],
         settledJobs = map (\<lambda>job. (job, oks job)) [0..<k]\<rparr>"
      by (rule run_drain)
  next
    fix n and oks
    show "runQueue (replicate n Enqueue @ map (\<lambda>job. TaskSettled job (oks job)) [0..<n]) =
        \<lparr>requestQueue = [], processing = False, enqueued = n,
         executing = [], started = [0..<n],
         settledJobs = map (\<lambda>job. (job, oks job)) [0..<n]\<rparr>"
      by (rule run_drained)
  qed
qed

text \<open>
  The first request finds the queue idle and is started; a second one waits. Of three
  requests the first fails: the second is started, the third still waits. A single
  request fails with nothing waiting: the queue is idle again, and the next request is
  started at once.
\<close>

theorem queue_serializes_witness:
  "executing (runQueue []) = [] \<and>
   executing (runQueue ([] @ [Enqueue])) = [0] \<and>
   executing (runQueue [Enqueue]) \<noteq> [] \<and>
   executing (runQueue ([Enqueue] @ [Enqueue])) = [0] \<and>
   requestQueue (runQueue ([Enqueue] @ [Enqueue])) = [1] \<and>
   0 \<in> set (executing (runQueue [Enqueue, Enqueue, Enqueue])) \<and>
   requestQueue (runQueue [Enqueue, Enqueue, Enqueue]) = [1, 2] \<and>
   executing (runQueue ([Enqueue, Enqueue, Enqueue] @ [TaskSettled 0 False])) = [1] \<and>
   started (runQueue ([Enqueue, Enqueue, Enqueue] @ [TaskSettled 0 False])) = [0, 1] \<and>
   requestQueue (runQueue ([Enqueue, Enqueue, Enqueue] @ [TaskSettled 0 False])) = [2] \<and>
   settledJobs (runQueue ([Enqueue, Enqueue, Enqueue] @ [TaskSettled 0 False])) = [(0, False)] \<and>
   0 \<in> set (executing (runQueue [Enqueue])) \<and>
   requestQueue (runQueue [Enqueue]) = [] \<and>
   executing (runQueue ([Enqueue] @ [TaskSettled 0 False])) = [] \<and>
   \<not> processing (runQueue ([Enqueue] @ [TaskSettled 0 False])) \<and>
   executing (runQueue ([Enqueue, TaskSettled 0 False] @ [Enqueue])) = [1] \<and>
   started (runQueue ([Enqueue, TaskSettled 0 False] @ [Enqueue])) = [0, 1] \<and>
   7 \<notin> set (executing (runQueue [Enqueue])) \<and>
   runQueue ([Enqueue] @ [TaskSettled 7 True]) = runQueue [Enqueue] \<and>
   (1::nat) < 3 \<and>
   runQueue (replicate 3 Enqueue @ map (\<lambda>job. TaskSettled job (job \<noteq> 0)) [0..<1]) =
     \<lparr>requestQueue = [2], processing = True, enqueued = 3,
      executing = [1], started = [0, 1], settledJobs = [(0, False)]\<rparr>"
proof -
  have none: "executing (runQueue []) = []" "enqueued (runQueue []) = 0"
    by (simp_all add: runQueue_def initialQueue_def)
  have one: "executing (runQueue [Enqueue]) = [0]" "requestQueue (runQueue [Enqueue]) = []"
    "enqueued (runQueue [Enqueue]) = 1" "started (runQueue [Enqueue]) = [0]"
    by (simp_all add: runQueue_def initialQueue_def enqueue_def processQueue_def)
  have three: "executing (runQueue [Enqueue, Enqueue, Enqueue]) = [0]"
    "requestQueue (runQueue [Enqueue, Enqueue, Enqueue]) = [1, 2]"
    "started (runQueue [Enqueue, Enqueue, Enqueue]) = [0]"
    "settledJobs (runQueue [Enqueue, Enqueue, Enqueue]) = []"
    by (simp_all add: runQueue_def initialQueue_def enqueue_def processQueue_def)
  have failed: "executing (runQueue [Enqueue, TaskSettled 0 False]) = []"
    "enqueued (runQueue [Enqueue, TaskSettled 0 False]) = 1"
    "started (runQueue [Enqueue, TaskSettled 0 False]) = [0]"
    by (simp_all add: runQueue_def initialQueue_def enqueue_def processQueue_def taskSettled_def)
  have first: "executing (runQueue ([] @ [Enqueue])) = [0]"
    using queue_serializes [of "[]"] none by simp
  have second: "executing (runQueue ([Enqueue] @ [Enqueue])) = [0] \<and>
      requestQueue (runQueue ([Enqueue] @ [Enqueue])) = [1]"
    using queue_serializes [of "[Enqueue]"] one by simp
  have running: "0 \<in> set (executing (runQueue [Enqueue, Enqueue, Enqueue]))"
    by (simp add: three)
  note burst = queue_serializes [of "[Enqueue, Enqueue, Enqueue]"]
  from burst have "\<forall>job ok. job \<in> set (executing (runQueue [Enqueue, Enqueue, Enqueue])) \<longrightarrow>
      settledJobs (runQueue ([Enqueue, Enqueue, Enqueue] @ [TaskSettled job ok])) =
        settledJobs (runQueue [Enqueue, Enqueue, Enqueue]) @ [(job, ok)] \<and>
      (\<forall>nxt rest. requestQueue (runQueue [Enqueue, Enqueue, Enqueue]) = nxt # rest \<longrightarrow>
         executing (runQueue ([Enqueue, Enqueue, Enqueue] @ [TaskSettled job ok])) = [nxt] \<and>
         started (runQueue ([Enqueue, Enqueue, Enqueue] @ [TaskSettled job ok])) =
           started (runQueue [Enqueue, Enqueue, Enqueue]) @ [nxt] \<and>
         requestQueue (runQueue ([Enqueue, Enqueue, Enqueue] @ [TaskSettled job ok])) = rest)"
    by blast
  with running three(2) have third:
      "settledJobs (runQueue ([Enqueue, Enqueue, Enqueue] @ [TaskSettled 0 False])) =
         settledJobs (runQueue [Enqueue, Enqueue, Enqueue]) @ [(0, False)] \<and>
       executing (runQueue ([Enqueue, Enqueue, Enqueue] @ [TaskSettled 0 False])) = [1] \<and>
       started (runQueue ([Enqueue, Enqueue, Enqueue] @ [TaskSettled 0 False])) =
         started (runQueue [Enqueue, Enqueue, Enqueue]) @ [1] \<and>
       requestQueue (runQueue ([Enqueue, Enqueue, Enqueue] @ [TaskSettled 0 False])) = [2]"
    by blast
  have alone: "0 \<in> set (executing (runQueue [Enqueue]))"
    by (simp add: one)
  from queue_serializes [of "[Enqueue]"] have
    "\<forall>job ok. job \<in> set (executing (runQueue [Enqueue])) \<longrightarrow>
      (requestQueue (runQueue [Enqueue]) = [] \<longrightarrow>
         executing (runQueue ([Enqueue] @ [TaskSettled job ok])) = [] \<and>
         \<not> processing (runQueue ([Enqueue] @ [TaskSettled job ok])))"
    by blast
  with alone one(2) have freed: "executing (runQueue ([Enqueue] @ [TaskSettled 0 False])) = [] \<and>
       \<not> processing (runQueue ([Enqueue] @ [TaskSettled 0 False]))"
    by blast
  have again: "executing (runQueue ([Enqueue, TaskSettled 0 False] @ [Enqueue])) = [1] \<and>
      started (runQueue ([Enqueue, TaskSettled 0 False] @ [Enqueue])) = [0, 1]"
    using queue_serializes [of "[Enqueue, TaskSettled 0 False]"] failed by simp
  have stranger: "7 \<notin> set (executing (runQueue [Enqueue]))"
    by (simp add: one)
  from queue_serializes [of "[Enqueue]"] have
    "\<forall>job ok. job \<notin> set (executing (runQueue [Enqueue])) \<longrightarrow>
        runQueue ([Enqueue] @ [TaskSettled job ok]) = runQueue [Enqueue]"
    by blast
  with stranger have ignored: "runQueue ([Enqueue] @ [TaskSettled 7 True]) = runQueue [Enqueue]"
    by blast
  from queue_serializes [of "[]"] have
    "\<forall>n k oks. k < n \<longrightarrow>
      runQueue (replicate n Enqueue @ map (\<lambda>job. TaskSettled job (oks job)) [0..<k]) =
        \<lparr>requestQueue = [Suc k..<n], processing = True, enqueued = n,
         executing = [k], started = [0..<Suc k],
         settledJobs = map (\<lambda>job. (job, oks job)) [0..<k]\<rparr>"
    by blast
  then have "(1::nat) < 3 \<longrightarrow>
      runQueue (replicate 3 Enqueue @ map (\<lambda>job. TaskSettled job (job \<noteq> 0)) [0..<1]) =
        \<lparr>requestQueue = [Suc 1..<3], processing = True, enqueued = 3,
         executing = [1], started = [0..<Suc 1],
         settledJobs = map (\<lambda>job. (job, job \<noteq> 0)) [0..<1]\<rparr>"
    by (rule allE [where x = 3], elim allE [where x = 1] allE [where x = "\<lambda>job. job \<noteq> 0"])
  then have drained: "runQueue (replicate 3 Enqueue @ map (\<lambda>job. TaskSettled job (job \<noteq> 0)) [0..<1]) =
        \<lparr>requestQueue = [2], processing = True, enqueued = 3,
         executing = [1], started = [0, 1], settledJobs = [(0, False)]\<rparr>"
    by (simp add: upt_conv_Cons del: replicate.simps upt_Suc)
  from none one three first second third freed again running alone stranger ignored drained
  show ?thesis
    by simp
qed

text \<open>
  Claim C8. When the page can be scrolled and every selector of \<open>submitQuery\<close> matches
  only elements that are not visible, or none, \<open>submitQuery\<close> returns false; and when
  the navigation before it has succeeded, the promise of \<open>queryPerplexity\<close> is rejected
  with the error "Could not find input field on Perplexity page", the polling loop is
  never entered and no chunk is emitted.
\<close>

theorem no_usable_input_rejects:
  "scrollOutcome (inputPage page) = None \<and>
   (\<forall>sel\<in>set perplexitySelectors.
      \<exists>els. candidates (inputPage page) sel = Elements els \<and> (\<forall>el\<in>set els. el = NotVisible)) \<longrightarrow>
     submitQuery (inputPage page) = Inr False \<and>
     (gotoOutcome page = None \<longrightarrow>
        settled (queryPerplexity page query oc) =
          Inl (Error ''Could not find input field on Perplexity page'') \<and>
        polling (queryPerplexity page query oc) = None \<and>
        deltas (queryPerplexity page query oc) = [])"
proof (intro impI)
  assume a: "scrollOutcome (inputPage page) = None \<and>
   (\<forall>sel\<in>set perplexitySelectors.
      \<exists>els. candidates (inputPage page) sel = Elements els \<and> (\<forall>el\<in>set els. el = NotVisible))"
  then have "trySelectors (candidates (inputPage page)) perplexitySelectors = False"
    by (intro trySelectors_hidden) simp
  with a have s: "submitQuery (inputPage page) = Inr False"
    by (simp add: submitQuery_def)
  have "settled (queryPerplexity page query oc) =
          Inl (Error ''Could not find input field on Perplexity page'') \<and>
        polling (queryPerplexity page query oc) = None \<and>
        deltas (queryPerplexity page query oc) = []" if "gotoOutcome page = None"
    using that s by (simp add: queryPerplexity_settled perplexityTry_def deltas_def)
  with s show "submitQuery (inputPage page) = Inr False \<and>
     (gotoOutcome page = None \<longrightarrow>
        settled (queryPerplexity page query oc) =
          Inl (Error ''Could not find input field on Perplexity page'') \<and>
        polling (queryPerplexity page query oc) = None \<and>
        deltas (queryPerplexity page query oc) = [])"
    by blast
qed

theorem no_usable_input_rejects_witness:
  "(scrollOutcome (inputPage (sessionWith hiddenPage (steady False))) = None \<and>
    list_all (\<lambda>sel. \<exists>els. candidates (inputPage (sessionWith hiddenPage (steady False))) sel =
                      Elements els \<and> list_all (\<lambda>el. el = NotVisible) els)
      perplexitySelectors) \<and>
   gotoOutcome (sessionWith hiddenPage (steady False)) = None \<and>
   submitQuery (inputPage (sessionWith hiddenPage (steady False))) = Inr False \<and>
   settled (queryPerplexity (sessionWith hiddenPage (steady False)) ''What is X?'' True) =
     Inl (Error ''Could not find input field on Perplexity page'') \<and>
   polling (queryPerplexity (sessionWith hiddenPage (steady False)) ''What is X?'' True) = None \<and>
   deltas (queryPerplexity (sessionWith hiddenPage (steady False)) ''What is X?'' True) = []"
proof -
  have h: "scrollOutcome (inputPage (sessionWith hiddenPage (steady False))) = None \<and>
    (\<forall>sel\<in>set perplexitySelectors.
      \<exists>els. candidates (inputPage (sessionWith hiddenPage (steady False))) sel = Elements els \<and>
            (\<forall>el\<in>set els. el = NotVisible))"
    by (simp add: hiddenPage_def)
  have h': "scrollOutcome (inputPage (sessionWith hiddenPage (steady False))) = None \<and>
    list_all (\<lambda>sel. \<exists>els. candidates (inputPage (sessionWith hiddenPage (steady False))) sel =
                      Elements els \<and> list_all (\<lambda>el. el = NotVisible) els)
      perplexitySelectors"
    using h by (simp add: list_all_iff)
  have n: "gotoOutcome (sessionWith hiddenPage (steady False)) = None"
    by simp
  note inst = no_usable_input_rejects [of "sessionWith hiddenPage (steady False)"
      "''What is X?''" True, rule_format, OF h]
  show ?thesis
    by (rule conjI [OF h' conjI [OF n conjI [OF inst [THEN conjunct1]
      inst [THEN conjunct2, rule_format, OF n]]]])
qed

text \<open>
  Claim C9. Once \<open>createPage\<close> has returned, whatever the page does then (navigation
  failure, no input field, an exception of \<open>extractAnswer\<close>, a stable answer, a timeout
  with or without text), \<open>page.close()\<close> and, in \<open>server.js\<close>, \<open>context.close()\<close> are each
  called exactly once, in this order, in the \<open>finally\<close> block, and the promise settles
  with what the \<open>try\<close> block produced: a failing \<open>close\<close> is swallowed. When the calls
  of \<open>close()\<close> are fulfilled, nothing that \<open>createPage\<close> has opened is left. In
  \<open>gemini-server.js\<close> the page lives in the default context of the browser, and the page
  alone is opened and closed.
\<close>

theorem source_released_once:
  "(createOutcome (createPage browser) = None \<longrightarrow>
      opened (callQueryPerplexity browser page query oc) = [BrowserContext, Page] \<and>
      map fst (closeCalls (callQueryPerplexity browser page query oc)) = [Page, BrowserContext] \<and>
      promise (callQueryPerplexity browser page query oc) = fst (perplexityTry page query oc) \<and>
      (pageClose page = None \<and> contextClose page = None \<longrightarrow>
         notClosed (callQueryPerplexity browser page query oc) = [])) \<and>
   (createOutcome (geminiCreatePage browser) = None \<longrightarrow>
      opened (callQueryGemini browser gpage query oc) = [Page] \<and>
      map fst (closeCalls (callQueryGemini browser gpage query oc)) = [Page] \<and>
      promise (callQueryGemini browser gpage query oc) = fst (geminiTry gpage query oc) \<and>
      (pageClose gpage = None \<longrightarrow>
         notClosed (callQueryGemini browser gpage query oc) = []))"
proof (intro conjI impI)
  assume returned: "createOutcome (createPage browser) = None"
  note entered = callQueryPerplexity_entered [OF returned, of page query oc]
  show "opened (callQueryPerplexity browser page query oc) = [BrowserContext, Page]"
    by (rule entered)
  show "map fst (closeCalls (callQueryPerplexity browser page query oc)) = [Page, BrowserContext]"
    by (simp add: entered)
  show "promise (callQueryPerplexity browser page query oc) = fst (perplexityTry page query oc)"
    by (rule entered)
  show "notClosed (callQueryPerplexity browser page query oc) = []"
    if "pageClose page = None \<and> contextClose page = None"
    using that by (simp add: notClosed_def entered)
next
  assume returned: "createOutcome (geminiCreatePage browser) = None"
  note entered = callQueryGemini_entered [OF returned, of gpage query oc]
  show "opened (callQueryGemini browser gpage query oc) = [Page]"
    by (rule entered)
  show "map fst (closeCalls (callQueryGemini browser gpage query oc)) = [Page]"
    by (simp add: entered)
  show "promise (callQueryGemini browser gpage query oc) = fst (geminiTry gpage query oc)"
    by (rule entered)
  show "notClosed (callQueryGemini browser gpage query oc) = []"
    if "pageClose gpage = None"
    using that by (simp add: notClosed_def entered)
qed

text \<open>
  The third call of \<open>extractAnswer\<close> throws: the promise is rejected with that
  exception, and the page and the context have been closed.
\<close>

theorem source_released_once_witness:
  "createOutcome (createPage healthyBrowser) = None \<and>
   pageClose (sessionWith readyPage oneBadRead) = None \<and>
   contextClose (sessionWith readyPage oneBadRead) = None \<and>
   opened (callQueryPerplexity healthyBrowser (sessionWith readyPage oneBadRead)
      ''What is X?'' True) = [BrowserContext, Page] \<and>
   map fst (closeCalls (callQueryPerplexity healthyBrowser (sessionWith readyPage oneBadRead)
      ''What is X?'' True)) = [Page, BrowserContext] \<and>
   promise (callQueryPerplexity healthyBrowser (sessionWith readyPage oneBadRead)
      ''What is X?'' True) = Inl (Error ''Execution context was destroyed'') \<and>
   notClosed (callQueryPerplexity healthyBrowser (sessionWith readyPage oneBadRead)
      ''What is X?'' True) = [] \<and>
   createOutcome (geminiCreatePage healthyBrowser) = None \<and>
   pageClose (geminiSessionWith readyPage geminiOneBadRead) = None \<and>
   opened (callQueryGemini healthyBrowser (geminiSessionWith readyPage geminiOneBadRead)
      ''What is X?'' True) = [Page] \<and>
   map fst (closeCalls (callQueryGemini healthyBrowser
      (geminiSessionWith readyPage geminiOneBadRead) ''What is X?'' True)) = [Page] \<and>
   promise (callQueryGemini healthyBrowser (geminiSessionWith readyPage geminiOneBadRead)
      ''What is X?'' True) = Inl (Error ''Execution context was destroyed'') \<and>
   notClosed (callQueryGemini healthyBrowser (geminiSessionWith readyPage geminiOneBadRead)
      ''What is X?'' True) = []"
proof -
  have closes: "pageClose (sessionWith readyPage oneBadRead) = None \<and>
      contextClose (sessionWith readyPage oneBadRead) = None"
    by (simp add: sessionWith_def)
  have geminiCloses: "pageClose (geminiSessionWith readyPage geminiOneBadRead) = None"
    by (simp add: geminiSessionWith_def)
  have thrown: "fst (perplexityTry (sessionWith readyPage oneBadRead) ''What is X?'' True) =
      Inl (Error ''Execution context was destroyed'')"
    by (simp add: perplexityTry_polls submitQuery_readyPage oneBadRead_run perplexityOutcome_def)
  have geminiThrown:
    "fst (geminiTry (geminiSessionWith readyPage geminiOneBadRead) ''What is X?'' True) =
      Inl (Error ''Execution context was destroyed'')"
    by (simp add: geminiTry_polls geminiSubmitQuery_readyPage geminiOneBadRead_run
        geminiOutcome_def)
  note inst = source_released_once [where browser = healthyBrowser
      and page = "sessionWith readyPage oneBadRead"
      and gpage = "geminiSessionWith readyPage geminiOneBadRead"
      and query = "''What is X?''" and oc = True]
  note perplexity = inst [THEN conjunct1, rule_format, OF createPage_healthy]
  note gemini = inst [THEN conjunct2, rule_format, OF geminiCreatePage_healthy]
  from perplexity closes have left:
    "notClosed (callQueryPerplexity healthyBrowser (sessionWith readyPage oneBadRead)
       ''What is X?'' True) = []"
    by blast
  from gemini geminiCloses have geminiLeft:
    "notClosed (callQueryGemini healthyBrowser (geminiSessionWith readyPage geminiOneBadRead)
       ''What is X?'' True) = []"
    by blast
  from perplexity gemini left geminiLeft closes geminiCloses thrown geminiThrown
    createPage_healthy geminiCreatePage_healthy
  show ?thesis
    by simp
qed

text \<open>
  \<open>createPage\<close> runs before the \<open>try\<close>. When \<open>page.setUserAgent\<close> rejects in
  \<open>server.js\<close>, the context and the page exist, the promise of \<open>queryPerplexity\<close> is
  rejected with that error, and no \<open>close()\<close> is called; the same holds for the page of
  \<open>gemini-server.js\<close> when \<open>page.bringToFront\<close> rejects. And an execution of
  \<open>queryGemini\<close> that does reach its \<open>finally\<close> closes its page and no browser context.
\<close>

theorem source_released_counterexample:
  "promise (callQueryPerplexity (rejectingAt SetUserAgent (Error ''Target closed''))
      (sessionWith readyPage (steady False)) ''What is X?'' True) =
     Inl (Error ''Target closed'') \<and>
   opened (callQueryPerplexity (rejectingAt SetUserAgent (Error ''Target closed''))
      (sessionWith readyPage (steady False)) ''What is X?'' True) = [BrowserContext, Page] \<and>
   closeCalls (callQueryPerplexity (rejectingAt SetUserAgent (Error ''Target closed''))
      (sessionWith readyPage (steady False)) ''What is X?'' True) = [] \<and>
   promise (callQueryGemini (rejectingAt BringToFront (Error ''Target closed''))
      (geminiSessionWith readyPage (geminiSteady False True)) ''What is X?'' True) =
     Inl (Error ''Target closed'') \<and>
   opened (callQueryGemini (rejectingAt BringToFront (Error ''Target closed''))
      (geminiSessionWith readyPage (geminiSteady False True)) ''What is X?'' True) = [Page] \<and>
   closeCalls (callQueryGemini (rejectingAt BringToFront (Error ''Target closed''))
      (geminiSessionWith readyPage (geminiSteady False True)) ''What is X?'' True) = [] \<and>
   map fst (closeCalls (callQueryGemini healthyBrowser
      (geminiSessionWith readyPage (geminiSteady False True)) ''What is X?'' True)) = [Page]"
proof -
  have "createPage (rejectingAt SetUserAgent (Error ''Target closed'')) =
      \<lparr>createOutcome = Some (Error ''Target closed''), created = [BrowserContext, Page]\<rparr>"
    by (simp add: createPage_def rejectingAt_def)
  moreover have "geminiCreatePage (rejectingAt BringToFront (Error ''Target closed'')) =
      \<lparr>createOutcome = Some (Error ''Target closed''), created = [Page]\<rparr>"
    by (simp add: geminiCreatePage_def rejectingAt_def)
  moreover have "closeCalls (callQueryGemini healthyBrowser
      (geminiSessionWith readyPage (geminiSteady False True)) ''What is X?'' True) =
      [(Page, None)]"
    by (simp add: callQueryGemini_entered geminiCreatePage_healthy geminiSessionWith_def)
  ultimately show ?thesis
    by (simp add: callQueryPerplexity_def callQueryGemini_def)
qed

text \<open>
  Claim C10. A sample with an empty text leaves the state of the loop of \<open>server.js\<close>
  as it is: nothing is emitted, \<open>stableCount\<close> and \<open>lastText\<close> keep their values, and
  the loop goes on. A sample of at most 10 code units leaves the state of the loop of
  \<open>gemini-server.js\<close> as it is, too; there the loop goes on unless \<open>model-response\<close>
  exists and a longer text has been retained, in which case it returns the retained
  text. Consequently, when every poll delivers such a sample, whatever \<open>isLoading\<close> is and
  however often the text repeats, the loop runs until the deadline, no chunk is emitted
  and the execution is rejected with the "no answer received" timeout error.
\<close>

theorem short_samples_ignored:
  "(answerText e = [] \<longrightarrow> perplexityPoll oc st e = Continue st) \<and>
   (length (answerText g) \<le> 10 \<longrightarrow>
      geminiPoll oc st g =
        (if modelResponseExists g \<and> lastText st \<noteq> [] then Return \<lparr>answer = lastText st\<rparr> st
         else Continue st)) \<and>
   (gotoOutcome page = None \<and> submitQuery (inputPage page) = Inr True \<and>
    (\<forall>k. showsText (polls page k) []) \<longrightarrow>
      settled (queryPerplexity page query oc) =
        Inl (Error ''Timeout: no answer received from Perplexity'') \<and>
      deltas (queryPerplexity page query oc) = [] \<and>
      (\<exists>r. polling (queryPerplexity page query oc) = Some r \<and> exit r = DeadlineReached \<and>
           MAX_TIMEOUT \<le> clock r)) \<and>
   (gotoOutcome gpage = None \<and> dismissOutcome gpage = None \<and>
    geminiSubmitQuery (inputPage gpage) = Inr True \<and>
    (\<forall>k. showsAtMost10 (polls gpage k)) \<longrightarrow>
      settled (queryGemini gpage query oc) =
        Inl (Error ''Timeout: no answer received from Gemini'') \<and>
      deltas (queryGemini gpage query oc) = [] \<and>
      (\<exists>r. polling (queryGemini gpage query oc) = Some r \<and> exit r = DeadlineReached \<and>
           120000 \<le> clock r))"
proof (intro conjI impI)
  assume "answerText e = []"
  then show "perplexityPoll oc st e = Continue st"
    by (rule perplexityPoll_empty)
next
  assume "length (answerText g) \<le> 10"
  then show "geminiPoll oc st g =
        (if modelResponseExists g \<and> lastText st \<noteq> [] then Return \<lparr>answer = lastText st\<rparr> st
         else Continue st)"
    by (rule geminiPoll_short)
next
  assume a: "gotoOutcome page = None \<and> submitQuery (inputPage page) = Inr True \<and>
    (\<forall>k. showsText (polls page k) [])"
  then have a1: "gotoOutcome page = None" and a2: "submitQuery (inputPage page) = Inr True"
    and a3: "\<forall>k. showsText (polls page k) []"
    by simp_all
  show "settled (queryPerplexity page query oc) =
        Inl (Error ''Timeout: no answer received from Perplexity'')"
    by (rule queryPerplexity_all_empty(1) [OF a1 a2 a3])
  show "deltas (queryPerplexity page query oc) = []"
    by (rule queryPerplexity_all_empty(2) [OF a1 a2 a3])
  show "\<exists>r. polling (queryPerplexity page query oc) = Some r \<and> exit r = DeadlineReached \<and>
           MAX_TIMEOUT \<le> clock r"
    by (rule queryPerplexity_all_empty(3) [OF a1 a2 a3])
next
  assume a: "gotoOutcome gpage = None \<and> dismissOutcome gpage = None \<and>
    geminiSubmitQuery (inputPage gpage) = Inr True \<and>
    (\<forall>k. showsAtMost10 (polls gpage k))"
  then have a1: "gotoOutcome gpage = None" and a2: "dismissOutcome gpage = None"
    and a3: "geminiSubmitQuery (inputPage gpage) = Inr True"
    and a4: "\<forall>k. showsAtMost10 (polls gpage k)"
    by simp_all
  show "settled (queryGemini gpage query oc) =
        Inl (Error ''Timeout: no answer received from Gemini'')"
    by (rule queryGemini_all_short(1) [OF a1 a2 a3 a4])
  show "deltas (queryGemini gpage query oc) = []"
    by (rule queryGemini_all_short(2) [OF a1 a2 a3 a4])
  show "\<exists>r. polling (queryGemini gpage query oc) = Some r \<and> exit r = DeadlineReached \<and>
           120000 \<le> clock r"
    by (rule queryGemini_all_short(3) [OF a1 a2 a3 a4])
qed

text \<open>
  On Perplexity the page stays empty without a spinner; on Gemini it shows the same ten
  characters on every poll, with \<open>model-response\<close> present and \<open>isLoading\<close> false.
\<close>

theorem short_samples_ignored_witness:
  "answerText \<lparr>answerText = [], isLoading = False, extractedSources = []\<rparr> = [] \<and>
   length (answerText \<lparr>answerText = ''Just a sec'', isLoading = False,
                        modelResponseExists = True\<rparr>) \<le> 10 \<and>
   (gotoOutcome (sessionWith readyPage (blank False)) = None \<and>
    submitQuery (inputPage (sessionWith readyPage (blank False))) = Inr True \<and>
    (\<forall>k. showsText (polls (sessionWith readyPage (blank False)) k) [])) \<and>
   (gotoOutcome (geminiSessionWith readyPage geminiBrief) = None \<and>
    dismissOutcome (geminiSessionWith readyPage geminiBrief) = None \<and>
    geminiSubmitQuery (inputPage (geminiSessionWith readyPage geminiBrief)) = Inr True \<and>
    (\<forall>k. showsAtMost10 (polls (geminiSessionWith readyPage geminiBrief) k))) \<and>
   perplexityPoll True initialPollState
     \<lparr>answerText = [], isLoading = False, extractedSources = []\<rparr> = Continue initialPollState \<and>
   geminiPoll True initialPollState
     \<lparr>answerText = ''Just a sec'', isLoading = False, modelResponseExists = True\<rparr> =
     (if modelResponseExists \<lparr>answerText = ''Just a sec'', isLoading = False,
                              modelResponseExists = True\<rparr> \<and>
         lastText initialPollState \<noteq> []
      then Return \<lparr>answer = lastText initialPollState\<rparr> initialPollState
      else Continue initialPollState) \<and>
   settled (queryPerplexity (sessionWith readyPage (blank False)) ''What is X?'' True) =
     Inl (Error ''Timeout: no answer received from Perplexity'') \<and>
   deltas (queryPerplexity (sessionWith readyPage (blank False)) ''What is X?'' True) = [] \<and>
   settled (queryGemini (geminiSessionWith readyPage geminiBrief) ''What is X?'' True) =
     Inl (Error ''Timeout: no answer received from Gemini'') \<and>
   deltas (queryGemini (geminiSessionWith readyPage geminiBrief) ''What is X?'' True) = []"
proof -
  have e: "answerText \<lparr>answerText = [], isLoading = False, extractedSources = []\<rparr> = []"
    by simp
  have g: "length (answerText \<lparr>answerText = ''Just a sec'', isLoading = False,
                        modelResponseExists = True\<rparr>) \<le> 10"
    by simp
  have all_blank: "\<forall>k. showsText (polls (sessionWith readyPage (blank False)) k) []"
    by (simp add: showsText_def blank_def perplexitySample_def)
  have all_brief: "\<forall>k. showsAtMost10 (polls (geminiSessionWith readyPage geminiBrief) k)"
    by (simp add: showsAtMost10_def geminiBrief_def geminiSample_def)
  have p: "gotoOutcome (sessionWith readyPage (blank False)) = None \<and>
    submitQuery (inputPage (sessionWith readyPage (blank False))) = Inr True \<and>
    (\<forall>k. showsText (polls (sessionWith readyPage (blank False)) k) [])"
    using all_blank by (simp add: submitQuery_readyPage)
  have q: "gotoOutcome (geminiSessionWith readyPage geminiBrief) = None \<and>
    dismissOutcome (geminiSessionWith readyPage geminiBrief) = None \<and>
    geminiSubmitQuery (inputPage (geminiSessionWith readyPage geminiBrief)) = Inr True \<and>
    (\<forall>k. showsAtMost10 (polls (geminiSessionWith readyPage geminiBrief) k))"
    using all_brief by (simp add: geminiSubmitQuery_readyPage)
  note inst = short_samples_ignored [of
      "\<lparr>answerText = [], isLoading = False, extractedSources = []\<rparr>" True initialPollState
      "\<lparr>answerText = ''Just a sec'', isLoading = False, modelResponseExists = True\<rparr>"
      "sessionWith readyPage (blank False)" "''What is X?''"
      "geminiSessionWith readyPage geminiBrief"]
  note rest = inst [THEN conjunct2, THEN conjunct2]
  note cp = rest [THEN conjunct1, rule_format, OF p]
  note cg = rest [THEN conjunct2, rule_format, OF q]
  show ?thesis
    by (rule conjI [OF e conjI [OF g conjI [OF p conjI [OF q
      conjI [OF inst [THEN conjunct1, rule_format, OF e]
      conjI [OF inst [THEN conjunct2, THEN conjunct1, rule_format, OF g]
      conjI [OF cp [THEN conjunct1]
      conjI [OF cp [THEN conjunct2, THEN conjunct1]
      conjI [OF cg [THEN conjunct1] cg [THEN conjunct2, THEN conjunct1]]]]]]]]]])
qed

end
